(* ===== verification/Prelude.thy ===== *)
theory Prelude
  imports Main "HOL-Library.Word" "HOL-Library.Multiset"
begin

text \<open>
  Shared vocabulary of the development. It holds: the result type of C code that may run into
  undefined behaviour or not return (\<open>exec\<close>), a weakest-precondition reading of such results with
  one rule per construct, and the generic facts on lists, words and arithmetic that
  several components use.
\<close>

unbundle bit_operations_syntax

named_theorems state_simps \<open>how a state update acts on the observations of a state\<close>


section \<open>Results of C code\<close>

text \<open>
  A C function either returns a value, or executes something the C standard leaves undefined, or
  never returns. \<open>Some (Inr a)\<close> is the value \<open>a\<close>, \<open>Some (Inl u)\<close> the undefined behaviour \<open>u\<close>,
  and \<open>None\<close> a call that does not return. Nothing after an undefined behaviour is executed in
  the model.
\<close>

datatype ub =
    NullDeref        \<comment> \<open>a NULL pointer is dereferenced\<close>
  | BufferOverflow   \<comment> \<open>a write past the end of an array\<close>
  | UninitRead       \<comment> \<open>an automatic variable is read before it got a value\<close>
  | ShiftRange       \<comment> \<open>a shift by a negative amount or by at least the width\<close>

type_synonym 'a exec = "(ub + 'a) option"

abbreviation ret :: "'a \<Rightarrow> 'a exec" where
  "ret a \<equiv> Some (Inr a)"

abbreviation stuck :: "ub \<Rightarrow> 'a exec" where
  "stuck u \<equiv> Some (Inl u)"

definition exec_bind :: "'a exec \<Rightarrow> ('a \<Rightarrow> 'b exec) \<Rightarrow> 'b exec" where
  "exec_bind m f =
     (case m of None \<Rightarrow> None | Some (Inl u) \<Rightarrow> Some (Inl u) | Some (Inr a) \<Rightarrow> f a)"

lemma exec_bind_simps [simp]:
  "exec_bind (ret a) f = f a"
  "exec_bind (stuck u) f = stuck u"
  "exec_bind None f = None"
  by (simp_all add: exec_bind_def)

lemma exec_bind_assoc: "exec_bind (exec_bind m f) g = exec_bind m (\<lambda>a. exec_bind (f a) g)"
  by (simp add: exec_bind_def split: option.split sum.split)

lemma exec_bind_cong [fundef_cong]:
  "m = m' \<Longrightarrow> (\<And>a. m' = ret a \<Longrightarrow> f a = f' a) \<Longrightarrow> exec_bind m f = exec_bind m' f'"
  by (auto simp: exec_bind_def split: option.split sum.split)

lemma exec_bind_eq_ret:
  "exec_bind m f = ret b \<longleftrightarrow> (\<exists>a. m = ret a \<and> f a = ret b)"
  by (auto simp: exec_bind_def split: option.split sum.split)

text \<open>A pointer argument is a value of option type; reading through NULL is undefined.\<close>

definition deref :: "'a option \<Rightarrow> 'a exec" where
  "deref p = (case p of None \<Rightarrow> stuck NullDeref | Some a \<Rightarrow> ret a)"

lemma deref_simps [simp]: "deref (Some a) = ret a" "deref None = stuck NullDeref"
  by (simp_all add: deref_def)


section \<open>Weakest preconditions\<close>

text \<open>
  \<open>wp U m Q\<close>: if \<open>m\<close> returns, the value satisfies \<open>Q\<close>; if it runs into undefined behaviour
  \<open>u\<close>, then \<open>U (Some u)\<close>; if it does not return, then \<open>U None\<close>. With \<open>never\<close> for \<open>U\<close> this is
  total correctness.
\<close>

definition wp :: "(ub option \<Rightarrow> bool) \<Rightarrow> 'a exec \<Rightarrow> ('a \<Rightarrow> bool) \<Rightarrow> bool" where
  "wp U m Q \<longleftrightarrow>
     (case m of None \<Rightarrow> U None | Some (Inl u) \<Rightarrow> U (Some u) | Some (Inr a) \<Rightarrow> Q a)"

definition never :: "ub option \<Rightarrow> bool" where
  "never u \<longleftrightarrow> False"

lemma neverE: "never u \<Longrightarrow> P"
  by (simp add: never_def)

lemma wp_ret: "Q a \<Longrightarrow> wp U (ret a) Q"
  by (simp add: wp_def)

lemma wp_stuck: "U (Some u) \<Longrightarrow> wp U (stuck u) Q"
  by (simp add: wp_def)

lemma wp_None: "U None \<Longrightarrow> wp U None Q"
  by (simp add: wp_def)

lemma wp_bind: "wp U m (\<lambda>a. wp U (f a) Q) \<Longrightarrow> wp U (exec_bind m f) Q"
  by (auto simp: wp_def exec_bind_def split: option.splits sum.splits)

lemma wp_if:
  "(b \<Longrightarrow> wp U x Q) \<Longrightarrow> (\<not> b \<Longrightarrow> wp U y Q) \<Longrightarrow> wp U (if b then x else y) Q"
  by simp

lemma wp_mono: "wp U m Q \<Longrightarrow> (\<And>a. Q a \<Longrightarrow> Q' a) \<Longrightarrow> wp U m Q'"
  by (auto simp: wp_def split: option.splits sum.splits)

lemma wp_mono_ub: "wp U m Q \<Longrightarrow> (\<And>u. U u \<Longrightarrow> U' u) \<Longrightarrow> wp U' m Q"
  by (auto simp: wp_def split: option.splits sum.splits)

lemma wp_conj: "wp U m Q \<Longrightarrow> wp U m Q' \<Longrightarrow> wp U m (\<lambda>a. Q a \<and> Q' a)"
  by (auto simp: wp_def split: option.splits sum.splits)

lemma wp_never: "wp never m Q \<longleftrightarrow> (\<exists>a. m = ret a \<and> Q a)"
  by (auto simp: wp_def never_def split: option.splits sum.splits)

lemma wp_retD: "wp U (m) Q \<Longrightarrow> m = ret a \<Longrightarrow> Q a"
  by (simp add: wp_def)

lemma wp_retI: "m = ret a \<Longrightarrow> Q a \<Longrightarrow> wp U m Q"
  by (simp add: wp_def)

lemma wp_case_prod: "(\<And>a b. p = (a, b) \<Longrightarrow> wp U (f a b) Q) \<Longrightarrow> wp U (case p of (a, b) \<Rightarrow> f a b) Q"
  by (cases p) simp

lemma wp_case_sum:
  "(\<And>a. p = Inl a \<Longrightarrow> wp U (f a) Q) \<Longrightarrow> (\<And>b. p = Inr b \<Longrightarrow> wp U (g b) Q) \<Longrightarrow>
     wp U (case p of Inl a \<Rightarrow> f a | Inr b \<Rightarrow> g b) Q"
  by (cases p) simp_all

lemma wp_case_option:
  "(p = None \<Longrightarrow> wp U x Q) \<Longrightarrow> (\<And>a. p = Some a \<Longrightarrow> wp U (f a) Q) \<Longrightarrow>
     wp U (case p of None \<Rightarrow> x | Some a \<Rightarrow> f a) Q"
  by (cases p) simp_all

text \<open>The same rules where the case is already decided; C return codes are 0, 1 or -1.\<close>

lemma wp_if_ok: "wp U y Q \<Longrightarrow> wp U (if (0::int) \<noteq> 0 then x else y) Q"
  by simp

lemma wp_if_failed: "wp U x Q \<Longrightarrow> wp U (if (1::int) \<noteq> 0 then x else y) Q"
  by simp

lemma wp_if_minus: "wp U x Q \<Longrightarrow> wp U (if (-1::int) \<noteq> 0 then x else y) Q"
  by simp

lemma wp_case_Inl: "wp U (f a) Q \<Longrightarrow> wp U (case Inl a of Inl a \<Rightarrow> f a | Inr b \<Rightarrow> g b) Q"
  by simp

lemma wp_case_Inr: "wp U (g b) Q \<Longrightarrow> wp U (case Inr b of Inl a \<Rightarrow> f a | Inr b \<Rightarrow> g b) Q"
  by simp

lemma wp_case_None: "wp U x Q \<Longrightarrow> wp U (case None of None \<Rightarrow> x | Some a \<Rightarrow> f a) Q"
  by simp

lemma wp_case_Some: "wp U (f a) Q \<Longrightarrow> wp U (case Some a of None \<Rightarrow> x | Some a \<Rightarrow> f a) Q"
  by simp

lemma wp_case_Pair: "wp U (f a b) Q \<Longrightarrow> wp U (case (a, b) of (a, b) \<Rightarrow> f a b) Q"
  by simp

lemma wp_let: "(\<And>x. x = v \<Longrightarrow> wp U (f x) Q) \<Longrightarrow> wp U (Let v f) Q"
  by simp


section \<open>Lists\<close>

lemma takeWhile_not_mem [simp]: "c \<notin> set s \<Longrightarrow> takeWhile (\<lambda>x. x \<noteq> c) s = s"
  by (auto simp: takeWhile_eq_all_conv)

lemma takeWhile_hits: "c \<notin> set s \<Longrightarrow> takeWhile (\<lambda>x. x \<noteq> c) (s @ c # t) = s"
  by (induction s) auto

lemma dropWhile_hits: "c \<notin> set s \<Longrightarrow> dropWhile (\<lambda>x. x \<noteq> c) (s @ c # t) = c # t"
  by (induction s) auto

lemma not_mem_takeWhile: "c \<notin> set (takeWhile (\<lambda>x. x \<noteq> c) s)"
  by (auto dest: set_takeWhileD)

lemma list_update_single_differ:
  "xs = a @ x # b \<Longrightarrow> ys = a @ y # b \<Longrightarrow> x \<noteq> y \<Longrightarrow> xs \<noteq> ys"
  by simp


section \<open>Words and octets\<close>

lemma xor_cancel: "a XOR c = b XOR c \<Longrightarrow> a = b" for a b c :: "'a::len word"
proof -
  assume eq: "a XOR c = b XOR c"
  have "a = (a XOR c) XOR c" by (simp add: xor.assoc)
  also have "\<dots> = (b XOR c) XOR c" by (simp only: eq)
  also have "\<dots> = b" by (simp add: xor.assoc)
  finally show "a = b" .
qed

text \<open>Octet \<open>i\<close> of a 32-bit value, counted from the least significant one.\<close>

definition octet :: "nat \<Rightarrow> 32 word \<Rightarrow> nat" where
  "octet i w = unat (take_bit 8 (drop_bit (8 * i) w))"

lemma unat_less32: "unat (w :: 32 word) < 4294967296"
proof -
  have "unat w < 2 ^ LENGTH(32)" by (rule unsigned_less)
  then show ?thesis by simp
qed

lemma octet_div: "octet i w = unat w div 2 ^ (8 * i) mod 256"
proof -
  have "octet i w = take_bit 8 (drop_bit (8 * i) (unat w))"
    by (simp only: octet_def unsigned_take_bit_eq unsigned_drop_bit_eq)
       (simp add: take_bit_eq_mod unat_less32)
  then show ?thesis by (simp add: take_bit_eq_mod drop_bit_eq_div)
qed

lemma octet_less [simp]: "octet i w < 256"
  by (simp add: octet_div)

definition word_of_octets :: "nat \<Rightarrow> nat \<Rightarrow> nat \<Rightarrow> nat \<Rightarrow> 32 word" where
  "word_of_octets a b c d = word_of_nat (a + 256 * b + 65536 * c + 16777216 * d)"

lemma unat_word_of_octets:
  assumes "a < 256" "b < 256" "c < 256" "d < 256"
  shows "unat (word_of_octets a b c d) = a + 256 * b + 65536 * c + 16777216 * d"
  using assms by (simp only: word_of_octets_def unsigned_of_nat take_bit_eq_mod) simp

lemma base256:
  "a < 256 \<Longrightarrow> (a + 256 * x) mod 256 = a"
  "a < 256 \<Longrightarrow> (a + 256 * x) div 256 = x" for a x :: nat
  by simp_all

lemma div_65536: "n div 65536 = n div 256 div 256" for n :: nat
  by (simp flip: div_mult2_eq)

lemma div_16777216: "n div 16777216 = n div 256 div 256 div 256" for n :: nat
  by (simp flip: div_mult2_eq)

lemma octets_of_word_of_octets:
  assumes "a < 256" "b < 256" "c < 256" "d < 256"
  shows "octet 0 (word_of_octets a b c d) = a" "octet 1 (word_of_octets a b c d) = b"
    "octet 2 (word_of_octets a b c d) = c" "octet 3 (word_of_octets a b c d) = d"
proof -
  let ?n = "a + 256 * b + 65536 * c + 16777216 * d"
  have n: "unat (word_of_octets a b c d) = ?n"
    by (rule unat_word_of_octets [OF assms])
  have split: "?n = a + 256 * (b + 256 * (c + 256 * d))"
    by simp
  have "?n mod 256 = a"
    using assms by (simp only: split base256)
  moreover have "?n div 256 mod 256 = b"
    using assms by (simp only: split base256)
  moreover have "?n div 65536 mod 256 = c"
    using assms by (simp only: split base256 div_65536)
  moreover have "?n div 16777216 mod 256 = d"
    using assms by (simp only: split base256 div_16777216) simp
  ultimately show "octet 0 (word_of_octets a b c d) = a" "octet 1 (word_of_octets a b c d) = b"
    "octet 2 (word_of_octets a b c d) = c" "octet 3 (word_of_octets a b c d) = d"
    by (simp_all add: octet_div n)
qed

lemma word_of_octets_of_word:
  "word_of_octets (octet 0 w) (octet 1 w) (octet 2 w) (octet 3 w) = w"
proof -
  define n where "n = unat w"
  have "n div 16777216 < 256"
    using unat_less32 [of w] by (simp add: n_def less_mult_imp_div_less)
  then have top: "n div 16777216 mod 256 = n div 256 div 256 div 256"
    by (simp add: div_16777216)
  have digit: "m mod 256 + 256 * (m div 256) = m" for m :: nat
    by simp
  have "n mod 256 + 256 * (n div 256 mod 256) + 65536 * (n div 65536 mod 256)
      + 16777216 * (n div 16777216 mod 256) = n"
    unfolding top div_65536
    using digit [of n] digit [of "n div 256"] digit [of "n div 256 div 256"] by linarith
  moreover have "octet 0 w = n mod 256" "octet 1 w = n div 256 mod 256"
    "octet 2 w = n div 65536 mod 256" "octet 3 w = n div 16777216 mod 256"
    by (simp_all add: octet_div n_def)
  ultimately have "word_of_octets (octet 0 w) (octet 1 w) (octet 2 w) (octet 3 w) = word_of_nat n"
    by (simp only: word_of_octets_def)
  then show ?thesis by (simp add: n_def)
qed

lemma word_of_nat_inject_less:
  fixes x y :: nat
  assumes "x < 2 ^ 32" "y < 2 ^ 32"
  shows "(word_of_nat x :: 32 word) = word_of_nat y \<longleftrightarrow> x = y"
  using assms by (simp add: word_of_nat_eq_iff take_bit_eq_mod)

end
