(* ===== verification/CLib.thy ===== *)
theory CLib
  imports Prelude
begin

text \<open>
  The parts of the C library the plugin calls on plain data: C strings, \<open>strcpy\<close> into a bounded
  array, \<open>strchr\<close>, \<open>atoi\<close>, the \<open>printf\<close> directives \<open>%s\<close>, \<open>%d\<close>, \<open>%08x\<close>, byte order on a
  little-endian host, and \<open>inet_pton\<close>/\<open>inet_ntop\<close> for IPv4. The behaviour is the one glibc
  documents on Linux; \<open>int\<close> is 32 bits and \<open>long\<close> 64 bits wide.
\<close>


section \<open>C strings\<close>

text \<open>A character array read as a C string ends at the first NUL (or at the end of the list).\<close>

definition cstr :: "string \<Rightarrow> string" where
  "cstr s = takeWhile (\<lambda>c. c \<noteq> CHR 0x00) s"

lemma cstr_id [simp]: "CHR 0x00 \<notin> set s \<Longrightarrow> cstr s = s"
  by (simp add: cstr_def)

lemma nul_not_in_cstr [simp]: "CHR 0x00 \<notin> set (cstr s)"
  by (simp add: cstr_def not_mem_takeWhile)

text \<open>\<open>strcpy\<close> into an array of \<open>cap\<close> bytes; the terminating NUL needs one of them.\<close>

definition strcpy :: "nat \<Rightarrow> string \<Rightarrow> string exec" where
  "strcpy cap src = (if length (cstr src) < cap then ret (cstr src) else stuck BufferOverflow)"

text \<open>\<open>strchr\<close>: the text before the first \<open>c\<close> and the text after it, or NULL.\<close>

definition strchr :: "string \<Rightarrow> char \<Rightarrow> (string \<times> string) option" where
  "strchr s c =
     (case dropWhile (\<lambda>x. x \<noteq> c) s of
        [] \<Rightarrow> None
      | _ # rest \<Rightarrow> Some (takeWhile (\<lambda>x. x \<noteq> c) s, rest))"

lemma strchr_None_iff: "strchr s c = None \<longleftrightarrow> c \<notin> set s"
proof -
  have "strchr s c = None \<longleftrightarrow> dropWhile (\<lambda>x. x \<noteq> c) s = []"
    by (cases "dropWhile (\<lambda>x. x \<noteq> c) s") (simp_all add: strchr_def del: dropWhile_eq_Nil_conv)
  then show ?thesis by (auto simp: dropWhile_eq_Nil_conv)
qed

lemma strchr_append: "c \<notin> set s \<Longrightarrow> strchr (s @ c # t) c = Some (s, t)"
  by (simp add: strchr_def dropWhile_hits takeWhile_hits)

lemma strchr_SomeD: "strchr s c = Some (a, b) \<Longrightarrow> s = a @ c # b \<and> c \<notin> set a"
  by (auto simp: strchr_def not_mem_takeWhile dropWhile_eq_Cons_conv split: list.splits)


section \<open>Decimal numbers\<close>

definition digit_char :: "nat \<Rightarrow> char" where
  "digit_char n = char_of (48 + n)"

definition is_digit :: "char \<Rightarrow> bool" where
  "is_digit c \<longleftrightarrow> 48 \<le> (of_char c :: nat) \<and> (of_char c :: nat) \<le> 57"

definition digit_val :: "char \<Rightarrow> nat" where
  "digit_val c = of_char c - 48"

fun dec_nat :: "nat \<Rightarrow> string" where
  "dec_nat n = (if n < 10 then [digit_char n] else dec_nat (n div 10) @ [digit_char (n mod 10)])"

declare dec_nat.simps [simp del]

text \<open>\<open>%d\<close>\<close>

definition dec_int :: "int \<Rightarrow> string" where
  "dec_int i = (if i < 0 then CHR ''-'' # dec_nat (nat (- i)) else dec_nat (nat i))"

definition dec_val :: "string \<Rightarrow> nat" where
  "dec_val s = foldl (\<lambda>a c. 10 * a + digit_val c) 0 s"

lemma dec_val_Nil [simp]: "dec_val [] = 0"
  by (simp add: dec_val_def)

lemma dec_val_snoc [simp]: "dec_val (s @ [c]) = 10 * dec_val s + digit_val c"
  by (simp add: dec_val_def)

lemma is_digit_digit_char [simp]: "n < 10 \<Longrightarrow> is_digit (digit_char n)"
  by (simp add: is_digit_def digit_char_def)

lemma digit_val_digit_char [simp]: "n < 10 \<Longrightarrow> digit_val (digit_char n) = n"
  by (simp add: digit_val_def digit_char_def)

lemma digit_char_digit_val [simp]: "is_digit c \<Longrightarrow> digit_char (digit_val c) = c"
  by (simp add: is_digit_def digit_char_def digit_val_def)

lemma digit_val_less [simp]: "is_digit c \<Longrightarrow> digit_val c < 10"
  unfolding is_digit_def digit_val_def by arith

lemma dec_nat_digits: "c \<in> set (dec_nat n) \<Longrightarrow> is_digit c"
proof (induction n rule: dec_nat.induct)
  case (1 n)
  then show ?case
    by (cases "n < 10") (auto simp: dec_nat.simps [of n])
qed

lemma dec_nat_Nil [simp]: "dec_nat n \<noteq> []"
  by (simp add: dec_nat.simps [of n])

lemma dec_val_dec_nat [simp]: "dec_val (dec_nat n) = n"
proof (induction n rule: dec_nat.induct)
  case (1 n)
  show ?case
  proof (cases "n < 10")
    case True
    then show ?thesis
      by (simp add: dec_nat.simps [of n] dec_val_def)
  next
    case False
    with 1 show ?thesis
      by (simp add: dec_nat.simps [of n])
  qed
qed

lemma dec_val_bound: "(\<And>c. c \<in> set s \<Longrightarrow> is_digit c) \<Longrightarrow> dec_val s < 10 ^ length s"
proof (induction s rule: rev_induct)
  case Nil
  then show ?case by simp
next
  case (snoc c s)
  then have "dec_val s < 10 ^ length s" "digit_val c < 10" by auto
  then show ?case by simp
qed

text \<open>A digit string without a superfluous leading zero is the decimal form of its value.\<close>

definition canonical_dec :: "string \<Rightarrow> bool" where
  "canonical_dec s \<longleftrightarrow>
     s \<noteq> [] \<and> (\<forall>c \<in> set s. is_digit c) \<and> (1 < length s \<longrightarrow> hd s \<noteq> CHR ''0'')"

lemma digit_char_0: "digit_char 0 = CHR ''0''"
  by code_simp

lemma digit_val_eq_0: "is_digit c \<Longrightarrow> digit_val c = 0 \<longleftrightarrow> c = CHR ''0''"
proof
  assume "is_digit c" "digit_val c = 0"
  then have "c = digit_char 0" by (metis digit_char_digit_val)
  then show "c = CHR ''0''" by (simp add: digit_char_0)
qed (simp add: digit_val_def)

lemma dec_nat_of_dec_val: "canonical_dec s \<Longrightarrow> dec_nat (dec_val s) = s \<and> (hd s \<noteq> CHR ''0'' \<longrightarrow> 0 < dec_val s)"
proof (induction s rule: rev_induct)
  case Nil
  then show ?case by (simp add: canonical_dec_def)
next
  case (snoc c s)
  have c: "is_digit c" using snoc.prems by (simp add: canonical_dec_def)
  show ?case
  proof (cases "s = []")
    case True
    then show ?thesis
      using c digit_val_eq_0 [OF c] by (auto simp: dec_nat.simps [of "digit_val c"] dec_val_def)
  next
    case False
    then have "canonical_dec s" "hd s \<noteq> CHR ''0''"
      using snoc.prems by (cases s; simp add: canonical_dec_def)+
    with snoc.IH have "dec_nat (dec_val s) = s" "0 < dec_val s" by auto
    then show ?thesis
      using c False by (simp add: dec_nat.simps [of "10 * dec_val s + digit_val c"])
  qed
qed

lemma canonical_dec_nat: "canonical_dec (dec_nat n)"
proof (induction n rule: dec_nat.induct)
  case (1 n)
  show ?case
  proof (cases "n < 10")
    case True
    then show ?thesis by (simp add: dec_nat.simps [of n] canonical_dec_def)
  next
    case False
    have "n div 10 \<noteq> 0" using False by simp
    then have "hd (dec_nat (n div 10)) \<noteq> CHR ''0''"
    proof (cases "n div 10 < 10")
      case True
      then show ?thesis
        using \<open>n div 10 \<noteq> 0\<close> digit_val_digit_char [OF True]
        by (auto simp: dec_nat.simps [of "n div 10"] digit_val_def)
    next
      case False
      then have "1 < length (dec_nat (n div 10))"
        by (simp add: dec_nat.simps [of "n div 10"])
      then show ?thesis using 1 \<open>\<not> n < 10\<close> by (simp add: canonical_dec_def)
    qed
    then show ?thesis
      using False 1 dec_nat_digits
      by (auto simp: dec_nat.simps [of n] canonical_dec_def)
  qed
qed

lemma dec_nat_len:
  "n < 10 ^ k \<Longrightarrow> 0 < k \<Longrightarrow> length (dec_nat n) \<le> k"
proof (induction k arbitrary: n)
  case 0
  then show ?case by simp
next
  case (Suc k)
  show ?case
  proof (cases "n < 10")
    case True
    then show ?thesis by (simp add: dec_nat.simps [of n])
  next
    case False
    then have "0 < k" using Suc.prems by (cases k) auto
    moreover have "n div 10 < 10 ^ k" using Suc.prems by (simp add: less_mult_imp_div_less)
    ultimately show ?thesis
      using Suc.IH [of "n div 10"] False by (simp add: dec_nat.simps [of n])
  qed
qed


text \<open>\<open>%d\<close> never prints more than a sign and ten digits for an \<open>int\<close>.\<close>

definition int_range :: "int \<Rightarrow> bool" where
  "int_range i \<longleftrightarrow> - (2 ^ 31) \<le> i \<and> i < 2 ^ 31"

lemma dec_int_len: "int_range i \<Longrightarrow> length (dec_int i) \<le> 11"
proof -
  assume i: "int_range i"
  then have "nat i < 10 ^ 10" "nat (- i) < 10 ^ 10" by (auto simp: int_range_def)
  then have "length (dec_nat (nat i)) \<le> 10" "length (dec_nat (nat (- i))) \<le> 10"
    by (simp_all add: dec_nat_len)
  then show ?thesis by (simp add: dec_int_def)
qed


section \<open>atoi\<close>

definition is_space :: "char \<Rightarrow> bool" where
  "is_space c \<longleftrightarrow> of_char c \<in> {9 :: nat, 10, 11, 12, 13, 32}"

text \<open>The value \<open>strtol\<close> reads in base 10, before it is clamped to \<open>long\<close>.\<close>

definition signed_digits :: "string \<Rightarrow> int" where
  "signed_digits s =
     (case s of
        [] \<Rightarrow> 0
      | c # t \<Rightarrow>
          if c = CHR ''-'' then - int (dec_val (takeWhile is_digit t))
          else if c = CHR ''+'' then int (dec_val (takeWhile is_digit t))
          else int (dec_val (takeWhile is_digit s)))"

definition strtol10 :: "string \<Rightarrow> int" where
  "strtol10 s = max (- (2 ^ 63)) (min (2 ^ 63 - 1) (signed_digits (dropWhile is_space (cstr s))))"

text \<open>glibc's \<open>atoi\<close> converts the \<open>long\<close> to \<open>int\<close>, which keeps the low 32 bits.\<close>

definition atoi :: "string \<Rightarrow> int" where
  "atoi s = signed_take_bit 31 (strtol10 s)"

lemma atoi_range: "int_range (atoi s)"
  using signed_take_bit_int_greater_eq_minus_exp [of 31 "strtol10 s"]
    signed_take_bit_int_less_exp [of 31 "strtol10 s"]
  by (simp add: int_range_def atoi_def)

lemma signed_take_bit_id: "int_range i \<Longrightarrow> signed_take_bit 31 i = i"
  by (simp add: int_range_def signed_take_bit_int_eq_self)

lemma digit_not_special:
  assumes "is_digit c"
  shows "\<not> is_space c" "c \<noteq> CHR ''-''" "c \<noteq> CHR ''+''" "c \<noteq> CHR ''.''" "c \<noteq> CHR ''/''" "c \<noteq> CHR 0x00"
  using assms by (auto simp: is_digit_def is_space_def)

lemma takeWhile_dec_nat [simp]: "takeWhile is_digit (dec_nat n) = dec_nat n"
  by (auto simp: takeWhile_eq_all_conv dest: dec_nat_digits)

lemma dec_nat_no_special:
  "CHR ''.'' \<notin> set (dec_nat n)" "CHR ''/'' \<notin> set (dec_nat n)" "CHR 0x00 \<notin> set (dec_nat n)"
  using dec_nat_digits digit_not_special by blast+

lemma signed_digits_dec_nat: "signed_digits (dec_nat n) = int n"
proof -
  obtain c t where ct: "dec_nat n = c # t" by (meson dec_nat_Nil neq_Nil_conv)
  then have "is_digit c" using dec_nat_digits [of c n] by simp
  then have "c \<noteq> CHR ''-''" "c \<noteq> CHR ''+''" by (auto dest: digit_not_special)
  then have "signed_digits (dec_nat n) = int (dec_val (takeWhile is_digit (dec_nat n)))"
    by (simp add: signed_digits_def ct)
  then show ?thesis by simp
qed

lemma dec_int_no_special:
  "CHR ''.'' \<notin> set (dec_int i)" "CHR ''/'' \<notin> set (dec_int i)" "CHR 0x00 \<notin> set (dec_int i)"
  by (auto simp: dec_int_def dec_nat_no_special)

lemma dropWhile_space_dec_int: "dropWhile is_space (dec_int i) = dec_int i"
proof -
  have "dropWhile is_space (dec_nat n) = dec_nat n" for n
    using dec_nat_digits [of "hd (dec_nat n)" n] digit_not_special(1)
    by (cases "dec_nat n") auto
  moreover have "\<not> is_space (CHR ''-'')" by (simp add: is_space_def)
  ultimately show ?thesis by (simp add: dec_int_def)
qed

lemma atoi_dec_int [simp]:
  assumes "int_range i"
  shows "atoi (dec_int i) = i"
proof -
  have "signed_digits (dec_int i) = i"
    by (cases "i < 0") (simp_all add: dec_int_def signed_digits_dec_nat signed_digits_def [of "_ # _"])
  then have "strtol10 (dec_int i) = i"
    using assms by (simp add: strtol10_def dropWhile_space_dec_int dec_int_no_special int_range_def)
  then show ?thesis using assms by (simp add: atoi_def signed_take_bit_id)
qed


section \<open>printf\<close>

datatype fmt_arg = AStr string | AInt int | ASize nat | AHex "32 word"

definition hex_char :: "nat \<Rightarrow> char" where
  "hex_char n = (if n < 10 then char_of (48 + n) else char_of (87 + n))"

text \<open>\<open>%08x\<close> of an \<open>unsigned\<close>: eight lower-case hexadecimal digits.\<close>

definition nibble :: "nat \<Rightarrow> 32 word \<Rightarrow> nat" where
  "nibble i w = unat w div 16 ^ i mod 16"

definition hex8 :: "32 word \<Rightarrow> string" where
  "hex8 w = map (\<lambda>i. hex_char (nibble i w)) [7, 6, 5, 4, 3, 2, 1, 0]"

text \<open>
  The directive that follows a \<open>%\<close> and takes the next argument: the text it prints, how many
  characters of the format it uses, and the arguments left. A directive whose argument is
  missing or has another type is undefined in C and does not occur in the plugin; the model
  prints it as it stands.
\<close>

definition directive :: "string \<Rightarrow> fmt_arg list \<Rightarrow> (string \<times> nat \<times> fmt_arg list) option" where
  "directive f args =
     (case args of
        [] \<Rightarrow> None
      | AStr s # r \<Rightarrow> if take 1 f = ''s'' then Some (s, 1, r) else None
      | AInt i # r \<Rightarrow> if take 1 f = ''d'' then Some (dec_int i, 1, r) else None
      | ASize n # r \<Rightarrow> if take 2 f = ''zu'' then Some (dec_nat n, 2, r) else None
      | AHex w # r \<Rightarrow> if take 3 f = ''08x'' then Some (hex8 w, 3, r) else None)"

fun format :: "string \<Rightarrow> fmt_arg list \<Rightarrow> string" where
  "format [] args = []"
| "format (c # f) args =
     (if c \<noteq> CHR ''%'' then c # format f args
      else case directive f args of
             None \<Rightarrow> c # format f args
           | Some (txt, n, rest) \<Rightarrow> txt @ format (drop n f) rest)"

text \<open>\<open>snprintf\<close> and \<open>vsnprintf\<close> keep at most \<open>cap - 1\<close> characters.\<close>

definition snprintf :: "nat \<Rightarrow> string \<Rightarrow> fmt_arg list \<Rightarrow> string" where
  "snprintf cap f args = take (cap - 1) (format f args)"

lemma length_hex8 [simp]: "length (hex8 w) = 8"
  by (simp add: hex8_def)

lemma hex_char_inj: "a < 16 \<Longrightarrow> b < 16 \<Longrightarrow> hex_char a = hex_char b \<Longrightarrow> a = b"
proof -
  assume "a < 16" "b < 16" "hex_char a = hex_char b"
  moreover from this(3) have "(of_char (hex_char a) :: nat) = of_char (hex_char b)" by simp
  ultimately show "a = b" by (auto simp: hex_char_def split: if_splits)
qed

lemma nibble_less [simp]: "nibble i w < 16"
  by (simp add: nibble_def)

lemma nibbles_determine:
  assumes "\<And>i. i < 8 \<Longrightarrow> nibble i v = nibble i w"
  shows "v = w"
proof -
  have low: "x mod 16 ^ k = y mod 16 ^ k"
    if "\<And>i. i < k \<Longrightarrow> x div 16 ^ i mod 16 = y div 16 ^ i mod 16" for k and x y :: nat
    using that
  proof (induction k)
    case 0
    then show ?case by simp
  next
    case (Suc k)
    have "z mod 16 ^ Suc k = 16 ^ k * (z div 16 ^ k mod 16) + z mod 16 ^ k" for z :: nat
      by (simp add: mod_mult2_eq mult.commute [of 16])
    then show ?case using Suc by simp
  qed
  have "unat v mod 16 ^ 8 = unat w mod 16 ^ 8"
    by (rule low) (use assms in \<open>simp add: nibble_def\<close>)
  then have "unat v = unat w"
    using unat_less32 [of v] unat_less32 [of w] by simp
  then show ?thesis by (rule unsigned_word_eqI)
qed

lemma hex8_inj: "hex8 v = hex8 w \<longleftrightarrow> v = w"
proof
  assume eq: "hex8 v = hex8 w"
  have "nibble i v = nibble i w" if "i < 8" for i
  proof -
    from that have "i \<in> {0, 1, 2, 3, 4, 5, 6, 7}" by auto
    with eq show ?thesis by (auto simp: hex8_def dest!: hex_char_inj [OF nibble_less nibble_less])
  qed
  then show "v = w" by (rule nibbles_determine)
qed simp


section \<open>Internet addresses\<close>

text \<open>
  \<open>struct in_addr\<close>: \<open>s_addr\<close> is the value of the four bytes in memory, the first octet of the
  address in the byte with the lowest address. On a little-endian host that is octet 0 of the
  value, and \<open>htonl\<close>/\<open>ntohl\<close> reverse the octets.
\<close>

datatype in_addr = In_addr (s_addr: "32 word")

definition ntohl :: "32 word \<Rightarrow> 32 word" where
  "ntohl w = word_of_octets (octet 3 w) (octet 2 w) (octet 1 w) (octet 0 w)"

definition htonl :: "32 word \<Rightarrow> 32 word" where
  "htonl w = ntohl w"

lemma ntohl_octets:
  "octet 0 (ntohl w) = octet 3 w" "octet 1 (ntohl w) = octet 2 w"
  "octet 2 (ntohl w) = octet 1 w" "octet 3 (ntohl w) = octet 0 w"
  by (simp_all add: ntohl_def octets_of_word_of_octets del: One_nat_def)

lemma ntohl_ntohl [simp]: "ntohl (ntohl w) = w"
  by (simp add: ntohl_def [of "ntohl w"] ntohl_octets word_of_octets_of_word del: One_nat_def)

lemma htonl_ntohl [simp]: "htonl (ntohl w) = w" "ntohl (htonl w) = w"
  by (simp_all add: htonl_def)

text \<open>Addresses in the order of their host value: the order in which the allocator hands them out.\<close>

definition host_addr :: "in_addr \<Rightarrow> 32 word" where
  "host_addr a = ntohl (s_addr a)"

lemma host_addr_inject: "host_addr a = host_addr b \<longleftrightarrow> a = b"
  unfolding host_addr_def by (metis in_addr.expand ntohl_ntohl)

instantiation in_addr :: linorder
begin

definition less_eq_in_addr :: "in_addr \<Rightarrow> in_addr \<Rightarrow> bool" where
  "less_eq_in_addr a b \<longleftrightarrow> host_addr a \<le> host_addr b"

definition less_in_addr :: "in_addr \<Rightarrow> in_addr \<Rightarrow> bool" where
  "less_in_addr a b \<longleftrightarrow> host_addr a < host_addr b"

instance
proof
  fix x y :: in_addr
  assume "x \<le> y" and "y \<le> x"
  then have "host_addr x = host_addr y" by (simp add: less_eq_in_addr_def)
  then show "x = y" by (simp add: host_addr_inject)
qed (auto simp: less_eq_in_addr_def less_in_addr_def)

end

text \<open>
  \<open>inet_pton (AF_INET, \<dots>)\<close>: four decimal octets without leading zeros, separated by dots.
\<close>

fun split_on :: "char \<Rightarrow> string \<Rightarrow> string list" where
  "split_on c [] = [[]]"
| "split_on c (x # xs) =
     (if x = c then [] # split_on c xs
      else case split_on c xs of [] \<Rightarrow> [[x]] | p # ps \<Rightarrow> (x # p) # ps)"

definition parse_octet :: "string \<Rightarrow> nat option" where
  "parse_octet s = (if canonical_dec s \<and> dec_val s < 256 then Some (dec_val s) else None)"

definition inet_pton :: "string \<Rightarrow> in_addr option" where
  "inet_pton s =
     (case map parse_octet (split_on CHR ''.'' s) of
        [Some a, Some b, Some c, Some d] \<Rightarrow> Some (In_addr (word_of_octets a b c d))
      | _ \<Rightarrow> None)"

definition dotted :: "in_addr \<Rightarrow> string" where
  "dotted a =
     dec_nat (octet 0 (s_addr a)) @ ''.'' @ dec_nat (octet 1 (s_addr a)) @ ''.'' @
     dec_nat (octet 2 (s_addr a)) @ ''.'' @ dec_nat (octet 3 (s_addr a))"

text \<open>\<open>inet_ntop\<close> into a buffer of \<open>cap\<close> bytes; NULL when the text and its NUL do not fit.\<close>

definition inet_ntop :: "nat \<Rightarrow> in_addr \<Rightarrow> string option" where
  "inet_ntop cap a = (if length (dotted a) < cap then Some (dotted a) else None)"

lemma split_on_ne [simp]: "split_on c s \<noteq> []"
  by (induction s) (auto split: list.split)

lemma split_on_plain: "c \<notin> set s \<Longrightarrow> split_on c s = [s]"
  by (induction s) auto

lemma split_on_append: "c \<notin> set s \<Longrightarrow> split_on c (s @ c # t) = s # split_on c t"
  by (induction s) auto

lemma split_on_eq_singleton: "split_on c s = [p] \<Longrightarrow> s = p"
proof (induction s arbitrary: p)
  case (Cons x s)
  then show ?case by (cases "split_on c s") (auto split: if_splits)
qed simp

lemma split_on_eq_Cons: "split_on c s = p # ps \<Longrightarrow> ps \<noteq> [] \<Longrightarrow> \<exists>t. s = p @ c # t \<and> split_on c t = ps"
proof (induction s arbitrary: p)
  case (Cons x s)
  then show ?case
    by (cases "split_on c s") (auto split: if_splits)
qed simp

lemma parse_octet_dec_nat [simp]: "n < 256 \<Longrightarrow> parse_octet (dec_nat n) = Some n"
  by (simp add: parse_octet_def canonical_dec_nat)

lemma parse_octet_SomeD: "parse_octet s = Some n \<Longrightarrow> n < 256 \<and> s = dec_nat n"
  by (auto simp: parse_octet_def dec_nat_of_dec_val split: if_splits)

lemma inet_pton_dotted [simp]: "inet_pton (dotted a) = Some a"
  by (cases a) (simp add: inet_pton_def dotted_def split_on_append split_on_plain
      dec_nat_no_special word_of_octets_of_word del: One_nat_def)

lemma inet_pton_SomeD:
  assumes "inet_pton s = Some a"
  shows "s = dotted a"
proof -
  obtain p q r t i j k l where
    parts: "split_on CHR ''.'' s = [p, q, r, t]"
    and oct: "parse_octet p = Some i" "parse_octet q = Some j" "parse_octet r = Some k"
      "parse_octet t = Some l"
    and a: "a = In_addr (word_of_octets i j k l)"
    using assms by (auto simp: inet_pton_def split: list.splits option.splits)
  have "s = p @ ''.'' @ q @ ''.'' @ r @ ''.'' @ t"
    using split_on_eq_Cons [OF parts]
    by (auto dest!: split_on_eq_Cons split_on_eq_singleton)
  then show ?thesis
    using oct [THEN parse_octet_SomeD] by (simp add: a dotted_def octets_of_word_of_octets del: One_nat_def)
qed

lemma dotted_len: "length (dotted a) \<le> 15"
proof -
  have "length (dec_nat (octet i w)) \<le> 3" for i w
    by (rule dec_nat_len) (simp_all add: less_trans [OF octet_less])
  from this [of 0 "s_addr a"] this [of 1 "s_addr a"] this [of 2 "s_addr a"] this [of 3 "s_addr a"]
  show ?thesis by (simp add: dotted_def)
qed

lemma inet_ntop_fits: "16 \<le> cap \<Longrightarrow> inet_ntop cap a = Some (dotted a)"
  using dotted_len [of a] by (simp add: inet_ntop_def)

lemma dotted_no_special: "CHR ''/'' \<notin> set (dotted a)" "CHR 0x00 \<notin> set (dotted a)"
  by (simp_all add: dotted_def dec_nat_no_special)

end
