(* ===== verification/Err.thy ===== *)
theory Err
  imports CLib
begin

text \<open>
  The error object of \<open>err.c\<close>: a flag, a code and two fixed-size texts that are reported to the
  container runtime. \<open>ERR\<close> and \<open>ERRF\<close> reset the whole object before they fill it, so the value
  they leave does not depend on what it held: \<open>err_of\<close> and \<open>errf_of\<close> name that value, and the
  other components store it in the caller's object.
\<close>

record Err =
  initialized :: int
  code :: int
  msg :: string
  details :: string

definition ERR_MSG_MAX_SIZE :: nat where
  "ERR_MSG_MAX_SIZE = 1024"

definition ERR_DETAILS_MAX_SIZE :: nat where
  "ERR_DETAILS_MAX_SIZE = 1024"

text \<open>
  \<open>vfmt_into\<close>: the array \<open>dst\<close> holds a C string; \<open>None\<close> is a NULL pointer. Writing NUL into
  the last byte after \<open>vsnprintf\<close> changes nothing, since the text already ends before it.
\<close>

definition vfmt_into :: "string option \<Rightarrow> nat \<Rightarrow> string option \<Rightarrow> fmt_arg list \<Rightarrow> string option" where
  "vfmt_into dst cap fmt ap =
     (case dst of
        None \<Rightarrow> None
      | Some old \<Rightarrow>
          if cap = 0 then Some old
          else (case fmt of
                  None \<Rightarrow> Some []
                | Some f \<Rightarrow> if f \<noteq> [] then Some (take (cap - 1) (snprintf cap f ap)) else Some []))"

definition zero_err :: Err where
  "zero_err = \<lparr>initialized = 0, code = 0, msg = [], details = []\<rparr>"

definition ERR_INIT :: "Err option \<Rightarrow> Err option" where
  "ERR_INIT err = (case err of None \<Rightarrow> None | Some _ \<Rightarrow> Some zero_err)"

definition fill_msg :: "string option \<Rightarrow> fmt_arg list \<Rightarrow> Err \<Rightarrow> Err" where
  "fill_msg fmt ap e =
     (case vfmt_into (Some (msg e)) ERR_MSG_MAX_SIZE fmt ap of None \<Rightarrow> e | Some s \<Rightarrow> e\<lparr>msg := s\<rparr>)"

definition fill_details :: "string option \<Rightarrow> fmt_arg list \<Rightarrow> Err \<Rightarrow> Err" where
  "fill_details fmt ap e =
     (case vfmt_into (Some (details e)) ERR_DETAILS_MAX_SIZE fmt ap of
        None \<Rightarrow> e | Some s \<Rightarrow> e\<lparr>details := s\<rparr>)"

definition ERRF :: "Err option \<Rightarrow> string option \<Rightarrow> string option \<Rightarrow> fmt_arg list \<Rightarrow> Err option" where
  "ERRF err msg_fmt details_fmt ap =
     (case ERR_INIT err of
        None \<Rightarrow> None
      | Some e \<Rightarrow>
          Some (fill_details details_fmt ap
                  (fill_msg msg_fmt ap (e\<lparr>initialized := 1, code := 100\<rparr>))))"

definition ERR :: "Err option \<Rightarrow> string option \<Rightarrow> fmt_arg list \<Rightarrow> Err option" where
  "ERR err fmt ap =
     (case ERR_INIT err of
        None \<Rightarrow> None
      | Some e \<Rightarrow> Some ((fill_msg fmt ap (e\<lparr>initialized := 1, code := 100\<rparr>))\<lparr>details := []\<rparr>))"

text \<open>The value the two calls leave in a caller's object.\<close>

definition err_of :: "string \<Rightarrow> fmt_arg list \<Rightarrow> Err" where
  "err_of fmt ap = \<lparr>initialized = 1, code = 100, msg = take 1023 (format fmt ap), details = []\<rparr>"

definition errf_of :: "string \<Rightarrow> string \<Rightarrow> fmt_arg list \<Rightarrow> Err" where
  "errf_of msg_fmt details_fmt ap =
     \<lparr>initialized = 1, code = 100, msg = take 1023 (format msg_fmt ap),
      details = take 1023 (format details_fmt ap)\<rparr>"

lemma ERR_Some: "ERR (Some e) (Some fmt) ap = Some (err_of fmt ap)"
  by (simp add: ERR_def ERR_INIT_def zero_err_def fill_msg_def vfmt_into_def snprintf_def
      err_of_def ERR_MSG_MAX_SIZE_def)

lemma ERRF_Some: "ERRF (Some e) (Some m) (Some d) ap = Some (errf_of m d ap)"
  by (simp add: ERRF_def ERR_INIT_def zero_err_def fill_msg_def fill_details_def vfmt_into_def
      snprintf_def errf_of_def ERR_MSG_MAX_SIZE_def ERR_DETAILS_MAX_SIZE_def)

text \<open>What every reported error has: the flag, the code, and texts that fit their arrays.\<close>

definition reported :: "Err \<Rightarrow> bool" where
  "reported e \<longleftrightarrow> initialized e = 1 \<and> code e = 100 \<and>
     length (msg e) < ERR_MSG_MAX_SIZE \<and> length (details e) < ERR_DETAILS_MAX_SIZE"

lemma reported_err_of [simp]: "reported (err_of fmt ap)"
  by (auto simp: reported_def err_of_def ERR_MSG_MAX_SIZE_def ERR_DETAILS_MAX_SIZE_def min_def)

lemma reported_errf_of [simp]: "reported (errf_of m d ap)"
  by (auto simp: reported_def errf_of_def ERR_MSG_MAX_SIZE_def ERR_DETAILS_MAX_SIZE_def min_def)

lemma not_reported_zero_err [simp]: "\<not> reported zero_err"
  by (simp add: reported_def zero_err_def)

lemma vfmt_into_fits: "vfmt_into (Some old) cap fmt ap = Some s \<Longrightarrow> cap \<noteq> 0 \<Longrightarrow> length s < cap"
  by (auto simp: vfmt_into_def snprintf_def split: option.splits if_splits)

section \<open>Properties\<close>

text \<open>
  C40. Whatever texts are formatted into it, a reported error is complete: the flag and the code are
  set, both texts end inside their arrays, and nothing of the object's former contents is left.
\<close>

theorem errors_complete:
  "(\<exists>e'. ERR (Some e) (Some f) ap = Some e' \<and> reported e' \<and> details e' = [] \<and>
      ERR (Some e2) (Some f) ap = Some e') \<and>
   (\<exists>e'. ERRF (Some e) (Some f) (Some g) ap = Some e' \<and> reported e' \<and>
      ERRF (Some e2) (Some f) (Some g) ap = Some e')"
  by (simp add: ERR_Some ERRF_Some err_of_def [of f ap, THEN arg_cong [where f = details]])

end
