(* ===== verification/Util.thy ===== *)
theory Util
  imports Err
begin

text \<open>
  The pure helpers of \<open>util.c\<close>: the FNV-1a hash that names the interfaces, and parsing and printing
  of \<open>address/prefix\<close> texts. An \<open>int\<close>-returning C function that fills \<open>*err\<close> and returns 1, or
  fills its out parameters and returns 0, is a sum here: \<open>Inl\<close> of the error value, or \<open>Inr\<close> of the
  out parameters.
\<close>


section \<open>The hash\<close>

definition FNV_PRIME :: "32 word" where
  "FNV_PRIME = 16777619"

definition fnv_byte :: "char \<Rightarrow> 32 word" where
  "fnv_byte c = word_of_nat (of_char c)"

definition fnv_step :: "32 word \<Rightarrow> char \<Rightarrow> 32 word" where
  "fnv_step h c = (h XOR fnv_byte c) * FNV_PRIME"

fun fnv_loop :: "32 word \<Rightarrow> string \<Rightarrow> 32 word" where
  "fnv_loop h [] = h"
| "fnv_loop h (c # s) = (if c = CHR 0x00 then h else fnv_loop (fnv_step h c) s)"

definition util_fnv1a32 :: "string \<Rightarrow> 32 word" where
  "util_fnv1a32 s = fnv_loop 2166136261 s"

lemma fnv_loop_foldl: "fnv_loop h s = foldl fnv_step h (cstr s)"
  by (induction s arbitrary: h) (auto simp: cstr_def)

text \<open>
  A hash that reads a text byte by byte and loses nothing in one step: the next state determines
  the byte when the state is known, and the state when the byte is known.
\<close>

locale byte_hash =
  fixes hstep :: "'h \<Rightarrow> char \<Rightarrow> 'h"
  assumes state_inj: "hstep h c = hstep h' c \<Longrightarrow> h = h'"
    and byte_inj: "hstep h c = hstep h d \<Longrightarrow> c = d"
begin

lemma suffix_inj: "foldl hstep h s = foldl hstep h' s \<Longrightarrow> h = h'"
  by (induction s arbitrary: h h') (auto dest: state_inj)

lemma one_byte_changes:
  assumes "foldl hstep h (a @ c # b) = foldl hstep h (a @ d # b)"
  shows "c = d"
  using assms by (auto dest!: suffix_inj byte_inj)

lemma same_byte_elsewhere:
  assumes "foldl hstep h (a @ s) = foldl hstep h' (a' @ s)"
  shows "foldl hstep h a = foldl hstep h' a'"
  using assms by (auto dest: suffix_inj)

end

lemma fnv_prime_inverse: "x * FNV_PRIME * 899433627 = x"
proof -
  have "FNV_PRIME * 899433627 = 1" by (simp add: FNV_PRIME_def)
  then show ?thesis by (simp only: mult.assoc mult_1_right)
qed

lemma fnv_prime_cancel: "x * FNV_PRIME = y * FNV_PRIME \<Longrightarrow> x = y"
  by (metis fnv_prime_inverse)

lemma fnv_byte_inj: "fnv_byte c = fnv_byte d \<Longrightarrow> c = d"
proof -
  assume eq: "fnv_byte c = fnv_byte d"
  have "(of_char x :: nat) < 2 ^ 32" for x :: char
    by (rule less_trans [OF nat_of_char_less_256]) simp
  then have "(of_char c :: nat) = of_char d"
    using eq by (simp only: fnv_byte_def word_of_nat_inject_less)
  then show "c = d" by simp
qed

interpretation fnv: byte_hash fnv_step
proof
  show "h = h'" if "fnv_step h c = fnv_step h' c" for h h' c
    using that unfolding fnv_step_def by (blast dest: fnv_prime_cancel xor_cancel)
  show "c = d" if "fnv_step h c = fnv_step h d" for h c d
  proof -
    from that have "fnv_byte c XOR h = fnv_byte d XOR h"
      unfolding fnv_step_def by (metis fnv_prime_cancel xor.commute)
    then show "c = d" by (blast dest: xor_cancel fnv_byte_inj)
  qed
qed


section \<open>CIDR texts\<close>

definition CIDR_BUFFER_LEN :: nat where
  "CIDR_BUFFER_LEN = 64"

definition INET_ADDRSTRLEN :: nat where
  "INET_ADDRSTRLEN = 16"

text \<open>Text between single quotes, as the messages print it.\<close>

definition quoted :: "string \<Rightarrow> string" where
  "quoted s = [CHR 0x27] @ s @ [CHR 0x27]"

definition util_cidr_parse :: "string \<Rightarrow> (Err + in_addr \<times> int) exec" where
  "util_cidr_parse cidr =
     exec_bind (strcpy CIDR_BUFFER_LEN cidr) (\<lambda>buffer.
       case strchr buffer CHR ''/'' of
         None \<Rightarrow>
           ret (Inl (errf_of (''util_cidr_parse: CIDR missing '' @ quoted ''/'') ''%s'' [AStr buffer]))
       | Some (ip, after_slash) \<Rightarrow>
           let prefix = atoi after_slash
           in (case inet_pton ip of
                 None \<Rightarrow>
                   ret (Inl (errf_of ''util_cidr_parse: invalid IPv4'' (quoted ''%s'') [AStr ip]))
               | Some addr \<Rightarrow> ret (Inr (addr, prefix))))"

definition util_cidr_serialize :: "in_addr \<Rightarrow> int \<Rightarrow> Err + string" where
  "util_cidr_serialize addr prefix =
     (case inet_ntop INET_ADDRSTRLEN addr of
        None \<Rightarrow> Inl (err_of ''util_cidr_serialize: inet_ntop failed'' [])
      | Some ip_only \<Rightarrow> Inr (snprintf CIDR_BUFFER_LEN ''%s/%d'' [AStr ip_only, AInt prefix]))"

text \<open>The text the two functions agree on.\<close>

definition cidr_text :: "in_addr \<Rightarrow> int \<Rightarrow> string" where
  "cidr_text a p = dotted a @ ''/'' @ dec_int p"

lemma cidr_text_len: "int_range p \<Longrightarrow> length (cidr_text a p) \<le> 27"
  using dotted_len [of a] dec_int_len [of p] by (simp add: cidr_text_def)

lemma cidr_text_no_nul: "CHR 0x00 \<notin> set (cidr_text a p)"
  by (simp add: cidr_text_def dotted_no_special dec_int_no_special)

lemma util_cidr_serialize_eq:
  assumes "int_range p"
  shows "util_cidr_serialize a p = Inr (cidr_text a p)"
  using cidr_text_len [OF assms, of a]
  by (simp add: util_cidr_serialize_def INET_ADDRSTRLEN_def inet_ntop_fits snprintf_def
      directive_def CIDR_BUFFER_LEN_def cidr_text_def)

lemma util_cidr_parse_overflow:
  "util_cidr_parse s = stuck u \<longleftrightarrow> u = BufferOverflow \<and> 64 \<le> length (cstr s)"
  by (auto simp: util_cidr_parse_def strcpy_def CIDR_BUFFER_LEN_def Let_def
      split: option.split prod.split)

lemma util_cidr_parse_returns: "util_cidr_parse s \<noteq> None"
  by (auto simp: util_cidr_parse_def strcpy_def Let_def split: option.split prod.split)

lemma util_cidr_parse_short:
  assumes "length (cstr s) < 64"
  obtains e where "util_cidr_parse s = ret (Inl e)" "reported e"
  | a p where "util_cidr_parse s = ret (Inr (a, p))" "int_range p"
  using assms that
  by (fastforce simp: util_cidr_parse_def strcpy_def CIDR_BUFFER_LEN_def Let_def
      intro: atoi_range split: option.splits prod.splits)

lemma util_cidr_parse_Inr_iff:
  "util_cidr_parse s = ret (Inr (a, p)) \<longleftrightarrow>
     length (cstr s) < 64 \<and> (\<exists>t. cstr s = dotted a @ ''/'' @ t \<and> p = atoi t)"
proof (cases "length (cstr s) < 64")
  case False
  then show ?thesis by (simp add: util_cidr_parse_def strcpy_def CIDR_BUFFER_LEN_def)
next
  case True
  have "util_cidr_parse s = ret (Inr (a, p)) \<longleftrightarrow>
      (\<exists>ip t. strchr (cstr s) CHR ''/'' = Some (ip, t) \<and> inet_pton ip = Some a \<and> p = atoi t)"
    using True by (auto simp: util_cidr_parse_def strcpy_def CIDR_BUFFER_LEN_def Let_def
        split: option.splits prod.splits)
  also have "\<dots> \<longleftrightarrow> (\<exists>t. cstr s = dotted a @ ''/'' @ t \<and> p = atoi t)"
    by (auto dest!: strchr_SomeD inet_pton_SomeD simp: strchr_append dotted_no_special)
  finally show ?thesis using True by simp
qed

lemma util_cidr_parse_text [simp]:
  "int_range p \<Longrightarrow> util_cidr_parse (cidr_text a p) = ret (Inr (a, p))"
  using cidr_text_len [of p a]
  by (auto simp: util_cidr_parse_Inr_iff cidr_text_no_nul) (simp add: cidr_text_def)

lemma util_cidr_parse_range: "util_cidr_parse s = ret (Inr (a, p)) \<Longrightarrow> int_range p"
  by (auto simp: util_cidr_parse_Inr_iff atoi_range)

lemma util_cidr_parse_reported: "util_cidr_parse s = ret (Inl e) \<Longrightarrow> reported e"
  by (auto simp: util_cidr_parse_def strcpy_def Let_def exec_bind_eq_ret
      split: if_splits option.splits prod.splits)

section \<open>Properties\<close>

text \<open>
  C33. Every address and prefix length that \<open>util_cidr_serialize\<close> prints is read back by
  \<open>util_cidr_parse\<close> as it was.
\<close>

theorem cidr_roundtrip:
  assumes "int_range p"
  shows "\<exists>s. util_cidr_serialize a p = Inr s \<and> length s < CIDR_BUFFER_LEN \<and> util_cidr_parse s = ret (Inr (a, p))"
  using cidr_text_len [OF assms, of a] assms by (simp add: util_cidr_serialize_eq CIDR_BUFFER_LEN_def)

lemma cidr_roundtrip_witness:
  "\<exists>s. util_cidr_serialize (In_addr 0x0100F40A) 24 = Inr s \<and> length s < CIDR_BUFFER_LEN \<and>
     util_cidr_parse s = ret (Inr (In_addr 0x0100F40A, 24))"
  by (rule cidr_roundtrip) (simp add: int_range_def)

text \<open>
  C34. What \<open>util_cidr_parse\<close> accepts: a text of fewer than 64 characters that is a dotted address, a
  slash and anything at all; the prefix length is what \<open>atoi\<close> makes of the rest, without any check of
  its range or of what follows the digits.
\<close>

theorem cidr_parse_accepts_iff:
  "util_cidr_parse s = ret (Inr (a, p)) \<longleftrightarrow>
     length (cstr s) < CIDR_BUFFER_LEN \<and> (\<exists>t. cstr s = dotted a @ ''/'' @ t \<and> p = atoi t)"
  by (simp add: util_cidr_parse_Inr_iff CIDR_BUFFER_LEN_def)

text \<open>
  C35. The parser copies its input into an array of 64 bytes without looking at its length: it returns
  on every shorter text, and overflows the array on every other one.
\<close>

theorem cidr_parse_overflow_iff:
  "CIDR_BUFFER_LEN \<le> length (cstr s) \<and> util_cidr_parse s = stuck BufferOverflow \<or>
   length (cstr s) < CIDR_BUFFER_LEN \<and> (\<exists>r. util_cidr_parse s = ret r)"
  by (cases "length (cstr s) < 64")
    (auto simp: util_cidr_parse_overflow CIDR_BUFFER_LEN_def elim: util_cidr_parse_short)

end
