(* ===== verification/Env.thy ===== *)
theory Env
  imports Util
begin

text \<open>
  The outside of the plugin: the system calls and the functions of libnl, libmnl, libnftnl it
  calls. Their code is not part of the repository, so what they answer is a parameter \<open>E\<close> of the
  model (\<open>env\<close>): a function from the call and an opaque outside state to a reply and the next
  outside state. The model records every call with its reply in a trace, from which the
  bookkeeping of acquired and released objects is computed.
\<close>


section \<open>Calls\<close>

text \<open>
  Kinds of objects the plugin acquires from the outside and has to give back. A pointer is a
  number, 0 being NULL; a file descriptor is its number.
\<close>

datatype res =
    RSock | RNlAddr | RAddr | RLink | RRoute | RNexthop | RFd | RFile
  | RMnl | RBatch | RTable | RChain | RRule | RExpr

type_synonym ptr = nat

type_synonym handle = "res \<times> ptr"

text \<open>Constants of the C headers, kept symbolic.\<close>

datatype cconst =
    AF_INET | RT_SCOPE_UNIVERSE | RT_TABLE_MAIN | RTPROT_STATIC | RTN_UNICAST | IFF_UP
  | NLM_F_CREATE | NLM_F_ACK | NLM_F_REPLACE | NETLINK_ROUTE | NETLINK_NETFILTER
  | MNL_SOCKET_AUTOPID | NFPROTO_IPV4 | NF_INET_POST_ROUTING | NF_IP_PRI_NAT_SRC
  | NFT_META_OIFNAME | NFT_REG_1 | NFT_CMP_EQ | NFT_PAYLOAD_NETWORK_HEADER
  | NFT_MSG_NEWTABLE | NFT_MSG_NEWCHAIN | NFT_MSG_NEWRULE

text \<open>The value a setter stores in a library object.\<close>

datatype val =
    VConst cconst
  | VInt int
  | VStr string
  | VBytes "8 word list"
  | VObj res ptr
  | VFd int

text \<open>
  The calls. \<open>CAlloc t f\<close> calls the allocation function \<open>f\<close>, \<open>CRelease t p\<close> the function that
  releases an object of kind \<open>t\<close> (\<open>nl_socket_free\<close>, \<open>rtnl_link_put\<close>, \<open>close\<close>, \<dots>), \<open>CSet t p f v\<close>
  the setter \<open>f\<close> on a local object, which has no other effect.
\<close>

datatype call =
    CAlloc res string
  | CRelease res ptr
  | CSet res ptr string val
  | COpen string
  | CSetns int
  | CGetpid
  | CSystem string
  | CIfNameToIndex string
  | CFopen string string
  | CFread ptr nat
  | CFwrite ptr string
  | CFputs ptr string
  | CFclose ptr
  | CNlConnect ptr cconst
  | CNlAddrParse string cconst
  | CAddrAdd ptr ptr "cconst list"
  | CRouteSetDst ptr ptr
  | CRouteAddNexthop ptr ptr
  | CRouteAdd ptr ptr "cconst list"
  | CLinkGetKernel ptr int "string option"
  | CLinkGetIfindex ptr
  | CLinkAdd ptr ptr "cconst list"
  | CLinkVethAdd ptr string string int
  | CLinkChange ptr ptr ptr int
  | CLinkDelete ptr ptr
  | CMnlBind ptr int cconst
  | CMnlPortid ptr
  | CMnlSendto ptr ptr
  | CMnlRecvfrom ptr
  | CMnlCbRun int nat int
  | CBatchBegin ptr nat
  | CBatchEnd ptr nat
  | CBatchNext ptr
  | CBuildHdr ptr cconst cconst "cconst list" nat
  | CBuildPayload ptr res ptr
  | CRuleAddExpr ptr ptr

text \<open>
  A reply: the integer the function returns, the pointer it returns or stores through an out
  parameter, and \<open>errno\<close>.
\<close>

record reply =
  rv :: int
  outp :: ptr
  errno :: int

text \<open>
  The outside: how it answers, and the texts of \<open>nl_geterror\<close> and \<open>strerror\<close>.
\<close>

record 'k env =
  answer :: "call \<Rightarrow> 'k \<Rightarrow> reply \<times> 'k"
  nl_geterror :: "int \<Rightarrow> string"
  strerror :: "int \<Rightarrow> string"

text \<open>
  The JSON objects whose references matter: the input, the result of the previous plugin, which is a
  part of the input, and a response. A reference to an object that is built and handed over to another
  one at once is not recorded.
\<close>

datatype json_ref = Json_input | Json_prev_result | Json_response

text \<open>
  The state of a run of the plugin: the state of the outside, the contents of files the plugin
  reads and writes through stdio (a path without a file maps to \<open>None\<close>), the error object of the
  running command, the lines printed to standard output, the references to JSON objects the plugin
  owns (\<open>None\<close> after it gave away one it does not own), and the trace of calls, oldest first.
  Messages to standard error are not modelled.
\<close>

record 'k world =
  kern :: 'k
  files :: "string \<Rightarrow> string option"
  err :: Err
  out :: "string list"
  json_refs :: "json_ref multiset option"
  trace :: "(call \<times> reply) list"

definition ext :: "'k env \<Rightarrow> call \<Rightarrow> 'k world \<Rightarrow> reply \<times> 'k world" where
  "ext E c w =
     (let (r, k) = answer E c (kern w)
      in (r, w\<lparr>kern := k, trace := trace w @ [(c, r)]\<rparr>))"

text \<open>Calls whose answer the code ignores.\<close>

definition run :: "'k env \<Rightarrow> call \<Rightarrow> 'k world \<Rightarrow> 'k world" where
  "run E c w = snd (ext E c w)"

text \<open>\<open>if (p) release(p);\<close>\<close>

definition release_if :: "'k env \<Rightarrow> res \<Rightarrow> ptr \<Rightarrow> 'k world \<Rightarrow> 'k world" where
  "release_if E t p w = (if p \<noteq> 0 then run E (CRelease t p) w else w)"

text \<open>
  What libnl documents for functions with an out parameter: when they succeed, the out parameter
  is an object, hence not NULL.
\<close>

fun fills_out_param :: "call \<Rightarrow> bool" where
  "fills_out_param (CNlAddrParse s f) = True"
| "fills_out_param (CLinkGetKernel sk i n) = True"
| "fills_out_param c = False"

definition out_params_filled :: "'k env \<Rightarrow> bool" where
  "out_params_filled E \<longleftrightarrow>
     (\<forall>c k. fills_out_param c \<longrightarrow> 0 \<le> rv (fst (answer E c k)) \<longrightarrow> outp (fst (answer E c k)) \<noteq> 0)"


section \<open>Objects held\<close>

text \<open>
  What a call needs, gives up (releases or hands over to another object) and acquires.
\<close>

fun val_needs :: "val \<Rightarrow> handle list" where
  "val_needs (VObj t p) = [(t, p)]"
| "val_needs (VFd fd) = [(RFd, nat fd)]"
| "val_needs v = []"

fun needs :: "call \<Rightarrow> handle list" where
  "needs (CSet t p f v) = (t, p) # val_needs v"
| "needs (CSetns fd) = [(RFd, nat fd)]"
| "needs (CFread p n) = [(RFile, p)]"
| "needs (CFwrite p s) = [(RFile, p)]"
| "needs (CFputs p s) = [(RFile, p)]"
| "needs (CNlConnect sk pr) = [(RSock, sk)]"
| "needs (CAddrAdd sk a fl) = [(RSock, sk), (RAddr, a)]"
| "needs (CRouteSetDst r a) = [(RRoute, r), (RNlAddr, a)]"
| "needs (CRouteAddNexthop r n) = [(RRoute, r)]"
| "needs (CRouteAdd sk r fl) = [(RSock, sk), (RRoute, r)]"
| "needs (CLinkGetKernel sk i n) = [(RSock, sk)]"
| "needs (CLinkGetIfindex l) = [(RLink, l)]"
| "needs (CLinkAdd sk l fl) = [(RSock, sk), (RLink, l)]"
| "needs (CLinkVethAdd sk a b pid) = [(RSock, sk)]"
| "needs (CLinkChange sk l ch fl) = [(RSock, sk), (RLink, l), (RLink, ch)]"
| "needs (CLinkDelete sk l) = [(RSock, sk), (RLink, l)]"
| "needs (CMnlBind sk g p) = [(RMnl, sk)]"
| "needs (CMnlPortid sk) = [(RMnl, sk)]"
| "needs (CMnlSendto sk b) = [(RMnl, sk), (RBatch, b)]"
| "needs (CMnlRecvfrom sk) = [(RMnl, sk)]"
| "needs (CBatchBegin b q) = [(RBatch, b)]"
| "needs (CBatchEnd b q) = [(RBatch, b)]"
| "needs (CBatchNext b) = [(RBatch, b)]"
| "needs (CBuildHdr b m f fl q) = [(RBatch, b)]"
| "needs (CBuildPayload b t p) = [(RBatch, b), (t, p)]"
| "needs (CRuleAddExpr r e) = [(RRule, r)]"
| "needs c = []"

fun gives_up :: "call \<Rightarrow> handle list" where
  "gives_up (CRelease t p) = [(t, p)]"
| "gives_up (CFclose p) = [(RFile, p)]"
| "gives_up (CRouteAddNexthop r n) = [(RNexthop, n)]"
| "gives_up (CRuleAddExpr r e) = [(RExpr, e)]"
| "gives_up c = []"

fun acquires :: "call \<Rightarrow> reply \<Rightarrow> handle list" where
  "acquires (CAlloc t f) r = (if outp r \<noteq> 0 then [(t, outp r)] else [])"
| "acquires (COpen path) r = (if 0 \<le> rv r then [(RFd, nat (rv r))] else [])"
| "acquires (CFopen path m) r = (if outp r \<noteq> 0 then [(RFile, outp r)] else [])"
| "acquires (CNlAddrParse s f) r = (if 0 \<le> rv r then [(RNlAddr, outp r)] else [])"
| "acquires (CLinkGetKernel sk i n) r = (if 0 \<le> rv r then [(RLink, outp r)] else [])"
| "acquires c r = []"

text \<open>
  One call on the objects held: \<open>None\<close> when the call uses or gives up an object that is not held
  (a use after release, a double release, a NULL argument).
\<close>

definition hstep :: "call \<times> reply \<Rightarrow> handle multiset \<Rightarrow> handle multiset option" where
  "hstep e H =
     (if (\<forall>h \<in> set (needs (fst e) @ gives_up (fst e)). h \<in># H)
      then Some (H - mset (gives_up (fst e)) + mset (acquires (fst e) (snd e)))
      else None)"

definition held :: "'k world \<Rightarrow> handle multiset option" where
  "held w = foldl (\<lambda>o' e. Option.bind o' (hstep e)) (Some {#}) (trace w)"

lemma held_update [simp]:
  "held (w\<lparr>err := e\<rparr>) = held w"
  "held (w\<lparr>files := f\<rparr>) = held w"
  "held (w\<lparr>out := l\<rparr>) = held w"
  "held (w\<lparr>json_refs := j\<rparr>) = held w"
  by (simp_all add: held_def)

lemma held_snoc: "trace w' = trace w @ [e] \<Longrightarrow> held w' = Option.bind (held w) (hstep e)"
  by (simp add: held_def)


section \<open>The network namespace\<close>

text \<open>
  The namespace the thread is in, and the one each file descriptor opened so far refers to, both
  computed from the trace: a descriptor of \<open>/proc/self/ns/net\<close> refers to the namespace the thread is
  in when it is opened, any other to the one its path names; \<open>setns\<close> moves the thread when it
  returns 0.
\<close>

datatype netns = Initial_ns | Ns_at string

type_synonym ns_state = "netns \<times> (int \<Rightarrow> netns option)"

definition ns_step :: "ns_state \<Rightarrow> call \<times> reply \<Rightarrow> ns_state" where
  "ns_step s e =
     (case fst e of
        COpen path \<Rightarrow>
          if 0 \<le> rv (snd e)
          then (fst s, (snd s)(rv (snd e) \<mapsto> (if path = ''/proc/self/ns/net'' then fst s else Ns_at path)))
          else s
      | CSetns fd \<Rightarrow>
          if rv (snd e) = 0 then (case snd s fd of None \<Rightarrow> s | Some n \<Rightarrow> (n, snd s)) else s
      | _ \<Rightarrow> s)"

abbreviation namespaces :: "'k world \<Rightarrow> ns_state" where
  "namespaces w \<equiv> foldl ns_step (Initial_ns, \<lambda>fd. None) (trace w)"

abbreviation netns :: "'k world \<Rightarrow> netns" where
  "netns w \<equiv> fst (namespaces w)"


section \<open>Walking through calls\<close>

text \<open>
  \<open>after E c w r w'\<close>: what is known of the reply \<open>r\<close> and the state \<open>w'\<close> after the call \<open>c\<close>.
\<close>

definition after :: "call \<Rightarrow> 'k world \<Rightarrow> reply \<Rightarrow> 'k world \<Rightarrow> bool" where
  "after c w r w' \<longleftrightarrow>
     trace w' = trace w @ [(c, r)] \<and> files w' = files w \<and> err w' = err w \<and> out w' = out w \<and>
     json_refs w' = json_refs w"

lemma after_ext: "ext E c w = (r, w') \<Longrightarrow> after c w r w'"
  by (auto simp: ext_def after_def split: prod.splits)

lemma out_params_filledD:
  "out_params_filled E \<Longrightarrow> ext E c w = (r, w') \<Longrightarrow> fills_out_param c \<Longrightarrow> 0 \<le> rv r \<Longrightarrow> outp r \<noteq> 0"
  by (auto simp: ext_def out_params_filled_def split: prod.splits) (metis fst_conv)

lemma held_after:
  "after c w r w' \<Longrightarrow> held w = Some H \<Longrightarrow> \<forall>h \<in> set (needs c @ gives_up c). h \<in># H \<Longrightarrow>
     held w' = Some (H - mset (gives_up c) + mset (acquires c r))"
  by (simp add: after_def held_snoc hstep_def)

text \<open>
  The walking rule for one call: the objects it needs are held, and the walk goes on in a state
  of which only the listed facts are known.
\<close>

lemma wp_ext:
  assumes "held w = Some H" "\<forall>h \<in> set (needs c @ gives_up c). h \<in># H"
    and "\<And>r w'. held w' = Some (H - mset (gives_up c) + mset (acquires c r)) \<Longrightarrow>
      trace w' = trace w @ [(c, r)] \<Longrightarrow> files w' = files w \<Longrightarrow> err w' = err w \<Longrightarrow> out w' = out w \<Longrightarrow>
      (out_params_filled E \<longrightarrow> fills_out_param c \<longrightarrow> 0 \<le> rv r \<longrightarrow> 0 < outp r) \<Longrightarrow> wp U (f r w') Q"
  shows "wp U (case ext E c w of (r, w') \<Rightarrow> f r w') Q"
proof (cases "ext E c w")
  case (Pair r w')
  then have a: "after c w r w'" by (rule after_ext)
  have "wp U (f r w') Q"
  proof (rule assms(3))
    show "held w' = Some (H - mset (gives_up c) + mset (acquires c r))"
      by (rule held_after [OF a assms(1,2)])
    show "out_params_filled E \<longrightarrow> fills_out_param c \<longrightarrow> 0 \<le> rv r \<longrightarrow> 0 < outp r"
      using out_params_filledD [OF _ Pair] by auto
  qed (use a in \<open>simp_all add: after_def\<close>)
  then show ?thesis by (simp add: Pair)
qed

lemma wp_ext_let:
  assumes "held w = Some H" "\<forall>h \<in> set (needs c @ gives_up c). h \<in># H"
    and "\<And>r w'. held w' = Some (H - mset (gives_up c) + mset (acquires c r)) \<Longrightarrow>
      trace w' = trace w @ [(c, r)] \<Longrightarrow> files w' = files w \<Longrightarrow> err w' = err w \<Longrightarrow> out w' = out w \<Longrightarrow>
      (out_params_filled E \<longrightarrow> fills_out_param c \<longrightarrow> 0 \<le> rv r \<longrightarrow> 0 < outp r) \<Longrightarrow> wp U (f r w') Q"
  shows "wp U (let (r, w') = ext E c w in f r w') Q"
  unfolding Let_def by (rule wp_ext [OF assms])

lemma wp_run_let:
  assumes "held w = Some H" "\<forall>h \<in> set (needs c @ gives_up c). h \<in># H"
    and "\<And>r w'. held w' = Some (H - mset (gives_up c) + mset (acquires c r)) \<Longrightarrow>
      trace w' = trace w @ [(c, r)] \<Longrightarrow> files w' = files w \<Longrightarrow> err w' = err w \<Longrightarrow> out w' = out w \<Longrightarrow>
      wp U (f w') Q"
  shows "wp U (let w' = run E c w in f w') Q"
  using wp_ext [OF assms(1,2), of E U "\<lambda>r. f" Q] assms(3)
  by (simp add: run_def case_prod_beta)

lemma wp_release_if_let:
  assumes "held w = Some H" "p \<noteq> 0 \<Longrightarrow> (t, p) \<in># H"
    and "\<And>w'. held w' = Some (if p = 0 then H else H - {#(t, p)#}) \<Longrightarrow>
      (\<exists>r. trace w' = trace w @ (if p = 0 then [] else [(CRelease t p, r)])) \<Longrightarrow>
      files w' = files w \<Longrightarrow> err w' = err w \<Longrightarrow> out w' = out w \<Longrightarrow> wp U (f w') Q"
  shows "wp U (let w' = release_if E t p w in f w') Q"
proof (cases "p = 0")
  case True
  then show ?thesis using assms(3) [of w] assms(1) by (simp add: release_if_def)
next
  case False
  then show ?thesis
    using wp_run_let [of w H "CRelease t p" U f Q E] assms by (simp add: release_if_def)
qed


text \<open>\<open>*err\<close> is overwritten by \<open>ERR\<close> or \<open>ERRF\<close>.\<close>

definition set_err :: "Err \<Rightarrow> 'k world \<Rightarrow> 'k world" where
  "set_err e w = w\<lparr>err := e\<rparr>"

lemma set_err_simps [simp, state_simps]:
  "held (set_err e w) = held w" "trace (set_err e w) = trace w" "files (set_err e w) = files w"
  "out (set_err e w) = out w" "err (set_err e w) = e" "kern (set_err e w) = kern w"
  "json_refs (set_err e w) = json_refs w"
  by (simp_all add: set_err_def)

text \<open>A text that does not fit the array of \<open>util_cidr_parse\<close> overflows it.\<close>

definition too_long :: "string list \<Rightarrow> ub option \<Rightarrow> bool" where
  "too_long ss u \<longleftrightarrow> u = Some BufferOverflow \<and> (\<exists>s \<in> set ss. 64 \<le> length (cstr s))"

lemma wp_cidr_parse:
  assumes "64 \<le> length (cstr s) \<Longrightarrow> U (Some BufferOverflow)"
    and "\<And>e. reported e \<Longrightarrow> wp U (f (Inl e)) Q"
    and "\<And>a p. util_cidr_parse s = ret (Inr (a, p)) \<Longrightarrow> int_range p \<Longrightarrow> wp U (f (Inr (a, p))) Q"
  shows "wp U (exec_bind (util_cidr_parse s) f) Q"
proof (cases "length (cstr s) < 64")
  case True
  then show ?thesis
    by (cases rule: util_cidr_parse_short [of s]) (simp_all add: assms)
next
  case False
  then have "util_cidr_parse s = stuck BufferOverflow"
    by (simp add: util_cidr_parse_overflow)
  with False show ?thesis by (simp add: wp_stuck assms(1))
qed

text \<open>
  Variants of the rule for the common classes of calls, with the objects held afterwards written
  out: a call that acquires and gives up nothing, an allocation, and a call with an out parameter.
\<close>

lemma wp_neutral_let:
  assumes "held w = Some H" "\<forall>h \<in> set (needs c). h \<in># H" "gives_up c = []" "\<And>r. acquires c r = []"
    and "\<And>r w'. held w' = Some H \<Longrightarrow> trace w' = trace w @ [(c, r)] \<Longrightarrow> files w' = files w \<Longrightarrow>
      err w' = err w \<Longrightarrow> out w' = out w \<Longrightarrow> wp U (f r w') Q"
  shows "wp U (let (r, w') = ext E c w in f r w') Q"
  by (rule wp_ext_let [OF assms(1)]) (use assms in auto)

lemma wp_set_let:
  assumes "held w = Some H" "(t, p) \<in># H" "\<forall>h \<in> set (val_needs v). h \<in># H"
    and "\<And>r w'. held w' = Some H \<Longrightarrow> trace w' = trace w @ [(CSet t p g v, r)] \<Longrightarrow> files w' = files w \<Longrightarrow>
      err w' = err w \<Longrightarrow> out w' = out w \<Longrightarrow> wp U (f w') Q"
  shows "wp U (let w' = run E (CSet t p g v) w in f w') Q"
  by (rule wp_run_let [OF assms(1)]) (use assms in auto)

lemma wp_alloc_let:
  assumes "held w = Some H"
    and "\<And>r w'. outp r = 0 \<Longrightarrow> held w' = Some H \<Longrightarrow> trace w' = trace w @ [(CAlloc t g, r)] \<Longrightarrow>
      files w' = files w \<Longrightarrow> err w' = err w \<Longrightarrow> out w' = out w \<Longrightarrow> wp U (y r 0 w') Q"
    and "\<And>r p w'. outp r = p \<Longrightarrow> 0 < p \<Longrightarrow> held w' = Some (add_mset (t, p) H) \<Longrightarrow>
      trace w' = trace w @ [(CAlloc t g, r)] \<Longrightarrow>
      files w' = files w \<Longrightarrow> err w' = err w \<Longrightarrow> out w' = out w \<Longrightarrow> wp U (z r p w') Q"
  shows "wp U (let (r, w') = ext E (CAlloc t g) w; p = outp r in if p = 0 then y r p w' else z r p w') Q"
  unfolding Let_def by (rule wp_ext [OF assms(1)]) (use assms in auto)

lemma wp_get_let:
  assumes "held w = Some H" "\<forall>h \<in> set (needs c). h \<in># H" "gives_up c = []"
    "fills_out_param c" "out_params_filled E" "\<And>r. acquires c r = (if 0 \<le> rv r then [(t, outp r)] else [])"
    and "\<And>r w'. rv r < 0 \<Longrightarrow> held w' = Some H \<Longrightarrow> trace w' = trace w @ [(c, r)] \<Longrightarrow>
      files w' = files w \<Longrightarrow> err w' = err w \<Longrightarrow> out w' = out w \<Longrightarrow> wp U (y r w') Q"
    and "\<And>r p w'. 0 \<le> rv r \<Longrightarrow> outp r = p \<Longrightarrow> 0 < p \<Longrightarrow> held w' = Some (add_mset (t, p) H) \<Longrightarrow>
      trace w' = trace w @ [(c, r)] \<Longrightarrow>
      files w' = files w \<Longrightarrow> err w' = err w \<Longrightarrow> out w' = out w \<Longrightarrow> wp U (z r p w') Q"
  shows "wp U (let (r, w') = ext E c w in if rv r < 0 then y r w' else Let (outp r) (\<lambda>p. z r p w')) Q"
  unfolding Let_def by (rule wp_ext [OF assms(1)]) (use assms in auto)

lemma wp_release_null_let: "wp U (f w) Q \<Longrightarrow> wp U (let w' = release_if E t 0 w in f w') Q"
  by (simp add: release_if_def)

lemma wp_release_let:
  assumes "0 < p" "held w = Some H" "(t, p) \<in># H"
    and "\<And>r w'. held w' = Some (H - {#(t, p)#}) \<Longrightarrow> trace w' = trace w @ [(CRelease t p, r)] \<Longrightarrow>
      files w' = files w \<Longrightarrow> err w' = err w \<Longrightarrow> out w' = out w \<Longrightarrow> wp U (f w') Q"
  shows "wp U (let w' = release_if E t p w in f w') Q"
  using wp_run_let [OF assms(2), of "CRelease t p" U f Q E] assms by (simp add: release_if_def)

text \<open>
  The order matters: the special rules go before the general ones. A walk alternates these rules
  with \<open>simp (no_asm_simp)\<close>, which reads the facts about the states but does not rewrite them.
\<close>

lemmas walk = wp_alloc_let wp_get_let wp_neutral_let wp_ext_let wp_set_let wp_run_let
  wp_release_null_let wp_release_let wp_cidr_parse wp_ret wp_stuck
  wp_if_ok wp_if_failed wp_if_minus wp_if wp_case_Inl wp_case_Inr wp_case_Some wp_case_None wp_case_Pair
  wp_case_option wp_case_sum wp_case_prod wp_let


section \<open>References to JSON objects\<close>

text \<open>
  json-c counts references. A function that makes an object gives the caller one reference to it;
  \<open>json_object_put\<close> gives a reference up, and so does \<open>json_object_object_add\<close> for the value added,
  which is the container's from then on. Giving away a reference one does not own frees the object
  under its owner.
\<close>

definition json_owned :: "json_ref \<Rightarrow> 'k world \<Rightarrow> 'k world" where
  "json_owned x w = w\<lparr>json_refs := map_option (add_mset x) (json_refs w)\<rparr>"

definition json_given :: "json_ref \<Rightarrow> 'k world \<Rightarrow> 'k world" where
  "json_given x w = w\<lparr>json_refs := (case json_refs w of
       None \<Rightarrow> None
     | Some M \<Rightarrow> if x \<in># M then Some (M - {#x#}) else None)\<rparr>"

lemma json_ref_simps [simp]:
  "held (json_owned x w) = held w" "trace (json_owned x w) = trace w" "files (json_owned x w) = files w"
  "out (json_owned x w) = out w" "err (json_owned x w) = err w" "kern (json_owned x w) = kern w"
  "held (json_given x w) = held w" "trace (json_given x w) = trace w" "files (json_given x w) = files w"
  "out (json_given x w) = out w" "err (json_given x w) = err w" "kern (json_given x w) = kern w"
  "json_refs (json_owned x w) = map_option (add_mset x) (json_refs w)"
  "json_refs (json_given x w) = (case json_refs w of
       None \<Rightarrow> None | Some M \<Rightarrow> if x \<in># M then Some (M - {#x#}) else None)"
  by (simp_all add: json_owned_def json_given_def held_def)

lemma json_given_owned [simp]: "json_given x (json_owned x w) = w"
  by (simp add: json_owned_def json_given_def split: option.split)


section \<open>The contract of an operation\<close>

text \<open>
  Most operations take the state and return a C return code with the new state. Their contract:
  the code is 0 and the error object is untouched, or it is 1 and an error is reported; every
  object acquired is given back, none is used after it was given back or given back twice; and
  neither the files nor the output are touched. \<open>lib\<close> is what the operation relies on from the
  libraries, \<open>need\<close> the objects of its caller it uses, \<open>may\<close> the undefined behaviour it does not
  exclude.
\<close>

type_synonym 'k op = "'k world \<Rightarrow> (int \<times> 'k world) exec"

definition clean :: "'k world \<Rightarrow> handle multiset \<Rightarrow> int \<times> 'k world \<Rightarrow> bool" where
  "clean w H res \<longleftrightarrow>
     held (snd res) = Some H \<and> files (snd res) = files w \<and> out (snd res) = out w \<and>
     (fst res = 0 \<and> err (snd res) = err w \<or> fst res = 1 \<and> reported (err (snd res)))"

lemma clean_Pair [simp]:
  "clean w H (rc, w') \<longleftrightarrow>
     held w' = Some H \<and> files w' = files w \<and> out w' = out w \<and>
     (rc = 0 \<and> err w' = err w \<or> rc = 1 \<and> reported (err w'))"
  by (simp add: clean_def)

locale operation =
  fixes oper :: "'k op" and lib :: bool and need :: "handle multiset" and may :: "ub option \<Rightarrow> bool"
  assumes contract: "lib \<Longrightarrow> held w = Some H \<Longrightarrow> need \<subseteq># H \<Longrightarrow> wp may (oper w) (clean w H)"
begin

lemma call:
  assumes "lib" "held w = Some H" "need \<subseteq># H" "\<And>u. may u \<Longrightarrow> U u"
    and "\<And>w'. held w' = Some H \<Longrightarrow> files w' = files w \<Longrightarrow> out w' = out w \<Longrightarrow>
      err w' = err w \<Longrightarrow> wp U (f 0 w') Q"
    and "\<And>w'. held w' = Some H \<Longrightarrow> files w' = files w \<Longrightarrow> out w' = out w \<Longrightarrow>
      reported (err w') \<Longrightarrow> wp U (f 1 w') Q"
  shows "wp U (exec_bind (oper w) (\<lambda>(rc, w'). f rc w')) Q"
  by (rule wp_bind, rule wp_mono, rule wp_mono_ub, rule contract)
     (use assms in \<open>auto simp: clean_def\<close>)

lemma returned:
  assumes "lib" "held w = Some H" "need \<subseteq># H" "oper w = ret (rc, w')"
  shows "clean w H (rc, w')"
  using wp_retD [OF contract [OF assms(1-3)] assms(4)] .

lemma failure_reported:
  assumes "lib" "held w = Some H" "need \<subseteq># H" "oper w = ret (rc, w')" "rc \<noteq> 0"
  shows "rc = 1 \<and> reported (err w')"
  using returned [OF assms(1-4)] assms(5) by (simp add: clean_def)

lemma returns:
  assumes "lib" "held w = Some H" "need \<subseteq># H" "\<And>u. \<not> may u"
  shows "\<exists>rc w'. oper w = ret (rc, w') \<and> clean w H (rc, w')"
proof -
  have "wp never (oper w) (clean w H)"
    by (rule wp_mono_ub [OF contract [OF assms(1-3)]]) (use assms(4) in auto)
  then show ?thesis by (auto simp: wp_never)
qed

end

text \<open>
  Two stronger contracts concern the network namespace: a local operation neither changes the
  namespace nor opens one, a homing operation is back in the caller's when it succeeds.
\<close>

locale homing_operation = operation +
  assumes homing: "lib \<Longrightarrow> held w = Some H \<Longrightarrow> need \<subseteq># H \<Longrightarrow>
      wp may (oper w) (\<lambda>(rc, w'). rc = 0 \<longrightarrow> netns w' = netns w)"
begin

lemma call_homing:
  assumes "lib" "held w = Some H" "need \<subseteq># H" "\<And>u. may u \<Longrightarrow> U u"
    and "\<And>w'. held w' = Some H \<Longrightarrow> files w' = files w \<Longrightarrow> out w' = out w \<Longrightarrow>
      err w' = err w \<Longrightarrow> netns w' = netns w \<Longrightarrow> wp U (f 0 w') Q"
    and "\<And>w'. held w' = Some H \<Longrightarrow> files w' = files w \<Longrightarrow> out w' = out w \<Longrightarrow>
      reported (err w') \<Longrightarrow> wp U (f 1 w') Q"
  shows "wp U (exec_bind (oper w) (\<lambda>(rc, w'). f rc w')) Q"
  by (rule wp_bind, rule wp_mono, rule wp_mono_ub, rule wp_conj, rule contract, rule assms(1),
      rule assms(2), rule assms(3), rule homing)
     (use assms in \<open>auto simp: clean_def\<close>)

end

locale local_operation = operation +
  assumes stays: "lib \<Longrightarrow> held w = Some H \<Longrightarrow> need \<subseteq># H \<Longrightarrow>
      wp may (oper w) (\<lambda>(rc, w'). namespaces w' = namespaces w)"
begin

lemma call_local:
  assumes "lib" "held w = Some H" "need \<subseteq># H" "\<And>u. may u \<Longrightarrow> U u"
    and "\<And>w'. held w' = Some H \<Longrightarrow> files w' = files w \<Longrightarrow> out w' = out w \<Longrightarrow>
      err w' = err w \<Longrightarrow> namespaces w' = namespaces w \<Longrightarrow> wp U (f 0 w') Q"
    and "\<And>w'. held w' = Some H \<Longrightarrow> files w' = files w \<Longrightarrow> out w' = out w \<Longrightarrow>
      reported (err w') \<Longrightarrow> namespaces w' = namespaces w \<Longrightarrow> wp U (f 1 w') Q"
  shows "wp U (exec_bind (oper w) (\<lambda>(rc, w'). f rc w')) Q"
  by (rule wp_bind, rule wp_mono, rule wp_mono_ub, rule wp_conj, rule contract, rule assms(1),
      rule assms(2), rule assms(3), rule stays)
     (use assms in \<open>auto simp: clean_def\<close>)

end

sublocale local_operation \<subseteq> homing: homing_operation oper lib need may
  by unfold_locales (rule wp_mono [OF stays], auto)

text \<open>How the contracts are shown: by a walk through the body.\<close>

definition clean_local :: "'k world \<Rightarrow> handle multiset \<Rightarrow> int \<times> 'k world \<Rightarrow> bool" where
  "clean_local w H res \<longleftrightarrow> clean w H res \<and> namespaces (snd res) = namespaces w"

lemma clean_local_Pair [simp]:
  "clean_local w H (rc, w') \<longleftrightarrow> clean w H (rc, w') \<and> namespaces w' = namespaces w"
  by (simp add: clean_local_def)

lemma operation_weaken:
  assumes "\<And>w H. lib \<Longrightarrow> held w = Some H \<Longrightarrow> need \<subseteq># H \<Longrightarrow> wp may (oper w) (clean_local w H)"
  shows "local_operation oper lib need may"
  by unfold_locales (rule wp_mono [OF assms], assumption+, force simp: clean_local_def)+

lemma local_operation_on_socket:
  assumes "\<And>w H. lib \<Longrightarrow> held w = Some H \<Longrightarrow> (t, sk) \<in># H \<Longrightarrow> wp may (oper w) (clean_local w H)"
  shows "local_operation oper lib {#(t, sk)#} may"
  by (rule operation_weaken, rule assms) simp_all

lemma local_operation_alone:
  assumes "\<And>w H. lib \<Longrightarrow> held w = Some H \<Longrightarrow> wp may (oper w) (clean_local w H)"
  shows "local_operation oper lib {#} may"
  by (rule operation_weaken, rule assms) simp_all

lemma local_operation_on_two:
  assumes "\<And>w H. lib \<Longrightarrow> held w = Some H \<Longrightarrow> h1 \<in># H \<Longrightarrow> h2 \<in># H \<Longrightarrow> wp may (oper w) (clean_local w H)"
  shows "local_operation oper lib {#h1, h2#} may"
  by (rule operation_weaken, rule assms) (auto dest: mset_subset_eqD)

lemma homing_operation_on_two:
  assumes "\<And>w H. lib \<Longrightarrow> held w = Some H \<Longrightarrow> h1 \<in># H \<Longrightarrow> h2 \<in># H \<Longrightarrow>
    wp may (oper w) (\<lambda>(rc, w'). clean w H (rc, w') \<and> (rc = 0 \<longrightarrow> netns w' = netns w))"
  shows "homing_operation oper lib {#h1, h2#} may"
  by unfold_locales (rule wp_mono [OF assms], assumption, assumption, (auto dest: mset_subset_eqD)[2], force)+

lemma homing_operation_alone:
  assumes "\<And>w H. lib \<Longrightarrow> held w = Some H \<Longrightarrow>
    wp may (oper w) (\<lambda>(rc, w'). clean w H (rc, w') \<and> (rc = 0 \<longrightarrow> netns w' = netns w))"
  shows "homing_operation oper lib {#} may"
  by unfold_locales (rule wp_mono [OF assms], assumption, assumption, force)+

end
