(* ===== verification/Net_Utils.thy ===== *)
theory Net_Utils
  imports Env
begin

text \<open>
  The netlink helpers of \<open>net_utils.c\<close>. Every helper takes the state of the run and returns the C
  return code with the new state; an error is stored in the state's error object. The code at a
  label \<open>out\<close> is a definition of its own (\<open>\<dots>_out\<close>) that takes the pointers it releases; the
  pointer variables are initialised to NULL before the first jump to the label, so a path passes 0
  for a pointer it has not set yet.
\<close>


section \<open>nu_rtnl_addr_build\<close>

text \<open>The result carries the out parameter: the address object, or 0 when it is left alone.\<close>

definition nu_rtnl_addr_build_out ::
  "'k env \<Rightarrow> ptr \<Rightarrow> ptr \<Rightarrow> int \<Rightarrow> ptr \<Rightarrow> 'k world \<Rightarrow> (int \<times> ptr \<times> 'k world) exec" where
  "nu_rtnl_addr_build_out E local raddr rc outv w =
     (let w = release_if E RNlAddr local w;
          w = release_if E RAddr raddr w
      in ret (rc, outv, w))"

definition nu_rtnl_addr_build ::
  "'k env \<Rightarrow> string \<Rightarrow> int \<Rightarrow> 'k world \<Rightarrow> (int \<times> ptr \<times> 'k world) exec" where
  "nu_rtnl_addr_build E cidr ifidx w =
     exec_bind (util_cidr_parse cidr) (\<lambda>parsed.
       case parsed of
         Inl e \<Rightarrow> nu_rtnl_addr_build_out E 0 0 1 0 (set_err e w)
       | Inr (addr, prefix) \<Rightarrow>
           (case inet_ntop INET_ADDRSTRLEN addr of
              None \<Rightarrow> nu_rtnl_addr_build_out E 0 0 1 0 (set_err (err_of ''inet_ntop failed'' []) w)
            | Some ip_only \<Rightarrow>
                let (r, w) = ext E (CNlAddrParse ip_only AF_INET) w in
                if rv r < 0 then
                  nu_rtnl_addr_build_out E 0 0 1 0
                    (set_err (errf_of ''Nl_addr_parse failed'' ''%s: %s''
                                [AStr ip_only, AStr (nl_geterror E (rv r))]) w)
                else
                  let local = outp r;
                      w = run E (CSet RNlAddr local ''nl_addr_set_prefixlen'' (VInt prefix)) w;
                      (r, w) = ext E (CAlloc RAddr ''rtnl_addr_alloc'') w;
                      raddr = outp r
                  in
                  if raddr = 0 then
                    nu_rtnl_addr_build_out E local 0 1 0
                      (set_err (err_of ''Rtnl_addr_alloc failed'' []) w)
                  else
                    let w = run E (CSet RAddr raddr ''rtnl_addr_set_family'' (VConst AF_INET)) w;
                        w = run E (CSet RAddr raddr ''rtnl_addr_set_scope'' (VConst RT_SCOPE_UNIVERSE)) w;
                        w = run E (CSet RAddr raddr ''rtnl_addr_set_local'' (VObj RNlAddr local)) w;
                        w = run E (CSet RAddr raddr ''rtnl_addr_set_ifindex'' (VInt ifidx)) w
                    in nu_rtnl_addr_build_out E local 0 0 raddr w))"

text \<open>On success the caller owns a new address object, on failure nothing is left behind.\<close>

lemma wp_nu_rtnl_addr_build:
  assumes "out_params_filled E" "held w = Some H" "64 \<le> length (cstr cidr) \<Longrightarrow> U (Some BufferOverflow)"
    and ok: "\<And>p w'. p \<noteq> 0 \<Longrightarrow> held w' = Some (add_mset (RAddr, p) H) \<Longrightarrow> files w' = files w \<Longrightarrow>
      out w' = out w \<Longrightarrow> err w' = err w \<Longrightarrow> namespaces w' = namespaces w \<Longrightarrow> wp U (f 0 p w') Q"
    and fail: "\<And>w'. held w' = Some H \<Longrightarrow> files w' = files w \<Longrightarrow> out w' = out w \<Longrightarrow>
      reported (err w') \<Longrightarrow> namespaces w' = namespaces w \<Longrightarrow> wp U (f 1 0 w') Q"
  shows "wp U (exec_bind (nu_rtnl_addr_build E cidr ifidx w) (\<lambda>(rc, p, w'). f rc p w')) Q"
  apply (rule wp_bind)
  unfolding nu_rtnl_addr_build_def nu_rtnl_addr_build_out_def
  using assms(1-3)
  apply -
  by (rule walk ok fail | simp (no_asm_simp) add: ns_step_def)+


section \<open>nu_add_routing_rule\<close>

definition nu_add_routing_rule_out ::
  "'k env \<Rightarrow> ptr \<Rightarrow> ptr \<Rightarrow> ptr \<Rightarrow> ptr \<Rightarrow> int \<Rightarrow> 'k op" where
  "nu_add_routing_rule_out E nh route nl_addr_cidr nl_addr_next_ip rc w =
     (let w = release_if E RNexthop nh w;
          w = release_if E RRoute route w;
          w = release_if E RNlAddr nl_addr_cidr w;
          w = release_if E RNlAddr nl_addr_next_ip w
      in ret (rc, w))"

definition nu_add_routing_rule ::
  "'k env \<Rightarrow> ptr \<Rightarrow> string \<Rightarrow> string \<Rightarrow> int \<Rightarrow> 'k op" where
  "nu_add_routing_rule E sk cidr next_ip via_ifidx w =
     (let (r, w) = ext E (CAlloc RRoute ''rtnl_route_alloc'') w;
          route = outp r
      in
      if route = 0 then
        nu_add_routing_rule_out E 0 0 0 0 1 (set_err (err_of ''Failed to alloc rtnl_route'' []) w)
      else
        let w = run E (CSet RRoute route ''rtnl_route_set_family'' (VConst AF_INET)) w;
            w = run E (CSet RRoute route ''rtnl_route_set_table'' (VConst RT_TABLE_MAIN)) w;
            w = run E (CSet RRoute route ''rtnl_route_set_protocol'' (VConst RTPROT_STATIC)) w;
            w = run E (CSet RRoute route ''rtnl_route_set_scope'' (VConst RT_SCOPE_UNIVERSE)) w;
            w = run E (CSet RRoute route ''rtnl_route_set_type'' (VConst RTN_UNICAST)) w;
            (r, w) = ext E (CNlAddrParse cidr AF_INET) w
        in
        if rv r < 0 then
          nu_add_routing_rule_out E 0 route 0 0 1
            (set_err (errf_of ''Nl_addr_parse failed for CIDR'' ''%s: %s''
                        [AStr cidr, AStr (nl_geterror E (rv r))]) w)
        else
          let nl_addr_cidr = outp r;
              (r, w) = ext E (CNlAddrParse next_ip AF_INET) w
          in
          if rv r < 0 then
            nu_add_routing_rule_out E 0 route nl_addr_cidr 0 1
              (set_err (errf_of ''Nl_addr_parse failed for next hop'' ''%s: %s''
                          [AStr next_ip, AStr (nl_geterror E (rv r))]) w)
          else
            let nl_addr_next_ip = outp r;
                (r, w) = ext E (CRouteSetDst route nl_addr_cidr) w
            in
            if rv r < 0 then
              nu_add_routing_rule_out E 0 route nl_addr_cidr nl_addr_next_ip 1
                (set_err (errf_of ''Failed to set route dst'' ''%s''
                            [AStr (nl_geterror E (rv r))]) w)
            else
              let (r, w) = ext E (CAlloc RNexthop ''rtnl_route_nh_alloc'') w;
                  nh = outp r
              in
              if nh = 0 then
                nu_add_routing_rule_out E 0 route nl_addr_cidr nl_addr_next_ip 1
                  (set_err (err_of ''Failed to alloc rtnl_nexthop'' []) w)
              else
                let w = run E (CSet RNexthop nh ''rtnl_route_nh_set_ifindex'' (VInt via_ifidx)) w;
                    w = run E (CSet RNexthop nh ''rtnl_route_nh_set_gateway''
                                 (VObj RNlAddr nl_addr_next_ip)) w;
                    w = run E (CRouteAddNexthop route nh) w;
                    (r, w) = ext E (CRouteAdd sk route [NLM_F_CREATE, NLM_F_REPLACE]) w
                in
                if rv r < 0 then
                  nu_add_routing_rule_out E 0 route nl_addr_cidr nl_addr_next_ip 1
                    (set_err (errf_of ''Failed to add route'' ''%s''
                                [AStr (nl_geterror E (rv r))]) w)
                else nu_add_routing_rule_out E 0 route nl_addr_cidr nl_addr_next_ip 0 w)"

interpretation add_route: local_operation "nu_add_routing_rule E sk cidr next_ip via_ifidx"
  "out_params_filled E" "{#(RSock, sk)#}" never
  for E sk cidr next_ip via_ifidx
  by (rule local_operation_on_socket, unfold nu_add_routing_rule_def nu_add_routing_rule_out_def) (rule walk | simp (no_asm_simp) add: ns_step_def)+


section \<open>nu_create_bridge\<close>

definition nu_create_bridge_out :: "'k env \<Rightarrow> ptr \<Rightarrow> ptr \<Rightarrow> int \<Rightarrow> 'k op" where
  "nu_create_bridge_out E raddr bridge_link rc w =
     (let w = release_if E RAddr raddr w;
          w = release_if E RLink bridge_link w
      in ret (rc, w))"

definition nu_create_bridge :: "'k env \<Rightarrow> ptr \<Rightarrow> string \<Rightarrow> string \<Rightarrow> 'k op" where
  "nu_create_bridge E sk bridge_cidr bridge_name w =
     (let (r, w) = ext E (CIfNameToIndex bridge_name) w;
          existing_ifidx = rv r
      in
      if existing_ifidx \<noteq> 0 then ret (0, w)
      else
        let (r, w) = ext E (CAlloc RLink ''rtnl_link_alloc'') w;
            bridge_link = outp r
        in
        if bridge_link = 0 then
          nu_create_bridge_out E 0 0 1 (set_err (err_of ''Failure allocating rtnl_link'' []) w)
        else
          let w = run E (CSet RLink bridge_link ''rtnl_link_set_name'' (VStr bridge_name)) w;
              w = run E (CSet RLink bridge_link ''rtnl_link_set_type'' (VStr ''bridge'')) w;
              w = run E (CSet RLink bridge_link ''rtnl_link_set_flags'' (VConst IFF_UP)) w;
              (r, w) = ext E (CLinkAdd sk bridge_link [NLM_F_CREATE]) w
          in
          if rv r < 0 then
            nu_create_bridge_out E 0 bridge_link 1
              (set_err (errf_of ''Failure creating bridge'' ''%s'' [AStr (nl_geterror E (rv r))]) w)
          else
            let (r, w) = ext E (CIfNameToIndex bridge_name) w;
                ifidx = rv r
            in
            if ifidx = 0 then
              nu_create_bridge_out E 0 bridge_link 1
                (set_err (errf_of ''Failed to resolve ifindex for bridge'' ''%s''
                            [AStr bridge_name]) w)
            else
              exec_bind (nu_rtnl_addr_build E bridge_cidr ifidx w) (\<lambda>(rc, raddr, w).
                if rc \<noteq> 0 then nu_create_bridge_out E raddr bridge_link 1 w
                else
                  let (r, w) = ext E (CAddrAdd sk raddr [NLM_F_CREATE, NLM_F_ACK]) w in
                  if rv r < 0 then
                    nu_create_bridge_out E raddr bridge_link 1
                      (set_err (errf_of ''Failed to assign cidr to bridge interface'' ''%s''
                                  [AStr (nl_geterror E (rv r))]) w)
                  else nu_create_bridge_out E raddr bridge_link 0 w))"

interpretation create_bridge: local_operation "nu_create_bridge E sk bridge_cidr bridge_name"
  "out_params_filled E" "{#(RSock, sk)#}" "too_long [bridge_cidr]"
  for E sk bridge_cidr bridge_name
  by (rule local_operation_on_socket, unfold nu_create_bridge_def nu_create_bridge_out_def) (rule walk wp_nu_rtnl_addr_build | simp (no_asm_simp) add: ns_step_def too_long_def)+


section \<open>nu_create_vxlan\<close>

definition nu_create_vxlan_out :: "'k env \<Rightarrow> ptr \<Rightarrow> ptr \<Rightarrow> int \<Rightarrow> 'k op" where
  "nu_create_vxlan_out E local vxlan_link rc w =
     (let w = release_if E RNlAddr local w;
          w = release_if E RLink vxlan_link w
      in ret (rc, w))"

definition nu_create_vxlan ::
  "'k env \<Rightarrow> ptr \<Rightarrow> string \<Rightarrow> string \<Rightarrow> string \<Rightarrow> int \<Rightarrow> 'k op" where
  "nu_create_vxlan E sk underlay_if vxlan_name vxlan_group vni_id w =
     (let (r, w) = ext E (CIfNameToIndex vxlan_name) w;
          existing_ifidx = rv r
      in
      if existing_ifidx \<noteq> 0 then ret (0, w)
      else
        let (r, w) = ext E (CAlloc RLink ''rtnl_link_vxlan_alloc'') w;
            vxlan_link = outp r
        in
        if vxlan_link = 0 then
          nu_create_vxlan_out E 0 0 1 (set_err (err_of ''Failure allocating vxlan rtnl_link'' []) w)
        else
          let (r, w) = ext E (CNlAddrParse vxlan_group AF_INET) w in
          if rv r < 0 then
            nu_create_vxlan_out E 0 vxlan_link 1
              (set_err (errf_of ''Nl_addr_parse failed'' ''%s: %s''
                          [AStr vxlan_group, AStr (nl_geterror E (rv r))]) w)
          else
            let local = outp r;
                w = run E (CSet RLink vxlan_link ''rtnl_link_set_name'' (VStr vxlan_name)) w;
                w = run E (CSet RLink vxlan_link ''rtnl_link_vxlan_set_id'' (VInt vni_id)) w;
                w = run E (CSet RLink vxlan_link ''rtnl_link_vxlan_set_group'' (VObj RNlAddr local)) w;
                w = run E (CSet RLink vxlan_link ''rtnl_link_vxlan_set_port'' (VInt 4789)) w;
                w = run E (CSet RLink vxlan_link ''rtnl_link_set_flags'' (VConst IFF_UP)) w;
                (r, w) = ext E (CIfNameToIndex underlay_if) w;
                ifindex = rv r
            in
            if ifindex = 0 then
              nu_create_vxlan_out E local vxlan_link 1
                (set_err (errf_of ''Failed to resolve ifindex'' ''%s'' [AStr underlay_if]) w)
            else
              let w = run E (CSet RLink vxlan_link ''rtnl_link_vxlan_set_link'' (VInt ifindex)) w;
                  (r, w) = ext E (CLinkAdd sk vxlan_link [NLM_F_CREATE]) w
              in
              if rv r < 0 then
                nu_create_vxlan_out E local vxlan_link 1
                  (set_err (errf_of ''Failure creating vxlan'' ''%s'' [AStr (nl_geterror E (rv r))]) w)
              else nu_create_vxlan_out E local vxlan_link 0 w)"

interpretation create_vxlan:
  local_operation "nu_create_vxlan E sk underlay_if vxlan_name vxlan_group vni_id"
    "out_params_filled E" "{#(RSock, sk)#}" never
  for E sk underlay_if vxlan_name vxlan_group vni_id
  by (rule local_operation_on_socket, unfold nu_create_vxlan_def nu_create_vxlan_out_def) (rule walk | simp (no_asm_simp) add: ns_step_def)+


section \<open>nu_create_veth\<close>

definition nu_create_veth_out :: "'k env \<Rightarrow> ptr \<Rightarrow> ptr \<Rightarrow> int \<Rightarrow> 'k op" where
  "nu_create_veth_out E container_veth_changes_link container_veth_link rc w =
     (let w = release_if E RLink container_veth_changes_link w;
          w = release_if E RLink container_veth_link w
      in ret (rc, w))"

definition nu_create_veth ::
  "'k env \<Rightarrow> ptr \<Rightarrow> int \<Rightarrow> string \<Rightarrow> string \<Rightarrow> string \<Rightarrow> 'k op" where
  "nu_create_veth E sk container_netns_fd container_veth_name container_veth_tmp_name host_veth_name w =
     (let (r, w) = ext E CGetpid w;
          pid = rv r;
          (r, w) = ext E (CLinkVethAdd sk host_veth_name container_veth_tmp_name pid) w
      in
      if rv r < 0 then
        nu_create_veth_out E 0 0 1
          (set_err (errf_of ''Failure creating veth'' ''%s'' [AStr (nl_geterror E (rv r))]) w)
      else
        let (r, w) = ext E (CIfNameToIndex container_veth_tmp_name) w;
            ifidx = rv r
        in
        if ifidx = 0 then
          nu_create_veth_out E 0 0 1
            (set_err (errf_of ''Failed to resolve ifindex for %s'' ''%s''
                        [AStr container_veth_tmp_name]) w)
        else
          let (r, w) = ext E (CLinkGetKernel sk ifidx None) w in
          if rv r < 0 then
            nu_create_veth_out E 0 0 1
              (set_err (errf_of ''Failure filling rtnl_link information from kernel'' ''%s''
                          [AStr (nl_geterror E (rv r))]) w)
          else
            let container_veth_link = outp r;
                (r, w) = ext E (CAlloc RLink ''rtnl_link_alloc'') w;
                container_veth_changes_link = outp r
            in
            if container_veth_changes_link = 0 then
              nu_create_veth_out E 0 container_veth_link 1
                (set_err (err_of ''Failure allocating rtnl_link'' []) w)
            else
              let changes = container_veth_changes_link;
                  w = run E (CSet RLink changes ''rtnl_link_set_ifindex'' (VInt ifidx)) w;
                  w = run E (CSet RLink changes ''rtnl_link_set_ns_fd'' (VFd container_netns_fd)) w;
                  w = run E (CSet RLink changes ''rtnl_link_set_name'' (VStr container_veth_name)) w;
                  w = run E (CSet RLink changes ''rtnl_link_set_flags'' (VConst IFF_UP)) w;
                  (r, w) = ext E (CLinkChange sk container_veth_link changes 0) w
              in
              if rv r < 0 then
                nu_create_veth_out E changes container_veth_link 1
                  (set_err (errf_of ''Failure moving veth to container network namespace'' ''%s''
                              [AStr (nl_geterror E (rv r))]) w)
              else nu_create_veth_out E changes container_veth_link 0 w)"

interpretation create_veth:
  local_operation "nu_create_veth E sk fd container_veth_name container_veth_tmp_name host_veth_name"
    "out_params_filled E" "{#(RSock, sk), (RFd, nat fd)#}" never
  for E sk fd container_veth_name container_veth_tmp_name host_veth_name
  by (rule local_operation_on_two, unfold nu_create_veth_def nu_create_veth_out_def) (rule walk | simp (no_asm_simp) add: ns_step_def)+


section \<open>nu_enable_veth\<close>

definition nu_enable_veth_out :: "'k env \<Rightarrow> ptr \<Rightarrow> ptr \<Rightarrow> int \<Rightarrow> 'k op" where
  "nu_enable_veth_out E veth_changes_link veth_link rc w =
     (let w = release_if E RLink veth_changes_link w;
          w = release_if E RLink veth_link w
      in ret (rc, w))"

definition nu_enable_veth :: "'k env \<Rightarrow> ptr \<Rightarrow> string \<Rightarrow> 'k op" where
  "nu_enable_veth E sk veth_name w =
     (let (r, w) = ext E (CLinkGetKernel sk 0 (Some veth_name)) w in
      if rv r < 0 then
        nu_enable_veth_out E 0 0 1
          (set_err (errf_of ''Failure filling rtnl_link information from kernel'' ''%s''
                      [AStr (nl_geterror E (rv r))]) w)
      else
        let veth_link = outp r;
            (r, w) = ext E (CAlloc RLink ''rtnl_link_alloc'') w;
            veth_changes_link = outp r
        in
        if veth_changes_link = 0 then
          nu_enable_veth_out E 0 veth_link 1 (set_err (err_of ''Failure allocating rtnl_link'' []) w)
        else
          let w = run E (CSet RLink veth_changes_link ''rtnl_link_set_flags'' (VConst IFF_UP)) w;
              (r, w) = ext E (CLinkChange sk veth_link veth_changes_link 0) w
          in
          if rv r < 0 then
            nu_enable_veth_out E veth_changes_link veth_link 1
              (set_err (errf_of ''Failure activating veth'' ''%s'' [AStr (nl_geterror E (rv r))]) w)
          else nu_enable_veth_out E veth_changes_link veth_link 0 w)"

interpretation enable_veth: local_operation "nu_enable_veth E sk veth_name"
  "out_params_filled E" "{#(RSock, sk)#}" never
  for E sk veth_name
  by (rule local_operation_on_socket, unfold nu_enable_veth_def nu_enable_veth_out_def) (rule walk | simp (no_asm_simp) add: ns_step_def)+


section \<open>nu_delete_if\<close>

definition nu_delete_if_out :: "'k env \<Rightarrow> ptr \<Rightarrow> int \<Rightarrow> 'k op" where
  "nu_delete_if_out E link rc w =
     (let w = release_if E RLink link w in ret (rc, w))"

definition nu_delete_if :: "'k env \<Rightarrow> ptr \<Rightarrow> string \<Rightarrow> 'k op" where
  "nu_delete_if E sk ifname w =
     (let (r, w) = ext E (CLinkGetKernel sk 0 (Some ifname)) w in
      if rv r < 0 then
        nu_delete_if_out E 0 1
          (set_err (errf_of ''Failure filling rtnl_link information from kernel'' ''%s''
                      [AStr (nl_geterror E (rv r))]) w)
      else
        let link = outp r;
            (r, w) = ext E (CLinkDelete sk link) w
        in
        if rv r < 0 then
          nu_delete_if_out E link 1
            (set_err (errf_of ''Failure deleting veth pair'' ''%s: %s''
                        [AStr ifname, AStr (nl_geterror E (rv r))]) w)
        else nu_delete_if_out E link 0 w)"

interpretation delete_if: local_operation "nu_delete_if E sk ifname"
  "out_params_filled E" "{#(RSock, sk)#}" never
  for E sk ifname
  by (rule local_operation_on_socket, unfold nu_delete_if_def nu_delete_if_out_def) (rule walk | simp (no_asm_simp) add: ns_step_def)+

end
