(* ===== verification/Nft.thy ===== *)
theory Nft
  imports Env
begin

text \<open>
  \<open>nft.c\<close>: one netlink batch that creates the table \<open>sknf\<close>, its chain \<open>POSTROUTING\<close> and a rule
  that masquerades what leaves the physical interface from a cluster address, and the loop that
  reads the kernel's acknowledgements.
\<close>


section \<open>The mask\<close>

text \<open>
  \<open>htonl(0xFFFFFFFFu << (32 - prefix))\<close>; shifting a 32-bit value by a negative amount or by 32 or
  more is undefined.
\<close>

definition nft_mask :: "int \<Rightarrow> 32 word exec" where
  "nft_mask prefix =
     (if prefix = 0 then ret 0
      else if 0 \<le> 32 - prefix \<and> 32 - prefix < 32
        then ret (htonl (push_bit (nat (32 - prefix)) 0xFFFFFFFF))
        else stuck ShiftRange)"

text \<open>The four bytes of a 32-bit variable as they lie in memory (little-endian).\<close>

definition mem_bytes :: "32 word \<Rightarrow> 8 word list" where
  "mem_bytes w = map (\<lambda>i. word_of_nat (octet i w)) [0, 1, 2, 3]"


section \<open>The rule\<close>

definition SKNF_NFTABLES_TABLE_NAME :: string where
  "SKNF_NFTABLES_TABLE_NAME = ''sknf''"

definition SKNF_NFTABLES_POSTROUTING_CHAIN_NAME :: string where
  "SKNF_NFTABLES_POSTROUTING_CHAIN_NAME = ''POSTROUTING''"

text \<open>An expression: its kind and the attributes set on it, in order.\<close>

type_synonym nft_expr = "string \<times> (string \<times> val) list"

definition expr_meta_oifname :: nft_expr where
  "expr_meta_oifname =
     (''meta'', [(''NFTNL_EXPR_META_KEY'', VConst NFT_META_OIFNAME),
                 (''NFTNL_EXPR_META_DREG'', VConst NFT_REG_1)])"

definition expr_cmp_str :: "string \<Rightarrow> nft_expr" where
  "expr_cmp_str ifname =
     (''cmp'', [(''NFTNL_EXPR_CMP_SREG'', VConst NFT_REG_1),
                (''NFTNL_EXPR_CMP_OP'', VConst NFT_CMP_EQ),
                (''NFTNL_EXPR_CMP_DATA'', VStr ifname)])"

definition expr_payload :: "int \<Rightarrow> int \<Rightarrow> nft_expr" where
  "expr_payload off len =
     (''payload'', [(''NFTNL_EXPR_PAYLOAD_BASE'', VConst NFT_PAYLOAD_NETWORK_HEADER),
                    (''NFTNL_EXPR_PAYLOAD_OFFSET'', VInt off),
                    (''NFTNL_EXPR_PAYLOAD_LEN'', VInt len),
                    (''NFTNL_EXPR_PAYLOAD_DREG'', VConst NFT_REG_1)])"

definition expr_bitwise :: "8 word list \<Rightarrow> 8 word list \<Rightarrow> nft_expr" where
  "expr_bitwise m x =
     (''bitwise'', [(''NFTNL_EXPR_BITWISE_SREG'', VConst NFT_REG_1),
                    (''NFTNL_EXPR_BITWISE_DREG'', VConst NFT_REG_1),
                    (''NFTNL_EXPR_BITWISE_LEN'', VInt 4),
                    (''NFTNL_EXPR_BITWISE_MASK'', VBytes m),
                    (''NFTNL_EXPR_BITWISE_XOR'', VBytes x)])"

definition expr_cmp_data :: "8 word list \<Rightarrow> nft_expr" where
  "expr_cmp_data bs =
     (''cmp'', [(''NFTNL_EXPR_CMP_SREG'', VConst NFT_REG_1),
                (''NFTNL_EXPR_CMP_OP'', VConst NFT_CMP_EQ),
                (''NFTNL_EXPR_CMP_DATA'', VBytes bs)])"

definition expr_masq :: nft_expr where
  "expr_masq = (''masq'', [])"

definition nft_rule_exprs :: "string \<Rightarrow> 32 word \<Rightarrow> 32 word \<Rightarrow> nft_expr list" where
  "nft_rule_exprs ifname net_be netmask =
     (let net_and_mask = net_be AND netmask in
      [expr_meta_oifname, expr_cmp_str ifname,
       expr_payload 12 4,
       expr_bitwise (mem_bytes netmask) (mem_bytes 0),
       expr_cmp_data (mem_bytes net_and_mask),
       expr_masq])"

text \<open>
  Building one expression and appending it to the rule, which owns it from then on. The code does
  not check the result of \<open>nftnl_expr_alloc\<close>: when it is NULL, the next library call
  dereferences it.
\<close>

fun nft_set_attrs :: "'k env \<Rightarrow> ptr \<Rightarrow> (string \<times> val) list \<Rightarrow> 'k world \<Rightarrow> 'k world" where
  "nft_set_attrs E e [] w = w"
| "nft_set_attrs E e ((a, v) # s) w = nft_set_attrs E e s (run E (CSet RExpr e a v) w)"

definition nft_add_expr :: "'k env \<Rightarrow> ptr \<Rightarrow> nft_expr \<Rightarrow> 'k world \<Rightarrow> 'k world exec" where
  "nft_add_expr E r x w =
     (let (a, w) = ext E (CAlloc RExpr (fst x)) w;
          e = outp a
      in
      if e = 0 then stuck NullDeref
      else
        let w = nft_set_attrs E e (snd x) w;
            w = run E (CRuleAddExpr r e) w
        in ret w)"

fun nft_add_exprs :: "'k env \<Rightarrow> ptr \<Rightarrow> nft_expr list \<Rightarrow> 'k world \<Rightarrow> 'k world exec" where
  "nft_add_exprs E r [] w = ret w"
| "nft_add_exprs E r (x # xs) w = exec_bind (nft_add_expr E r x w) (nft_add_exprs E r xs)"


section \<open>The acknowledgement loop\<close>

text \<open>
  \<open>while (ret > 0)\<close>: the bytes of the last datagram are handed to \<open>mnl_cb_run\<close> with the sequence
  number of the table message; a result of 0 (stop) or -1 (error) ends the loop, a positive one
  reads the next datagram. \<open>lastr\<close> is the reply that set \<open>ret\<close>.
  The loop goes on for as long as the outside keeps it going.
\<close>

partial_function (option) nft_acks ::
  "'k env \<Rightarrow> ptr \<Rightarrow> nat \<Rightarrow> int \<Rightarrow> reply \<Rightarrow> 'k world \<Rightarrow> (ub + reply \<times> 'k world) option" where
  "nft_acks E sk table_seq portid lastr w =
     (if rv lastr > 0 then
        (case ext E (CMnlCbRun (rv lastr) table_seq portid) w of
           (r, w) \<Rightarrow>
             if rv r \<le> 0 then ret (r, w)
             else (case ext E (CMnlRecvfrom sk) w of
                     (r, w) \<Rightarrow> nft_acks E sk table_seq portid r w))
      else ret (lastr, w))"

declare nft_acks.simps [code]


section \<open>nft_nat_rule\<close>

definition nft_nat_rule_out :: "'k env \<Rightarrow> ptr \<Rightarrow> bool \<Rightarrow> ptr \<Rightarrow> int \<Rightarrow> 'k op" where
  "nft_nat_rule_out E batch batch_stopped sk rc w =
     (let w = (if batch \<noteq> 0 \<and> \<not> batch_stopped then run E (CRelease RBatch batch) w else w);
          w = release_if E RMnl sk w
      in ret (rc, w))"

text \<open>Sending the finished batch and reading the acknowledgements (from \<open>mnl_socket_sendto\<close> on).\<close>

definition nft_send :: "'k env \<Rightarrow> ptr \<Rightarrow> ptr \<Rightarrow> nat \<Rightarrow> int \<Rightarrow> 'k op" where
  "nft_send E sk batch table_seq portid w =
     (let (r, w) = ext E (CMnlSendto sk batch) w in
      if rv r < 0 then
        nft_nat_rule_out E batch False sk 1
          (set_err (errf_of ''Failure sending batch to configure nftables'' ''%s''
                      [AStr (strerror E (errno r))]) w)
      else
        let w = run E (CRelease RBatch batch) w;
            (r, w) = ext E (CMnlRecvfrom sk) w
        in
        exec_bind (nft_acks E sk table_seq portid r w) (\<lambda>(lastr, w).
          if rv lastr = -1 then
            nft_nat_rule_out E batch True sk 1
              (set_err (errf_of ''Received error when consuming nft acks'' ''%s''
                          [AStr (strerror E (errno lastr))]) w)
          else nft_nat_rule_out E batch True sk 0 w))"

text \<open>The rule message (from \<open>nftnl_rule_alloc\<close> on).\<close>

definition nft_rule :: "'k env \<Rightarrow> ptr \<Rightarrow> ptr \<Rightarrow> int \<Rightarrow> string \<Rightarrow> 32 word \<Rightarrow> 32 word \<Rightarrow> 'k op" where
  "nft_rule E sk batch portid ifname net_be netmask w =
     (let (x, w) = ext E (CAlloc RRule ''nftnl_rule_alloc'') w;
          r = outp x
      in
      if r = 0 then
        nft_nat_rule_out E batch False sk 1 (set_err (err_of ''Failure allocating nftnl_rule'' []) w)
      else
        let w = run E (CSet RRule r ''NFTNL_RULE_TABLE'' (VStr SKNF_NFTABLES_TABLE_NAME)) w;
            w = run E (CSet RRule r ''NFTNL_RULE_CHAIN'' (VStr SKNF_NFTABLES_POSTROUTING_CHAIN_NAME)) w
        in
        exec_bind (nft_add_exprs E r (nft_rule_exprs ifname net_be netmask) w) (\<lambda>w.
          let w = run E (CBuildHdr batch NFT_MSG_NEWRULE NFPROTO_IPV4 [NLM_F_CREATE, NLM_F_ACK] 4) w;
              w = run E (CBuildPayload batch RRule r) w;
              w = run E (CBatchNext batch) w;
              w = run E (CRelease RRule r) w;
              w = run E (CBatchEnd batch 5) w;
              w = run E (CBatchNext batch) w
          in nft_send E sk batch 2 portid w))"

definition nft_nat_rule :: "'k env \<Rightarrow> string \<Rightarrow> string \<Rightarrow> 'k op" where
  "nft_nat_rule E ifname cidr w =
     exec_bind (util_cidr_parse cidr) (\<lambda>parsed.
       case parsed of
         Inl e \<Rightarrow> ret (1, set_err e w)
       | Inr (addr, prefix) \<Rightarrow>
           exec_bind (nft_mask prefix) (\<lambda>netmask.
             let net_be = s_addr addr;
                 (x, w) = ext E (CAlloc RMnl ''mnl_socket_open'') w;
                 sk = outp x
             in
             if sk = 0 then
               nft_nat_rule_out E 0 False 0 1
                 (set_err (errf_of ''Failure opening mnl_socket'' ''%s'' [AStr (strerror E (errno x))]) w)
             else
               let (x, w) = ext E (CMnlBind sk 0 MNL_SOCKET_AUTOPID) w in
               if rv x < 0 then
                 nft_nat_rule_out E 0 False sk 1
                   (set_err (errf_of ''Failure binding to mnl_socket'' ''%s''
                               [AStr (strerror E (errno x))]) w)
               else
                 let (x, w) = ext E (CMnlPortid sk) w;
                     portid = rv x;
                     (x, w) = ext E (CAlloc RBatch ''mnl_nlmsg_batch_start'') w;
                     batch = outp x
                 in
                 if batch = 0 then stuck NullDeref
                 else
                   let w = run E (CBatchBegin batch 1) w;
                       w = run E (CBatchNext batch) w;
                       (x, w) = ext E (CAlloc RTable ''nftnl_table_alloc'') w;
                       t = outp x
                   in
                   if t = 0 then
                     nft_nat_rule_out E batch False sk 1
                       (set_err (err_of ''Failure allocating nftnl_table'' []) w)
                   else
                     let w = run E (CSet RTable t ''NFTNL_TABLE_NAME'' (VStr SKNF_NFTABLES_TABLE_NAME)) w;
                         w = run E (CSet RTable t ''NFTNL_TABLE_FAMILY'' (VConst NFPROTO_IPV4)) w;
                         w = run E (CBuildHdr batch NFT_MSG_NEWTABLE NFPROTO_IPV4
                                      [NLM_F_CREATE, NLM_F_ACK] 2) w;
                         w = run E (CBuildPayload batch RTable t) w;
                         w = run E (CBatchNext batch) w;
                         w = run E (CRelease RTable t) w;
                         (x, w) = ext E (CAlloc RChain ''nftnl_chain_alloc'') w;
                         c = outp x
                     in
                     if c = 0 then
                       nft_nat_rule_out E batch False sk 1
                         (set_err (err_of ''Failure allocating nftnl_chain'' []) w)
                     else
                       let w = run E (CSet RChain c ''NFTNL_CHAIN_TABLE'' (VStr SKNF_NFTABLES_TABLE_NAME)) w;
                           w = run E (CSet RChain c ''NFTNL_CHAIN_NAME''
                                        (VStr SKNF_NFTABLES_POSTROUTING_CHAIN_NAME)) w;
                           w = run E (CSet RChain c ''NFTNL_CHAIN_TYPE'' (VStr ''nat'')) w;
                           w = run E (CSet RChain c ''NFTNL_CHAIN_HOOKNUM'' (VConst NF_INET_POST_ROUTING)) w;
                           w = run E (CSet RChain c ''NFTNL_CHAIN_PRIO'' (VConst NF_IP_PRI_NAT_SRC)) w;
                           w = run E (CBuildHdr batch NFT_MSG_NEWCHAIN NFPROTO_IPV4
                                        [NLM_F_CREATE, NLM_F_ACK] 3) w;
                           w = run E (CBuildPayload batch RChain c) w;
                           w = run E (CBatchNext batch) w;
                           w = run E (CRelease RChain c) w
                       in nft_rule E sk batch portid ifname net_be netmask w))"


section \<open>Its contract\<close>

lemma wp_set_attrs_let:
  assumes "held w = Some H" "(RExpr, e) \<in># H" "\<forall>(a, v) \<in> set s. val_needs v = []"
    and "\<And>w'. held w' = Some H \<Longrightarrow> files w' = files w \<Longrightarrow> err w' = err w \<Longrightarrow> out w' = out w \<Longrightarrow> namespaces w' = namespaces w \<Longrightarrow> wp U (f w') Q"
  shows "wp U (let w' = nft_set_attrs E e s w in f w') Q"
  using assms
proof (induction s arbitrary: w)
  case Nil
  then show ?case by simp
next
  case (Cons av s)
  obtain a v where av: "av = (a, v)" by force
  have "wp U (let w' = run E (CSet RExpr e a v) w in let w'' = nft_set_attrs E e s w' in f w'') Q"
    by (rule wp_set_let [OF Cons.prems(1,2)], use Cons.prems(3) av in simp)
       (rule Cons.IH, use Cons.prems in \<open>auto simp: ns_step_def\<close>)
  then show ?case by (simp add: av)
qed

lemma wp_nft_add_expr:
  assumes "held w = Some H" "(RRule, r) \<in># H" "\<forall>(a, v) \<in> set (snd x). val_needs v = []"
    "U (Some NullDeref)"
    and "\<And>w'. held w' = Some H \<Longrightarrow> files w' = files w \<Longrightarrow> err w' = err w \<Longrightarrow> out w' = out w \<Longrightarrow> namespaces w' = namespaces w \<Longrightarrow> Q w'"
  shows "wp U (nft_add_expr E r x w) Q"
  unfolding nft_add_expr_def using assms
  by - (rule walk wp_set_attrs_let | simp (no_asm_simp) add: ns_step_def)+

definition plain_expr :: "nft_expr \<Rightarrow> bool" where
  "plain_expr x \<longleftrightarrow> (\<forall>(a, v) \<in> set (snd x). val_needs v = [])"

lemma wp_nft_add_exprs:
  assumes "held w = Some H" "(RRule, r) \<in># H" "\<forall>x \<in> set xs. plain_expr x" "U (Some NullDeref)"
    and "\<And>w'. held w' = Some H \<Longrightarrow> files w' = files w \<Longrightarrow> err w' = err w \<Longrightarrow> out w' = out w \<Longrightarrow> namespaces w' = namespaces w \<Longrightarrow> wp U (f w') Q"
  shows "wp U (exec_bind (nft_add_exprs E r xs w) f) Q"
  using assms
proof (induction xs arbitrary: w)
  case Nil
  then show ?case by simp
next
  case (Cons x xs)
  have "wp U (nft_add_expr E r x w) (\<lambda>w'. wp U (exec_bind (nft_add_exprs E r xs w') f) Q)"
    by (rule wp_nft_add_expr [OF Cons.prems(1,2)], use Cons.prems(3,4) in \<open>simp_all add: plain_expr_def\<close>)
       (rule Cons.IH, use Cons.prems in \<open>auto simp: plain_expr_def\<close>)
  then show ?case by (simp add: exec_bind_assoc wp_bind)
qed

lemma plain_rule_exprs: "\<forall>x \<in> set (nft_rule_exprs ifname net_be m). plain_expr x"
  by (simp add: nft_rule_exprs_def plain_expr_def expr_meta_oifname_def expr_cmp_str_def
      expr_payload_def expr_bitwise_def expr_cmp_data_def expr_masq_def)

lemma nft_acks_keeps:
  assumes "nft_acks E sk q p r w = Some res"
  shows "\<exists>r' w'. res = Inr (r', w') \<and> rv r' \<le> 0 \<and> (\<forall>H. held w = Some H \<longrightarrow> (RMnl, sk) \<in># H \<longrightarrow> held w' = Some H)
    \<and> files w' = files w \<and> err w' = err w \<and> out w' = out w \<and> namespaces w' = namespaces w"
proof (rule nft_acks.raw_induct [where P = "\<lambda>E sk q p r w res. \<exists>r' w'. res = Inr (r', w') \<and> rv r' \<le> 0 \<and>
    (\<forall>H. held w = Some H \<longrightarrow> (RMnl, sk) \<in># H \<longrightarrow> held w' = Some H)
    \<and> files w' = files w \<and> err w' = err w \<and> out w' = out w \<and> namespaces w' = namespaces w", OF _ assms])
  fix acks E sk q p r w res
  assume IH: "\<And>E sk q p r w res. acks E sk q p r w = Some res \<Longrightarrow> \<exists>r' w'. res = Inr (r', w') \<and> rv r' \<le> 0 \<and>
      (\<forall>H. held w = Some H \<longrightarrow> (RMnl, sk) \<in># H \<longrightarrow> held w' = Some H)
      \<and> files w' = files w \<and> err w' = err w \<and> out w' = out w \<and> namespaces w' = namespaces w"
    and eq: "(if rv r > 0 then
        (case ext E (CMnlCbRun (rv r) q p) w of
           (r, w) \<Rightarrow>
             if rv r \<le> 0 then ret (r, w)
             else (case ext E (CMnlRecvfrom sk) w of (r, w) \<Rightarrow> acks E sk q p r w))
      else ret (r, w)) = Some res"
  show "\<exists>r' w'. res = Inr (r', w') \<and> rv r' \<le> 0 \<and>
      (\<forall>H. held w = Some H \<longrightarrow> (RMnl, sk) \<in># H \<longrightarrow> held w' = Some H)
      \<and> files w' = files w \<and> err w' = err w \<and> out w' = out w \<and> namespaces w' = namespaces w"
  proof (cases "rv r > 0")
    case False
    with eq show ?thesis by auto
  next
    case True
    obtain r1 w1 where e1: "ext E (CMnlCbRun (rv r) q p) w = (r1, w1)" by force
    obtain r2 w2 where e2: "ext E (CMnlRecvfrom sk) w1 = (r2, w2)" by force
    note a1 = after_ext [OF e1] and a2 = after_ext [OF e2]
    have h1: "held w = Some H \<Longrightarrow> held w1 = Some H" for H
      using held_after [OF a1] by simp
    have h2: "held w1 = Some H \<Longrightarrow> (RMnl, sk) \<in># H \<Longrightarrow> held w2 = Some H" for H
      using held_after [OF a2] by simp
    show ?thesis
    proof (cases "rv r1 \<le> 0")
      case le: True
      then show ?thesis using eq True e1 h1 a1 by (auto simp: after_def ns_step_def)
    next
      case False
      then have "acks E sk q p r2 w2 = Some res" using eq True e1 e2 by simp
      from IH [OF this] show ?thesis
        using h1 h2 a1 a2 by (auto simp: after_def ns_step_def)
    qed
  qed
qed

lemma wp_nft_acks:
  assumes "held w = Some H" "(RMnl, sk) \<in># H" "U None"
    and "\<And>r' w'. rv r' \<le> 0 \<Longrightarrow> held w' = Some H \<Longrightarrow> files w' = files w \<Longrightarrow> err w' = err w \<Longrightarrow> out w' = out w \<Longrightarrow>
      namespaces w' = namespaces w \<Longrightarrow> wp U (f r' w') Q"
  shows "wp U (exec_bind (nft_acks E sk q p r w) (\<lambda>(r', w'). f r' w')) Q"
proof (cases "nft_acks E sk q p r w")
  case None
  then show ?thesis by (simp add: wp_None assms(3))
next
  case (Some res)
  from nft_acks_keeps [OF Some] obtain r' w' where "res = Inr (r', w')" "rv r' \<le> 0" "held w' = Some H"
    "files w' = files w" "err w' = err w" "out w' = out w" "namespaces w' = namespaces w"
    using assms(1,2) by blast
  then show ?thesis by (simp add: Some assms(4))
qed

text \<open>
  The undefined behaviour \<open>nft_nat_rule\<close> does not exclude: a text that overflows the array of the
  parser, a prefix outside 0 to 32, a library allocation whose NULL result is not checked, and
  acknowledgements that never end.
\<close>

definition nft_may :: "string \<Rightarrow> ub option \<Rightarrow> bool" where
  "nft_may cidr u \<longleftrightarrow>
     u = None \<or> u = Some NullDeref \<or> too_long [cidr] u \<or>
     u = Some ShiftRange \<and> (\<exists>a p. util_cidr_parse cidr = ret (Inr (a, p)) \<and> (p < 0 \<or> 32 < p))"

lemma wp_nft_mask:
  assumes "p < 0 \<or> 32 < p \<Longrightarrow> U (Some ShiftRange)" "\<And>m. nft_mask p = ret m \<Longrightarrow> wp U (f m) Q"
  shows "wp U (exec_bind (nft_mask p) f) Q"
proof (cases "nft_mask p")
  case None
  then show ?thesis by (simp add: nft_mask_def split: if_splits)
next
  case (Some res)
  then show ?thesis
    by (cases res) (use assms in \<open>auto simp: nft_mask_def wp_def split: if_splits\<close>)
qed

lemma wp_release_batch_let:
  assumes "0 < b" "held w = Some H" "(RBatch, b) \<in># H"
    and "\<And>w'. held w' = Some (H - {#(RBatch, b)#}) \<Longrightarrow> files w' = files w \<Longrightarrow> err w' = err w \<Longrightarrow> out w' = out w \<Longrightarrow>
      namespaces w' = namespaces w \<Longrightarrow> wp U (f w') Q"
  shows "wp U (let w' = (if b \<noteq> 0 \<and> \<not> False then run E (CRelease RBatch b) w else w) in f w') Q"
  using wp_release_let [OF assms(1-3), of U f Q E] assms(1,4) by (simp add: release_if_def ns_step_def)

lemma wp_keep_batch_let:
  "wp U (f w) Q \<Longrightarrow> wp U (let w' = (if b \<noteq> 0 \<and> \<not> True then x else w) in f w') Q"
  "wp U (f w) Q \<Longrightarrow> wp U (let w' = (if (0::nat) \<noteq> 0 \<and> \<not> s then x else w) in f w') Q"
  by simp_all

interpretation nat_rule: local_operation "nft_nat_rule E ifname cidr" True "{#}" "nft_may cidr"
  for E ifname cidr
  by (rule local_operation_alone, unfold nft_nat_rule_def nft_rule_def nft_send_def nft_nat_rule_out_def)
     (rule wp_release_batch_let wp_keep_batch_let walk wp_nft_add_exprs wp_nft_acks wp_nft_mask
       plain_rule_exprs | simp (no_asm_simp) add: ns_step_def nft_may_def too_long_def)+

end
