(* ===== verification/Io.thy ===== *)
theory Io
  imports Env
begin

text \<open>
  The stdio layer and \<open>io.c\<close> on top of it. A file is its text; the outside decides which call
  fails: a reply with pointer 0 makes \<open>fopen\<close> fail, a negative one is a read error, \<open>fwrite\<close>
  accepts as many bytes as it is answered, and \<open>fclose\<close> fails when it is answered anything but 0.
\<close>


section \<open>stdio\<close>

text \<open>
  Files under \<open>/proc\<close> are not created or truncated by opening them, and a write replaces the
  value as a whole.
\<close>

definition is_proc :: "string \<Rightarrow> bool" where
  "is_proc path \<longleftrightarrow> take 6 path = ''/proc/''"

definition log_call :: "call \<Rightarrow> reply \<Rightarrow> 'k \<Rightarrow> 'k world \<Rightarrow> 'k world" where
  "log_call c r k w = w\<lparr>kern := k, trace := trace w @ [(c, r)]\<rparr>"

text \<open>\<open>fopen\<close> for reading needs the file, \<open>fopen\<close> for writing a file under \<open>/proc\<close> as well.\<close>

definition fopen_read :: "'k env \<Rightarrow> string \<Rightarrow> string \<Rightarrow> 'k world \<Rightarrow> ptr \<times> 'k world" where
  "fopen_read E path mode w =
     (let (r, k) = answer E (CFopen path mode) (kern w);
          p = (if files w path = None then 0 else outp r)
      in (p, log_call (CFopen path mode) (r\<lparr>outp := p\<rparr>) k w))"

definition fopen_write :: "'k env \<Rightarrow> string \<Rightarrow> string \<Rightarrow> 'k world \<Rightarrow> ptr \<times> int \<times> 'k world" where
  "fopen_write E path mode w =
     (let (r, k) = answer E (CFopen path mode) (kern w);
          p = (if is_proc path \<and> files w path = None then 0 else outp r);
          w' = log_call (CFopen path mode) (r\<lparr>outp := p\<rparr>) k w
      in (p, errno r,
          if p \<noteq> 0 \<and> \<not> is_proc path then w'\<lparr>files := (files w)(path := Some [])\<rparr> else w'))"

text \<open>A stream open for reading: the bytes ahead, and the end-of-file and error flags.\<close>

record istream =
  i_ptr :: ptr
  i_rest :: string
  i_eof :: bool
  i_err :: bool

text \<open>
  \<open>fread\<close> of \<open>n\<close> single bytes. A short count means end of file or an error, and sets the flag;
  the end-of-file flag is sticky.
\<close>

definition fread :: "'k env \<Rightarrow> nat \<Rightarrow> istream \<Rightarrow> 'k world \<Rightarrow> string \<times> istream \<times> 'k world" where
  "fread E n st w =
     (let (r, w) = ext E (CFread (i_ptr st) n) w in
      if i_eof st then ([], st, w)
      else if rv r < 0 then
        let k = min (outp r) (n - 1)
        in (take k (i_rest st), st\<lparr>i_rest := drop k (i_rest st), i_err := True\<rparr>, w)
      else if n \<le> length (i_rest st) then
        (take n (i_rest st), st\<lparr>i_rest := drop n (i_rest st)\<rparr>, w)
      else (i_rest st, st\<lparr>i_rest := [], i_eof := True\<rparr>, w))"

text \<open>A stream open for writing buffers what it accepts; \<open>fclose\<close> writes it out.\<close>

record ostream =
  o_ptr :: ptr
  o_path :: string
  o_buf :: string

definition flush_file :: "string \<Rightarrow> nat \<Rightarrow> string \<Rightarrow> (string \<Rightarrow> string option) \<Rightarrow> (string \<Rightarrow> string option)" where
  "flush_file path k txt fs =
     (if is_proc path then (if txt \<noteq> [] \<and> length txt \<le> k then fs(path := Some txt) else fs)
      else (case fs path of None \<Rightarrow> fs | Some old \<Rightarrow> fs(path := Some (old @ take k txt))))"

definition fwrite :: "'k env \<Rightarrow> string \<Rightarrow> ostream \<Rightarrow> 'k world \<Rightarrow> nat \<times> ostream \<times> 'k world" where
  "fwrite E txt st w =
     (let (r, w) = ext E (CFwrite (o_ptr st) txt) w;
          n = min (nat (rv r)) (length txt)
      in (n, st\<lparr>o_buf := o_buf st @ take n txt\<rparr>, w))"

text \<open>\<open>fputs\<close> returns EOF on a negative answer, and then has buffered nothing.\<close>

definition fputs :: "'k env \<Rightarrow> string \<Rightarrow> ostream \<Rightarrow> 'k world \<Rightarrow> bool \<times> int \<times> ostream \<times> 'k world" where
  "fputs E txt st w =
     (let (r, w) = ext E (CFputs (o_ptr st) txt) w in
      if rv r < 0 then (False, errno r, st, w)
      else (True, errno r, st\<lparr>o_buf := o_buf st @ txt\<rparr>, w))"

text \<open>
  A failing \<open>fclose\<close> returns EOF (modelled as -1) after a prefix of the buffer reached the file.
\<close>

definition fclose_write :: "'k env \<Rightarrow> ostream \<Rightarrow> 'k world \<Rightarrow> int \<times> 'k world" where
  "fclose_write E st w =
     (let (r, w) = ext E (CFclose (o_ptr st)) w in
      if rv r = 0 then (0, w\<lparr>files := flush_file (o_path st) (length (o_buf st)) (o_buf st) (files w)\<rparr>)
      else (-1, w\<lparr>files := flush_file (o_path st) (outp r) (o_buf st) (files w)\<rparr>))"


section \<open>io.c\<close>

definition io_file_exists :: "'k env \<Rightarrow> string option \<Rightarrow> 'k world \<Rightarrow> bool \<times> 'k world" where
  "io_file_exists E path w =
     (case path of
        None \<Rightarrow> (False, w)
      | Some path \<Rightarrow>
          let (file, w) = fopen_read E path ''r'' w in
          if file \<noteq> 0 then let w = run E (CFclose file) w in (True, w)
          else (False, w))"

text \<open>
  The read loop. It fills \<open>buf\<close> up to \<open>cap\<close> bytes; the result says whether the loop was left
  normally (\<open>False\<close> is the return after a read error).
\<close>

lemma fread_nothing:
  assumes "fread E n st w = ([], st', w')" "0 < n"
  shows "i_eof st' \<or> i_err st'"
  using assms by (auto simp: fread_def Let_def split: prod.splits if_splits)

function read_loop ::
  "'k env \<Rightarrow> nat \<Rightarrow> istream \<Rightarrow> string \<Rightarrow> 'k world \<Rightarrow> bool \<times> string \<times> istream \<times> 'k world" where
  "read_loop E cap st buf w =
     (if length buf < cap then
        (case fread E (cap - length buf) st w of
           (bs, st, w) \<Rightarrow>
             if bs = [] then
               if i_eof st then (True, buf, st, w)
               else if i_err st then (False, buf, st, w)
               else read_loop E cap st buf w
             else read_loop E cap st (buf @ bs) w)
      else (True, buf, st, w))"
  by pat_completeness auto
termination
  by (relation "measure (\<lambda>(E, cap, st, buf, w). cap - length buf)")
     (auto dest!: fread_nothing [OF sym] simp: neq_Nil_conv)

declare read_loop.simps [simp del]

text \<open>
  The result: 0, 1 when the file was cut off, or -1; and the text in the buffer, whose length is
  \<open>*out_len\<close>. \<open>buf\<close> is NULL when it is \<open>None\<close>.
\<close>

definition io_read_file_into ::
  "'k env \<Rightarrow> string option \<Rightarrow> string option \<Rightarrow> nat \<Rightarrow> 'k world \<Rightarrow> int \<times> string \<times> 'k world" where
  "io_read_file_into E path buf bufsize w =
     (case (path, buf) of
        (Some path, Some _) \<Rightarrow>
          if bufsize = 0 then (-1, [], w)
          else
            let (f, w) = fopen_read E path ''rb'' w in
            if f = 0 then (-1, [], w)
            else
              let cap = (if bufsize > 0 then bufsize - 1 else 0);
                  (fine, total, st, w) =
                    read_loop E cap
                      \<lparr>i_ptr = f, i_rest = (case files w path of None \<Rightarrow> [] | Some txt \<Rightarrow> txt),
                       i_eof = False, i_err = False\<rparr> [] w
              in
              if \<not> fine then let w = run E (CFclose f) w in (-1, total, w)
              else
                let rc = (if \<not> i_eof st \<and> length total = cap then 1 else 0);
                    w = run E (CFclose f) w
                in (rc, total, w)
      | _ \<Rightarrow> (-1, [], w))"

definition io_write_text :: "'k env \<Rightarrow> string option \<Rightarrow> string option \<Rightarrow> 'k world \<Rightarrow> int \<times> 'k world" where
  "io_write_text E path buf w =
     (case (path, buf) of
        (Some path, Some buf) \<Rightarrow>
          let (f, _, w) = fopen_write E path ''wb'' w in
          if f = 0 then (-1, w)
          else
            let len = length (cstr buf);
                (written, st, w) = fwrite E (cstr buf) \<lparr>o_ptr = f, o_path = path, o_buf = []\<rparr> w
            in
            if written \<noteq> len then let (_, w) = fclose_write E st w in (-1, w)
            else
              let (rc, w) = fclose_write E st w in
              if rc \<noteq> 0 then (-1, w) else (0, w)
      | _ \<Rightarrow> (-1, w))"


section \<open>What the calls keep\<close>

text \<open>A step that leaves the error object and the output alone.\<close>

definition quiet :: "'k world \<Rightarrow> 'k world \<Rightarrow> bool" where
  "quiet w w' \<longleftrightarrow> err w' = err w \<and> out w' = out w"

lemma quiet_refl [simp]: "quiet w w"
  by (simp add: quiet_def)

lemma quiet_trans [trans]: "quiet w w' \<Longrightarrow> quiet w' w'' \<Longrightarrow> quiet w w''"
  by (simp add: quiet_def)

lemma quiet_files [simp]: "quiet w (w'\<lparr>files := f\<rparr>) \<longleftrightarrow> quiet w w'"
  by (simp add: quiet_def)

lemma log_call_simps [simp]:
  "files (log_call c r k w) = files w" "quiet w (log_call c r k w)"
  "trace (log_call c r k w) = trace w @ [(c, r)]"
  by (simp_all add: log_call_def quiet_def)

lemma held_log_call:
  "held w = Some H \<Longrightarrow> \<forall>h \<in> set (needs c @ gives_up c). h \<in># H \<Longrightarrow>
     held (log_call c r k w) = Some (H - mset (gives_up c) + mset (acquires c r))"
  by (rule held_after [where w = w]) (simp_all add: after_def log_call_def)

lemma held_ext:
  "ext E c w = (r, w') \<Longrightarrow> held w = Some H \<Longrightarrow> \<forall>h \<in> set (needs c @ gives_up c). h \<in># H \<Longrightarrow>
     held w' = Some (H - mset (gives_up c) + mset (acquires c r))"
  by (rule held_after [OF after_ext])

lemma ext_keeps: "ext E c w = (r, w') \<Longrightarrow> files w' = files w \<and> quiet w w'"
  using after_ext [of E c w r w'] by (simp add: after_def quiet_def)

lemma run_keeps: "files (run E c w) = files w \<and> quiet w (run E c w)"
  using ext_keeps [of E c w] by (simp add: run_def prod_eq_iff)

lemma held_run:
  "held w = Some H \<Longrightarrow> \<forall>h \<in> set (needs c @ gives_up c). h \<in># H \<Longrightarrow> (\<And>r. acquires c r = []) \<Longrightarrow>
     held (run E c w) = Some (H - mset (gives_up c))"
  using held_ext [of E c w "fst (ext E c w)" "snd (ext E c w)" H] by (simp add: run_def)

lemma fopen_read_keeps:
  assumes "fopen_read E path m w = (f, w')"
  shows "files w' = files w" "quiet w w'" "f \<noteq> 0 \<Longrightarrow> files w path \<noteq> None"
    "held w = Some H \<Longrightarrow> held w' = Some (if f = 0 then H else add_mset (RFile, f) H)"
  using assms by (auto simp: fopen_read_def Let_def held_log_call split: prod.splits if_splits)

lemma fopen_write_keeps:
  assumes "fopen_write E path m w = (f, e, w')"
  shows "quiet w w'" "f = 0 \<Longrightarrow> files w' = files w"
    "f \<noteq> 0 \<Longrightarrow> \<not> is_proc path \<Longrightarrow> files w' = (files w)(path := Some [])"
    "is_proc path \<Longrightarrow> files w' = files w \<and> (f \<noteq> 0 \<longrightarrow> files w path \<noteq> None)"
    "held w = Some H \<Longrightarrow> held w' = Some (if f = 0 then H else add_mset (RFile, f) H)"
  using assms by (auto simp: fopen_write_def Let_def held_log_call split: prod.splits if_splits)

lemma fread_keeps:
  assumes "fread E n st w = (bs, st', w')"
  shows "files w' = files w" "quiet w w'" "i_ptr st' = i_ptr st" "length bs \<le> n"
    "i_rest st = bs @ i_rest st'" "(i_eof st \<longrightarrow> i_rest st = []) \<Longrightarrow> i_eof st' \<longrightarrow> i_rest st' = []"
    "i_eof st' \<Longrightarrow> bs \<noteq> [] \<Longrightarrow> length bs < n"
    "held w = Some H \<Longrightarrow> (RFile, i_ptr st) \<in># H \<Longrightarrow> held w' = Some H"
proof -
  obtain r w1 where e: "ext E (CFread (i_ptr st) n) w = (r, w1)" by force
  then have "w' = w1" using assms by (auto simp: fread_def Let_def split: if_splits)
  with ext_keeps [OF e] show "files w' = files w" "quiet w w'" by simp_all
  show "i_ptr st' = i_ptr st" "length bs \<le> n" "i_rest st = bs @ i_rest st'"
    "(i_eof st \<longrightarrow> i_rest st = []) \<Longrightarrow> i_eof st' \<longrightarrow> i_rest st' = []"
    "i_eof st' \<Longrightarrow> bs \<noteq> [] \<Longrightarrow> length bs < n"
    using assms e by (auto simp: fread_def Let_def split: if_splits)
  show "held w = Some H \<Longrightarrow> (RFile, i_ptr st) \<in># H \<Longrightarrow> held w' = Some H"
    using held_ext [OF e] \<open>w' = w1\<close> by simp
qed

lemma read_loop_keeps:
  assumes "read_loop E cap st buf w = (fine, got, st', w')" "length buf \<le> cap"
    "i_eof st \<longrightarrow> i_rest st = [] \<and> length buf < cap"
  shows "files w' = files w \<and> quiet w w' \<and> i_ptr st' = i_ptr st \<and> length got \<le> cap \<and>
    buf @ i_rest st = got @ i_rest st' \<and> (i_eof st' \<longrightarrow> i_rest st' = [] \<and> length got < cap) \<and>
    (fine \<longrightarrow> i_eof st' \<or> length got = cap) \<and>
    (\<forall>H. held w = Some H \<longrightarrow> (RFile, i_ptr st) \<in># H \<longrightarrow> held w' = Some H)"
  using assms
proof (induction E cap st buf w arbitrary: fine got st' w' rule: read_loop.induct)
  case (1 E cap st buf w)
  show ?case
  proof (cases "length buf < cap")
    case False
    then show ?thesis using "1.prems" by (auto simp: read_loop.simps [of E cap st buf])
  next
    case True
    obtain bs st1 w1 where f: "fread E (cap - length buf) st w = (bs, st1, w1)"
      by (metis prod_cases3)
    note k = fread_keeps [OF f]
    note unf = "1.prems"(1) [unfolded read_loop.simps [of E cap st buf]]
    show ?thesis
    proof (cases "bs = []")
      case nil: True
      with fread_nothing [of E _ st w st1 w1] f True have "i_eof st1 \<or> i_err st1"
        by fastforce
      then show ?thesis
        using unf True f nil k "1.prems"(2,3) by (auto split: if_splits)
    next
      case False
      then have rec: "read_loop E cap st1 (buf @ bs) w1 = (fine, got, st', w')"
        using unf True f by simp
      have len: "length (buf @ bs) \<le> cap" using k(4) True by simp
      have eof: "i_eof st1 \<longrightarrow> i_rest st1 = [] \<and> length (buf @ bs) < cap"
        using k(6,7) "1.prems"(3) False True by auto
      from "1.IH"(2) [OF True f [symmetric] refl False rec len eof]
      show ?thesis using k by (auto intro: quiet_trans)
    qed
  qed
qed

lemma io_file_exists_keeps:
  assumes "io_file_exists E path w = (b, w')" "held w = Some H"
  shows "files w' = files w" "quiet w w'" "held w' = Some H"
    "b \<Longrightarrow> \<exists>p. path = Some p \<and> files w p \<noteq> None"
proof -
  have *: "files w' = files w \<and> quiet w w' \<and> held w' = Some H \<and> (b \<longrightarrow> (\<exists>p. path = Some p \<and> files w p \<noteq> None))"
  proof (cases path)
    case None
    then show ?thesis using assms by (simp add: io_file_exists_def)
  next
    case (Some p)
    obtain f w1 where f: "fopen_read E p ''r'' w = (f, w1)" by force
    note k = fopen_read_keeps [OF f]
    show ?thesis
      using assms Some f k run_keeps [of E "CFclose f" w1]
        held_run [of w1 "add_mset (RFile, f) H" "CFclose f" E]
      by (auto simp: io_file_exists_def Let_def split: if_splits intro: quiet_trans)
  qed
  then show "files w' = files w" "quiet w w'" "held w' = Some H"
    "b \<Longrightarrow> \<exists>p. path = Some p \<and> files w p \<noteq> None" by auto
qed

text \<open>
  Whatever the outside does: the objects are given back and the files are left alone, and when
  the result is 0 the whole file was read and is shorter than \<open>bufsize - 1\<close>.
\<close>

lemma io_read_file_into_keeps:
  assumes "io_read_file_into E path buf bufsize w = (rc, txt, w')" "held w = Some H"
  shows "files w' = files w" "quiet w w'" "held w' = Some H" "rc \<in> {-1, 0, 1}"
    "rc = 0 \<Longrightarrow> \<exists>p. path = Some p \<and> files w p = Some txt \<and> length txt < bufsize - 1"
proof -
  have *: "files w' = files w \<and> quiet w w' \<and> held w' = Some H \<and> rc \<in> {-1, 0, 1} \<and>
    (rc = 0 \<longrightarrow> (\<exists>p. path = Some p \<and> files w p = Some txt \<and> length txt < bufsize - 1))"
  proof (cases "path = None \<or> buf = None \<or> bufsize = 0")
    case True
    then show ?thesis using assms by (auto simp: io_read_file_into_def split: option.splits)
  next
    case False
    then obtain p b where pb: "path = Some p" "buf = Some b" "0 < bufsize" by auto
    obtain f w1 where f: "fopen_read E p ''rb'' w = (f, w1)" by force
    note k = fopen_read_keeps [OF f]
    show ?thesis
    proof (cases "f = 0")
      case True
      then show ?thesis using assms pb f k by (auto simp: io_read_file_into_def)
    next
      case f0: False
      define st where "st = \<lparr>i_ptr = f, i_rest = (case files w1 p of None \<Rightarrow> [] | Some txt \<Rightarrow> txt),
        i_eof = False, i_err = False\<rparr>"
      obtain fine got st' w2 where l: "read_loop E (bufsize - 1) st [] w1 = (fine, got, st', w2)"
        by (metis prod_cases4)
      from read_loop_keeps [OF l] have kl: "files w2 = files w1" "quiet w1 w2" "i_ptr st' = f"
        "length got \<le> bufsize - 1" "i_rest st = got @ i_rest st'" "i_eof st' \<longrightarrow> i_rest st' = [] \<and> length got < bufsize - 1"
        "fine \<longrightarrow> i_eof st' \<or> length got = bufsize - 1"
        "held w1 = Some (add_mset (RFile, f) H) \<Longrightarrow> held w2 = Some (add_mset (RFile, f) H)"
        by (simp_all add: st_def)
      obtain t where t: "files w p = Some t" using k(3) f0 by auto
      have h: "held w2 = Some (add_mset (RFile, f) H)" using kl(8) k(4) assms(2) f0 by simp
      note c = run_keeps [of E "CFclose f" w2] held_run [OF h, of "CFclose f" E]
      have res: "w' = run E (CFclose f) w2" "txt = got"
        "rc = (if \<not> fine then -1 else if \<not> i_eof st' \<and> length got = bufsize - 1 then 1 else 0)"
        using assms(1) pb f f0 l by (auto simp: io_read_file_into_def st_def Let_def split: if_splits)
      have "rc = 0 \<Longrightarrow> i_eof st'"
        using res kl(7) by (auto split: if_splits)
      then have "rc = 0 \<Longrightarrow> files w p = Some txt \<and> length txt < bufsize - 1"
        using res(2) kl t k(1) by (auto simp: st_def)
      then show ?thesis
        using res c kl(1,2) k(1,2) pb h by (auto intro: quiet_trans split: if_splits)
    qed
  qed
  then show "files w' = files w" "quiet w w'" "held w' = Some H" "rc \<in> {-1, 0, 1}"
    "rc = 0 \<Longrightarrow> \<exists>p. path = Some p \<and> files w p = Some txt \<and> length txt < bufsize - 1" by auto
qed


text \<open>
  Writing: other files are left alone; with result 0 the file holds the text; otherwise it is as
  before or holds a prefix of the text, possibly an empty one.
\<close>

lemma fclose_write_keeps:
  assumes "fclose_write E st w = (rc, w')" "held w = Some (add_mset (RFile, o_ptr st) H)"
  shows "quiet w w'" "held w' = Some H" "rc \<in> {-1, 0}"
    "files w' = flush_file (o_path st) (length (o_buf st)) (o_buf st) (files w) \<or>
     rc = -1 \<and> (\<exists>k. files w' = flush_file (o_path st) k (o_buf st) (files w))"
proof -
  obtain r w1 where e: "ext E (CFclose (o_ptr st)) w = (r, w1)" by force
  note k = ext_keeps [OF e] held_ext [OF e assms(2)]
  from assms(1) e k show "quiet w w'" "held w' = Some H" "rc \<in> {-1, 0}"
    "files w' = flush_file (o_path st) (length (o_buf st)) (o_buf st) (files w) \<or>
     rc = -1 \<and> (\<exists>k. files w' = flush_file (o_path st) k (o_buf st) (files w))"
    by (auto simp: fclose_write_def split: if_splits)
qed

lemma fwrite_keeps:
  assumes "fwrite E txt st w = (n, st', w')"
  shows "files w' = files w" "quiet w w'" "o_ptr st' = o_ptr st" "o_path st' = o_path st"
    "o_buf st' = o_buf st @ take n txt" "n \<le> length txt"
    "held w = Some H \<Longrightarrow> (RFile, o_ptr st) \<in># H \<Longrightarrow> held w' = Some H"
proof -
  obtain r w1 where e: "ext E (CFwrite (o_ptr st) txt) w = (r, w1)" by force
  with assms have w1: "w' = w1" by (simp add: fwrite_def Let_def)
  with ext_keeps [OF e] show "files w' = files w" "quiet w w'" by simp_all
  show "o_ptr st' = o_ptr st" "o_path st' = o_path st" "o_buf st' = o_buf st @ take n txt"
    "n \<le> length txt"
    using assms e by (auto simp: fwrite_def Let_def)
  show "held w = Some H \<Longrightarrow> (RFile, o_ptr st) \<in># H \<Longrightarrow> held w' = Some H"
    using held_ext [OF e] w1 by simp
qed

lemma flush_file_other: "q \<noteq> path \<Longrightarrow> flush_file path k txt fs q = fs q"
  by (auto simp: flush_file_def split: option.split)

lemma flush_file_new: "\<not> is_proc path \<Longrightarrow> fs path = Some [] \<Longrightarrow> flush_file path k txt fs path = Some (take k txt)"
  by (simp add: flush_file_def)

lemma io_write_text_keeps:
  assumes "io_write_text E (Some p) (Some b) w = (rc, w')" "held w = Some H"
  shows "quiet w w'" "held w' = Some H" "rc \<in> {-1, 0}" "q \<noteq> p \<Longrightarrow> files w' q = files w q"
    "rc = 0 \<Longrightarrow> \<not> is_proc p \<Longrightarrow> files w' p = Some (cstr b)"
    "rc \<noteq> 0 \<Longrightarrow> \<not> is_proc p \<Longrightarrow> files w' p = files w p \<or> (\<exists>n. files w' p = Some (take n (cstr b)))"
proof -
  obtain f e w1 where f: "fopen_write E p ''wb'' w = (f, e, w1)" by (metis prod_cases3)
  note k = fopen_write_keeps [OF f]
  have *: "quiet w w' \<and> held w' = Some H \<and> rc \<in> {-1, 0} \<and> (q \<noteq> p \<longrightarrow> files w' q = files w q) \<and>
    (\<not> is_proc p \<longrightarrow> (if rc = 0 then files w' p = Some (cstr b)
       else files w' p = files w p \<or> (\<exists>n. files w' p = Some (take n (cstr b)))))"
  proof (cases "f = 0")
    case True
    then show ?thesis using assms f k by (auto simp: io_write_text_def)
  next
    case False
    define st where "st = \<lparr>o_ptr = f, o_path = p, o_buf = []\<rparr>"
    obtain n st1 w2 where wr: "fwrite E (cstr b) st w1 = (n, st1, w2)" by (metis prod_cases3)
    obtain c w3 where cl: "fclose_write E st1 w2 = (c, w3)" by force
    note kw = fwrite_keeps [OF wr]
    have h1: "held w1 = Some (add_mset (RFile, f) H)" using k(5) assms(2) False by simp
    then have h2: "held w2 = Some (add_mset (RFile, o_ptr st1) H)"
      using kw(3,7) by (simp add: st_def)
    note kc = fclose_write_keeps [OF cl h2]
    have st1: "o_path st1 = p" "o_buf st1 = take n (cstr b)"
      using kw(4,5) by (simp_all add: st_def)
    have res: "w' = w3" "rc = (if n \<noteq> length (cstr b) \<or> c \<noteq> 0 then -1 else 0)"
      using assms(1) f wr cl False by (auto simp: io_write_text_def st_def Let_def split: if_splits)
    have other: "q \<noteq> p \<longrightarrow> files w3 q = files w q"
      using kc(4) kw(1) k(3,4) False st1 flush_file_other [of q p] by (cases "is_proc p") auto
    have new: "\<exists>m. files w3 p = Some (take m (cstr b)) \<and> (rc = 0 \<longrightarrow> m = length (cstr b))" if "\<not> is_proc p"
    proof -
      have "files w2 p = Some []" using kw(1) k(3) False that by simp
      then show ?thesis
        using kc(4) res(2) kw(6) that st1 flush_file_new [OF that, of "files w2"]
        by (auto split: if_splits)
    qed
    show ?thesis
      using kc(1,2) kw(2) k(1) res other new by (auto intro: quiet_trans split: if_splits)
  qed
  then show "quiet w w'" "held w' = Some H" "rc \<in> {-1, 0}" "q \<noteq> p \<Longrightarrow> files w' q = files w q"
    "rc = 0 \<Longrightarrow> \<not> is_proc p \<Longrightarrow> files w' p = Some (cstr b)"
    "rc \<noteq> 0 \<Longrightarrow> \<not> is_proc p \<Longrightarrow> files w' p = files w p \<or> (\<exists>n. files w' p = Some (take n (cstr b)))"
    by (auto split: if_splits)
qed


text \<open>The same facts as walking rules.\<close>

lemma wp_file_exists_let:
  assumes "held w = Some H"
    and "\<And>b w'. held w' = Some H \<Longrightarrow> files w' = files w \<Longrightarrow> err w' = err w \<Longrightarrow> out w' = out w \<Longrightarrow>
      wp U (f b w') Q"
  shows "wp U (let (b, w') = io_file_exists E p w in f b w') Q"
  using io_file_exists_keeps [of E p w, OF _ assms(1)] assms(2)
  by (cases "io_file_exists E p w") (simp add: quiet_def)

lemma wp_read_file_let:
  assumes "held w = Some H"
    and "\<And>rc txt w'. held w' = Some H \<Longrightarrow> files w' = files w \<Longrightarrow> err w' = err w \<Longrightarrow> out w' = out w \<Longrightarrow>
      (rc = 0 \<Longrightarrow> files w p = Some txt) \<Longrightarrow> (rc = 0 \<Longrightarrow> length txt < n - 1) \<Longrightarrow> wp U (f rc txt w') Q"
  shows "wp U (let (rc, txt, w') = io_read_file_into E (Some p) b n w in f rc txt w') Q"
  using io_read_file_into_keeps [of E "Some p" b n w, OF _ assms(1)] assms(2)
  by (cases "io_read_file_into E (Some p) b n w") (fastforce simp: quiet_def)

lemma wp_write_text_let:
  assumes "held w = Some H"
    and "\<And>w'. held w' = Some H \<Longrightarrow> err w' = err w \<Longrightarrow> out w' = out w \<Longrightarrow> (\<And>q. q \<noteq> p \<Longrightarrow> files w' q = files w q) \<Longrightarrow>
      (\<not> is_proc p \<Longrightarrow> files w' p = Some (cstr b)) \<Longrightarrow> wp U (f 0 w') Q"
    and "\<And>w'. held w' = Some H \<Longrightarrow> err w' = err w \<Longrightarrow> out w' = out w \<Longrightarrow> (\<And>q. q \<noteq> p \<Longrightarrow> files w' q = files w q) \<Longrightarrow>
      wp U (f (-1) w') Q"
  shows "wp U (let (rc, w') = io_write_text E (Some p) (Some b) w in f rc w') Q"
proof (cases "io_write_text E (Some p) (Some b) w")
  case (Pair rc w')
  note k = io_write_text_keeps [OF Pair assms(1)]
  from k(3) consider "rc = 0" | "rc = -1" by auto
  then show ?thesis
  proof cases
    case 1
    have "wp U (f 0 w') Q"
      by (rule assms(2)) (use k 1 in \<open>simp_all add: quiet_def\<close>)
    then show ?thesis using Pair 1 by simp
  next
    case 2
    have "wp U (f (-1) w') Q"
      by (rule assms(3)) (use k 2 in \<open>simp_all add: quiet_def\<close>)
    then show ?thesis using Pair 2 by simp
  qed
qed


section \<open>Without faults\<close>

text \<open>An outside on which no stdio call fails and every write is accepted as a whole.\<close>

definition stdio_works :: "'k env \<Rightarrow> bool" where
  "stdio_works E \<longleftrightarrow>
     (\<forall>k p m. outp (fst (answer E (CFopen p m) k)) \<noteq> 0) \<and>
     (\<forall>k p n. 0 \<le> rv (fst (answer E (CFread p n) k))) \<and>
     (\<forall>k p s. int (length s) \<le> rv (fst (answer E (CFwrite p s) k))) \<and>
     (\<forall>k p s. 0 \<le> rv (fst (answer E (CFputs p s) k))) \<and>
     (\<forall>k p. rv (fst (answer E (CFclose p) k)) = 0)"

lemma stdio_worksD:
  assumes "stdio_works E" "answer E c k = (r, k')"
  shows "c = CFopen p m \<Longrightarrow> outp r \<noteq> 0" "c = CFread f n \<Longrightarrow> 0 \<le> rv r"
    "c = CFwrite f s \<Longrightarrow> int (length s) \<le> rv r" "c = CFputs f s \<Longrightarrow> 0 \<le> rv r"
    "c = CFclose f \<Longrightarrow> rv r = 0"
proof -
  have r: "r = fst (answer E c k)" using assms(2) by simp
  show "c = CFopen p m \<Longrightarrow> outp r \<noteq> 0" "c = CFread f n \<Longrightarrow> 0 \<le> rv r"
    "c = CFwrite f s \<Longrightarrow> int (length s) \<le> rv r" "c = CFputs f s \<Longrightarrow> 0 \<le> rv r"
    "c = CFclose f \<Longrightarrow> rv r = 0"
    using assms(1) unfolding r stdio_works_def by simp_all
qed

lemma stdio_works_ext:
  assumes "stdio_works E" "ext E c w = (r, w')"
  shows "c = CFread p n \<Longrightarrow> 0 \<le> rv r" "c = CFwrite p s \<Longrightarrow> int (length s) \<le> rv r"
    "c = CFputs p s \<Longrightarrow> 0 \<le> rv r" "c = CFclose p \<Longrightarrow> rv r = 0"
proof -
  have "answer E c (kern w) = (r, kern w')"
    using assms(2) by (auto simp: ext_def split: prod.splits)
  from stdio_worksD [OF assms(1) this]
  show "c = CFread p n \<Longrightarrow> 0 \<le> rv r" "c = CFwrite p s \<Longrightarrow> int (length s) \<le> rv r"
    "c = CFputs p s \<Longrightarrow> 0 \<le> rv r" "c = CFclose p \<Longrightarrow> rv r = 0" by blast+
qed

lemma fopen_read_works:
  "stdio_works E \<Longrightarrow> fopen_read E p m w = (f, w') \<Longrightarrow> f = 0 \<longleftrightarrow> files w p = None"
  using stdio_worksD(1) [where E = E and c = "CFopen p m" and k = "kern w" and p = p and m = m]
  by (cases "answer E (CFopen p m) (kern w)") (auto simp: fopen_read_def Let_def split: if_splits)

lemma fopen_write_works:
  "stdio_works E \<Longrightarrow> fopen_write E p m w = (f, e, w') \<Longrightarrow> \<not> is_proc p \<Longrightarrow> f \<noteq> 0"
  using stdio_worksD(1) [where E = E and c = "CFopen p m" and k = "kern w" and p = p and m = m]
  by (cases "answer E (CFopen p m) (kern w)") (auto simp: fopen_write_def Let_def split: if_splits)

lemma io_file_exists_works:
  assumes "stdio_works E" "io_file_exists E (Some p) w = (b, w')"
  shows "b \<longleftrightarrow> files w p \<noteq> None"
proof -
  obtain f w1 where f: "fopen_read E p ''r'' w = (f, w1)" by force
  from assms(2) f fopen_read_works [OF assms(1) f] show ?thesis
    by (auto simp: io_file_exists_def Let_def split: if_splits)
qed

lemma fread_works:
  "stdio_works E \<Longrightarrow> fread E n st w = (bs, st', w') \<Longrightarrow> \<not> i_err st \<Longrightarrow> \<not> i_err st'"
  using stdio_works_ext(1) [of E "CFread (i_ptr st) n" w]
  by (force simp: fread_def Let_def split: prod.splits if_splits)

lemma read_loop_works:
  assumes "stdio_works E" "read_loop E cap st buf w = (fine, got, st', w')" "\<not> i_err st"
  shows "fine"
  using assms
proof (induction E cap st buf w rule: read_loop.induct)
  case (1 E cap st buf w)
  show ?case
  proof (cases "length buf < cap")
    case False
    then show ?thesis using "1.prems" by (simp add: read_loop.simps [of E cap st buf])
  next
    case True
    obtain bs st1 w1 where f: "fread E (cap - length buf) st w = (bs, st1, w1)"
      by (metis prod_cases3)
    have ne: "\<not> i_err st1" by (rule fread_works [OF "1.prems"(1) f "1.prems"(3)])
    note unf = "1.prems"(2) [unfolded read_loop.simps [of E cap st buf]]
    show ?thesis
    proof (cases "bs = []")
      case nil: True
      have "i_eof st1 \<or> i_err st1"
        by (rule fread_nothing [where n = "cap - length buf"]) (use f nil True in auto)
      with ne unf True f nil show ?thesis by (auto split: if_splits)
    next
      case False
      with unf True f have "read_loop E cap st1 (buf @ bs) w1 = (fine, got, st', w')" by simp
      from "1.IH"(2) [OF True f [symmetric] refl False "1.prems"(1) this ne] show ?thesis .
    qed
  qed
qed

text \<open>Then the read succeeds exactly on files that leave a byte of the reserved space unused.\<close>

lemma io_read_file_into_works:
  assumes "stdio_works E" "files w p = Some txt" "0 < n"
    "io_read_file_into E (Some p) (Some b) n w = (rc, got, w')"
  shows "rc = (if length txt < n - 1 then 0 else 1)" "got = take (n - 1) txt"
proof -
  obtain f w1 where f: "fopen_read E p ''rb'' w = (f, w1)" by force
  note k = fopen_read_keeps [OF f]
  have f0: "f \<noteq> 0" using fopen_read_works [OF assms(1) f] assms(2) by simp
  define st where "st = \<lparr>i_ptr = f, i_rest = txt, i_eof = False, i_err = False\<rparr>"
  obtain fine total' st' w2 where l: "read_loop E (n - 1) st [] w1 = (fine, total', st', w2)"
    by (metis prod_cases4)
  have fine: fine
    by (rule read_loop_works [OF assms(1) l]) (simp add: st_def)
  from read_loop_keeps [OF l] have kl: "length total' \<le> n - 1" "txt = total' @ i_rest st'"
    "i_eof st' \<longrightarrow> i_rest st' = [] \<and> length total' < n - 1" "i_eof st' \<or> length total' = n - 1"
    using fine by (simp_all add: st_def)
  have res: "got = total'" "rc = (if \<not> i_eof st' \<and> length total' = n - 1 then 1 else 0)"
    using assms(2-4) f f0 l fine k(1)
    by (auto simp: io_read_file_into_def st_def Let_def split: if_splits)
  show "rc = (if length txt < n - 1 then 0 else 1)" "got = take (n - 1) txt"
    using kl res by auto
qed

lemma io_write_text_works:
  assumes "stdio_works E" "\<not> is_proc p" "io_write_text E (Some p) (Some b) w = (rc, w')"
  shows "rc = 0"
proof -
  obtain f e w1 where f: "fopen_write E p ''wb'' w = (f, e, w1)" by (metis prod_cases3)
  obtain n st1 w2 where wr: "fwrite E (cstr b) \<lparr>o_ptr = f, o_path = p, o_buf = []\<rparr> w1 = (n, st1, w2)"
    by (metis prod_cases3)
  obtain c w3 where cl: "fclose_write E st1 w2 = (c, w3)" by force
  have "n = length (cstr b)"
    using wr stdio_works_ext(2) [OF assms(1)]
    by (force simp: fwrite_def Let_def split: prod.splits)
  moreover have "c = 0"
    using cl stdio_works_ext(4) [OF assms(1)]
    by (force simp: fclose_write_def split: prod.splits if_splits)
  ultimately show ?thesis
    using assms(3) f wr cl fopen_write_works [OF assms(1) f assms(2)]
    by (simp add: io_write_text_def Let_def)
qed

end
