(* ===== verification/Demo.thy ===== *)
theory Demo
  imports Io
begin

text \<open>
  Concrete outsides, on which the hypotheses of the development's theorems are discharged: one
  that grants everything, and variants of it that fail in one respect. The outside state is the
  number of calls made so far, and every object handed out gets a number of its own.
\<close>

fun demo_rv :: "call \<Rightarrow> nat \<Rightarrow> int" where
  "demo_rv (CFwrite p s) k = int (length s)"
| "demo_rv (CIfNameToIndex s) k = 7"
| "demo_rv (CGetpid) k = 4711"
| "demo_rv (CMnlRecvfrom p) k = 36"
| "demo_rv (COpen s) k = int k + 1"
| "demo_rv c k = 0"

definition demo :: "nat env" where
  "demo = \<lparr>answer = (\<lambda>c k. (\<lparr>rv = demo_rv c k, outp = k + 1, errno = 0\<rparr>, k + 1)),
           nl_geterror = (\<lambda>e. ''error''), strerror = (\<lambda>e. ''error'')\<rparr>"

definition demo_world :: "nat world" where
  "demo_world = \<lparr>kern = 0, files = (\<lambda>p. None), err = zero_err, out = [], json_refs = Some {#}, trace = []\<rparr>"

text \<open>A variant: the calls \<open>c\<close> with \<open>bad c\<close> return \<open>r\<close> and no object.\<close>

definition demo_but :: "(call \<Rightarrow> bool) \<Rightarrow> int \<Rightarrow> nat env" where
  "demo_but bad r = demo\<lparr>answer := (\<lambda>c k. if bad c then (\<lparr>rv = r, outp = 0, errno = 5\<rparr>, k + 1) else answer demo c k)\<rparr>"

lemma demo_works [simp]: "out_params_filled demo" "stdio_works demo"
  by (simp_all add: out_params_filled_def stdio_works_def demo_def)

lemma demo_world_simps [simp]:
  "held demo_world = Some {#}" "files demo_world = (\<lambda>p. None)" "err demo_world = zero_err"
  "out demo_world = []" "json_refs demo_world = Some {#}" "kern demo_world = 0" "trace demo_world = []"
  by (simp_all add: demo_world_def held_def)

lemma out_params_filled_demo_but: "r < 0 \<Longrightarrow> out_params_filled (demo_but bad r)"
  by (simp add: out_params_filled_def demo_def demo_but_def)

text \<open>The two CIDRs of the configuration in the runs below.\<close>

definition demo_node :: string where "demo_node = ''10.244.1.0/24''"

definition demo_cluster :: string where "demo_cluster = ''10.244.0.0/16''"

definition demo_addr :: in_addr where "demo_addr = In_addr (word_of_octets 10 244 1 0)"

lemma digit_chars:
  "digit_char 0 = CHR ''0''" "digit_char 1 = CHR ''1''" "digit_char 2 = CHR ''2''" "digit_char 3 = CHR ''3''"
  "digit_char 4 = CHR ''4''" "digit_char 5 = CHR ''5''" "digit_char 6 = CHR ''6''" "digit_char 7 = CHR ''7''"
  "digit_char 8 = CHR ''8''" "digit_char 9 = CHR ''9''"
  by code_simp+

lemma demo_cidr_texts:
  "demo_node = cidr_text demo_addr 24"
  "demo_cluster = cidr_text (In_addr (word_of_octets 10 244 0 0)) 16"
  by (simp_all add: demo_node_def demo_cluster_def demo_addr_def cidr_text_def dotted_def
      octets_of_word_of_octets dec_int_def dec_nat.simps digit_chars del: One_nat_def)

lemma demo_cidrs:
  "util_cidr_parse demo_node = ret (Inr (demo_addr, 24))"
  "util_cidr_parse demo_cluster = ret (Inr (In_addr (word_of_octets 10 244 0 0), 16))"
  by (simp_all add: demo_cidr_texts int_range_def)

lemma demo_host [simp]: "host_addr demo_addr = 0x0AF40100"
  by (simp add: demo_addr_def host_addr_def ntohl_def octets_of_word_of_octets del: One_nat_def)
    (simp add: word_of_octets_def)

end
