(* ===== verification/Net.thy ===== *)
theory Net
  imports Net_Utils Nft Demo
begin

text \<open>
  \<open>net.c\<close>: attaching a container to the cluster's layer-2 domain and detaching it. The names of the
  interfaces are computed from the container's identity.
\<close>

definition HOST_BRIDGE_NAME :: string where "HOST_BRIDGE_NAME = ''brsknf''"

definition HOST_VXLAN_NAME :: string where "HOST_VXLAN_NAME = ''vxsknf''"

definition HOST_VXLAN_VNI_ID :: int where "HOST_VXLAN_VNI_ID = 100"

definition HOST_VXLAN_GROUP :: string where "HOST_VXLAN_GROUP = ''239.1.1.100''"


section \<open>Names\<close>

text \<open>The three texts are C pointers; hashing NULL dereferences it.\<close>

definition hash_of :: "string option \<Rightarrow> 32 word exec" where
  "hash_of s = exec_bind (deref s) (\<lambda>s. ret (util_fnv1a32 s))"

definition generate_deterministic_host_if_name ::
  "string option \<Rightarrow> string option \<Rightarrow> string option \<Rightarrow> string exec" where
  "generate_deterministic_host_if_name container_netns_name container_netif_name container_id =
     (let h = 2166136261 in
      exec_bind (hash_of container_netns_name) (\<lambda>x. let h = h XOR x in
      exec_bind (hash_of container_netif_name) (\<lambda>x. let h = h XOR x in
      exec_bind (hash_of container_id) (\<lambda>x. let h = h XOR x in
      ret (snprintf 16 ''sknf%08x'' [AHex h])))))"

definition generate_deterministic_container_if_temporary_name ::
  "string option \<Rightarrow> string option \<Rightarrow> string option \<Rightarrow> string exec" where
  "generate_deterministic_container_if_temporary_name container_netns_name container_netif_name container_id =
     (let h = 2166136261 in
      exec_bind (hash_of container_netns_name) (\<lambda>x. let h = h XOR x in
      exec_bind (hash_of container_netif_name) (\<lambda>x. let h = h XOR x in
      exec_bind (hash_of container_id) (\<lambda>x. let h = h XOR x in
      ret (snprintf 16 ''tmp%08x'' [AHex h])))))"


section \<open>configure_container_veth\<close>

text \<open>
  The variables \<open>sk\<close>, \<open>link\<close> and \<open>raddr\<close> are declared in the middle of the body, so a jump to \<open>out\<close>
  from above a declaration leaves the variable without a value. Such a variable is \<open>None\<close> at the
  label, and testing it there is undefined.
\<close>

definition init_var :: "'a option \<Rightarrow> 'a exec" where
  "init_var v = (case v of None \<Rightarrow> stuck UninitRead | Some x \<Rightarrow> ret x)"

definition configure_container_veth_out ::
  "'k env \<Rightarrow> bool \<Rightarrow> int \<Rightarrow> ptr option \<Rightarrow> ptr option \<Rightarrow> ptr option \<Rightarrow> int \<Rightarrow> 'k op" where
  "configure_container_veth_out E switched_ns main_netns_fd raddr link sk rc w =
     (let w = (if switched_ns then run E (CSetns main_netns_fd) w else w) in
      exec_bind (init_var raddr) (\<lambda>raddr.
        let w = release_if E RAddr raddr w in
        exec_bind (init_var link) (\<lambda>link.
          let w = release_if E RLink link w in
          exec_bind (init_var sk) (\<lambda>sk.
            let w = release_if E RSock sk w;
                w = (if 0 \<le> main_netns_fd then run E (CRelease RFd (nat main_netns_fd)) w else w)
            in ret (rc, w)))))"

definition configure_container_veth :: "'k env \<Rightarrow> int \<Rightarrow> string \<Rightarrow> string \<Rightarrow> string \<Rightarrow> 'k op" where
  "configure_container_veth E container_netns_fd container_veth_name container_veth_cidr bridge_cidr w =
     (let (r, w) = ext E (COpen ''/proc/self/ns/net'') w;
          main_netns_fd = rv r
      in
      if main_netns_fd < 0 then
        configure_container_veth_out E False main_netns_fd None None None 1
          (set_err (errf_of ''Failure opening main net namespace fd'' ''%s'' [AStr (strerror E (errno r))]) w)
      else
        let (r, w) = ext E (CSetns container_netns_fd) w in
        if rv r \<noteq> 0 then
          configure_container_veth_out E False main_netns_fd None None None 1
            (set_err (errf_of (''Failure associating thread to container'' @ [CHR 0x27] @ ''s net ns'') ''%s''
                        [AStr (strerror E (errno r))]) w)
        else
          let (r, w) = ext E (CAlloc RSock ''nl_socket_alloc'') w;
              sk = outp r
          in
          if sk = 0 then
            configure_container_veth_out E True main_netns_fd None None (Some 0) 1
              (set_err (err_of ''Error allocating netlink socket'' []) w)
          else
            let (r, w) = ext E (CNlConnect sk NETLINK_ROUTE) w in
            if rv r < 0 then
              configure_container_veth_out E True main_netns_fd None None (Some sk) 1
                (set_err (errf_of ''Error creating/connecting to netlink socket'' ''%s''
                            [AStr (nl_geterror E (rv r))]) w)
            else
              let (r, w) = ext E (CIfNameToIndex container_veth_name) w;
                  ifidx = rv r
              in
              if ifidx = 0 then
                configure_container_veth_out E True main_netns_fd None None (Some sk) 1
                  (set_err (errf_of ''Failed to resolve ifindex for container veth'' ''%s''
                              [AStr container_veth_name]) w)
              else
                let (r, w) = ext E (CLinkGetKernel sk ifidx None) w in
                if rv r < 0 then
                  configure_container_veth_out E True main_netns_fd None (Some 0) (Some sk) 1
                    (set_err (errf_of ''Failure filling rtnl_link information from kernel'' ''%s''
                                [AStr (nl_geterror E (rv r))]) w)
                else
                  let link = outp r in
                  exec_bind (nu_rtnl_addr_build E container_veth_cidr ifidx w) (\<lambda>(rc, raddr, w).
                    if rc \<noteq> 0 then
                      configure_container_veth_out E True main_netns_fd (Some raddr) (Some link) (Some sk) 1 w
                    else
                      let (r, w) = ext E (CAddrAdd sk raddr [NLM_F_CREATE, NLM_F_ACK]) w in
                      if rv r < 0 then
                        configure_container_veth_out E True main_netns_fd (Some raddr) (Some link) (Some sk) 1
                          (set_err (errf_of (''Failed to assign cidr to container'' @ [CHR 0x27] @ ''s veth interface'')
                                      ''%s'' [AStr (nl_geterror E (rv r))]) w)
                      else
                        exec_bind (nu_add_routing_rule E sk ''0.0.0.0/0'' bridge_cidr ifidx w) (\<lambda>(rc, w).
                          if rc \<noteq> 0 then
                            configure_container_veth_out E True main_netns_fd (Some raddr) (Some link) (Some sk) 1 w
                          else
                            let (r, w) = ext E (CSetns main_netns_fd) w in
                            if rv r \<noteq> 0 then
                              configure_container_veth_out E True main_netns_fd (Some raddr) (Some link) (Some sk) 1
                                (set_err (errf_of ''Failure re-associating thread to main net ns'' ''%s''
                                            [AStr (strerror E (errno r))]) w)
                            else
                              configure_container_veth_out E False main_netns_fd (Some raddr) (Some link) (Some sk) 0 w)))"


section \<open>Setting up the interfaces\<close>

definition setup_veth ::
  "'k env \<Rightarrow> ptr \<Rightarrow> int \<Rightarrow> string \<Rightarrow> string \<Rightarrow> string \<Rightarrow> string \<Rightarrow> string \<Rightarrow> 'k op" where
  "setup_veth E sk container_netns_fd container_veth_name container_veth_tmp_name host_veth_name
       container_veth_cidr bridge_cidr w =
     exec_bind (nu_create_veth E sk container_netns_fd container_veth_name container_veth_tmp_name host_veth_name w)
       (\<lambda>(rc, w). if rc \<noteq> 0 then ret (1, w) else
     exec_bind (configure_container_veth E container_netns_fd container_veth_name container_veth_cidr bridge_cidr w)
       (\<lambda>(rc, w). if rc \<noteq> 0 then ret (1, w) else
     exec_bind (nu_enable_veth E sk host_veth_name w)
       (\<lambda>(rc, w). if rc \<noteq> 0 then ret (1, w) else ret (0, w))))"

definition attach_ifs_to_bridge_out :: "'k env \<Rightarrow> ptr \<Rightarrow> ptr \<Rightarrow> ptr \<Rightarrow> ptr \<Rightarrow> int \<Rightarrow> 'k op" where
  "attach_ifs_to_bridge_out E changes_link veth_link vxlan_link bridge_link rc w =
     (let w = release_if E RLink changes_link w;
          w = release_if E RLink veth_link w;
          w = release_if E RLink vxlan_link w;
          w = release_if E RLink bridge_link w
      in ret (rc, w))"

definition attach_ifs_to_bridge :: "'k env \<Rightarrow> ptr \<Rightarrow> string \<Rightarrow> 'k op" where
  "attach_ifs_to_bridge E sk host_veth_name w =
     (let (r, w) = ext E (CLinkGetKernel sk 0 (Some HOST_BRIDGE_NAME)) w in
      if rv r < 0 then
        attach_ifs_to_bridge_out E 0 0 0 0 1
          (set_err (errf_of ''Failure filling bridge information from kernel'' ''%s''
                      [AStr (nl_geterror E (rv r))]) w)
      else
        let bridge_link = outp r;
            (r, w) = ext E (CLinkGetKernel sk 0 (Some HOST_VXLAN_NAME)) w
        in
        if rv r < 0 then
          attach_ifs_to_bridge_out E 0 0 0 bridge_link 1
            (set_err (errf_of ''Failure filling vxlan information from kernel'' ''%s''
                        [AStr (nl_geterror E (rv r))]) w)
        else
          let vxlan_link = outp r;
              (r, w) = ext E (CLinkGetKernel sk 0 (Some host_veth_name)) w
          in
          if rv r < 0 then
            attach_ifs_to_bridge_out E 0 0 vxlan_link bridge_link 1
              (set_err (errf_of (''Failure filling host'' @ [CHR 0x27] @ ''s veth information from kernel'') ''%s''
                          [AStr (nl_geterror E (rv r))]) w)
          else
            let veth_link = outp r;
                (r, w) = ext E (CAlloc RLink ''rtnl_link_alloc'') w;
                changes_link = outp r
            in
            if changes_link = 0 then
              attach_ifs_to_bridge_out E 0 veth_link vxlan_link bridge_link 1
                (set_err (err_of ''Failure allocating rtnl_link'' []) w)
            else
              let (r, w) = ext E (CIfNameToIndex HOST_VXLAN_NAME) w;
                  w = run E (CSet RLink changes_link ''rtnl_link_set_ifindex'' (VInt (rv r))) w;
                  (r, w) = ext E (CLinkGetIfindex bridge_link) w;
                  w = run E (CSet RLink changes_link ''rtnl_link_set_master'' (VInt (rv r))) w;
                  (r, w) = ext E (CLinkChange sk vxlan_link changes_link 0) w
              in
              if rv r < 0 then
                attach_ifs_to_bridge_out E changes_link veth_link vxlan_link bridge_link 1
                  (set_err (errf_of ''Failure enslaving vxlan to bridge'' ''%s''
                              [AStr (nl_geterror E (rv r))]) w)
              else
                let (r, w) = ext E (CIfNameToIndex host_veth_name) w;
                    w = run E (CSet RLink changes_link ''rtnl_link_set_ifindex'' (VInt (rv r))) w;
                    (r, w) = ext E (CLinkGetIfindex bridge_link) w;
                    w = run E (CSet RLink changes_link ''rtnl_link_set_master'' (VInt (rv r))) w;
                    (r, w) = ext E (CLinkChange sk veth_link changes_link 0) w
                in
                if rv r < 0 then
                  attach_ifs_to_bridge_out E changes_link veth_link vxlan_link bridge_link 1
                    (set_err (errf_of (''Failure enslaving host'' @ [CHR 0x27] @ ''s veth to bridge'') ''%s''
                                [AStr (nl_geterror E (rv r))]) w)
                else attach_ifs_to_bridge_out E changes_link veth_link vxlan_link bridge_link 0 w)"


section \<open>Attaching and detaching\<close>

definition net_attach_container_out :: "'k env \<Rightarrow> int \<Rightarrow> ptr \<Rightarrow> int \<Rightarrow> 'k op" where
  "net_attach_container_out E container_netns_fd sk rc w =
     (let w = (if 0 \<le> container_netns_fd then run E (CRelease RFd (nat container_netns_fd)) w else w);
          w = release_if E RSock sk w
      in ret (rc, w))"

definition net_attach_container ::
  "'k env \<Rightarrow> string \<Rightarrow> string \<Rightarrow> string \<Rightarrow> string \<Rightarrow> string \<Rightarrow> string \<Rightarrow> 'k op" where
  "net_attach_container E container_netns_name container_netif_name container_netif_cidr container_id
       bridge_cidr host_physical_if w =
     (let (r, w) = ext E (CAlloc RSock ''nl_socket_alloc'') w;
          sk = outp r
      in
      if sk = 0 then
        net_attach_container_out E (-1) 0 1 (set_err (err_of ''Error allocating netlink socket'' []) w)
      else
        let (r, w) = ext E (CNlConnect sk NETLINK_ROUTE) w in
        if rv r < 0 then
          net_attach_container_out E (-1) sk 1
            (set_err (errf_of ''Error creating/connecting to netlink socket'' ''%s''
                        [AStr (nl_geterror E (rv r))]) w)
        else
          let (r, w) = ext E (COpen container_netns_name) w;
              container_netns_fd = rv r
          in
          if container_netns_fd < 0 then
            net_attach_container_out E container_netns_fd sk 1
              (set_err (errf_of ''Failure opening target net namespace fd'' ''%s''
                          [AStr (strerror E (errno r))]) w)
          else
            exec_bind (generate_deterministic_host_if_name
                (Some container_netns_name) (Some container_netif_name) (Some container_id)) (\<lambda>host_if_name.
            exec_bind (generate_deterministic_container_if_temporary_name
                (Some container_netns_name) (Some container_netif_name) (Some container_id)) (\<lambda>container_if_tmp_name.
            exec_bind (nu_create_bridge E sk bridge_cidr HOST_BRIDGE_NAME w) (\<lambda>(rc, w).
              if rc \<noteq> 0 then net_attach_container_out E container_netns_fd sk 1 w else
            exec_bind (nu_create_vxlan E sk host_physical_if HOST_VXLAN_NAME HOST_VXLAN_GROUP HOST_VXLAN_VNI_ID w)
                (\<lambda>(rc, w).
              if rc \<noteq> 0 then net_attach_container_out E container_netns_fd sk 1 w else
            exec_bind (setup_veth E sk container_netns_fd container_netif_name container_if_tmp_name
                host_if_name container_netif_cidr bridge_cidr w) (\<lambda>(rc, w).
              if rc \<noteq> 0 then net_attach_container_out E container_netns_fd sk 1 w else
            exec_bind (attach_ifs_to_bridge E sk host_if_name w) (\<lambda>(rc, w).
              if rc \<noteq> 0 then net_attach_container_out E container_netns_fd sk 1 w else
            exec_bind (nft_nat_rule E host_physical_if container_netif_cidr w) (\<lambda>(rc, w).
              if rc \<noteq> 0 then net_attach_container_out E container_netns_fd sk 1 w else
            net_attach_container_out E container_netns_fd sk 0 w))))))))"

definition net_detach_container_out :: "'k env \<Rightarrow> ptr \<Rightarrow> int \<Rightarrow> 'k op" where
  "net_detach_container_out E sk rc w =
     (let w = release_if E RSock sk w in ret (rc, w))"

definition net_detach_container ::
  "'k env \<Rightarrow> string option \<Rightarrow> string option \<Rightarrow> string option \<Rightarrow> 'k op" where
  "net_detach_container E container_netns_name container_netif_name container_id w =
     (let (r, w) = ext E (CAlloc RSock ''nl_socket_alloc'') w;
          sk = outp r
      in
      if sk = 0 then
        net_detach_container_out E 0 1 (set_err (err_of ''Error allocating netlink socket'' []) w)
      else
        let (r, w) = ext E (CNlConnect sk NETLINK_ROUTE) w in
        if rv r < 0 then
          net_detach_container_out E sk 1
            (set_err (errf_of ''Error creating/connecting to netlink socket'' ''%s''
                        [AStr (nl_geterror E (rv r))]) w)
        else
          exec_bind (generate_deterministic_host_if_name container_netns_name container_netif_name container_id)
            (\<lambda>host_veth_name.
          exec_bind (nu_delete_if E sk host_veth_name w) (\<lambda>(rc, w).
            if rc \<noteq> 0 then net_detach_container_out E sk 1 w
            else net_detach_container_out E sk 0 w)))"


section \<open>The contracts\<close>

lemma wp_open_let:
  assumes "held w = Some H"
    and "\<And>r fd w'. rv r = fd \<Longrightarrow> fd < 0 \<Longrightarrow> held w' = Some H \<Longrightarrow> trace w' = trace w @ [(COpen p, r)] \<Longrightarrow>
      files w' = files w \<Longrightarrow> err w' = err w \<Longrightarrow> out w' = out w \<Longrightarrow> wp U (y r fd w') Q"
    and "\<And>r fd w'. rv r = fd \<Longrightarrow> 0 \<le> fd \<Longrightarrow> held w' = Some (add_mset (RFd, nat fd) H) \<Longrightarrow>
      trace w' = trace w @ [(COpen p, r)] \<Longrightarrow> files w' = files w \<Longrightarrow> err w' = err w \<Longrightarrow> out w' = out w \<Longrightarrow>
      wp U (z r fd w') Q"
  shows "wp U (let (r, w') = ext E (COpen p) w; fd = rv r in if fd < 0 then y r fd w' else z r fd w') Q"
  unfolding Let_def by (rule wp_ext [OF assms(1)]) (use assms in auto)

lemma wp_close_let:
  assumes "0 \<le> fd" "held w = Some H" "(RFd, nat fd) \<in># H"
    and "\<And>w'. held w' = Some (H - {#(RFd, nat fd)#}) \<Longrightarrow> files w' = files w \<Longrightarrow> err w' = err w \<Longrightarrow> out w' = out w \<Longrightarrow>
      namespaces w' = namespaces w \<Longrightarrow> wp U (f w') Q"
  shows "wp U (let w' = (if 0 \<le> fd then run E (CRelease RFd (nat fd)) w else w) in f w') Q"
  using wp_run_let [OF assms(2), of "CRelease RFd (nat fd)" U f Q E] assms(1,3,4)
  by (simp add: ns_step_def)

lemma wp_not_open_let:
  "(fd :: int) < 0 \<Longrightarrow> wp U (f w) Q \<Longrightarrow> wp U (let w' = (if 0 \<le> fd then x else w) in f w') Q"
  by simp

lemma wp_no_fd_let: "wp U (f w) Q \<Longrightarrow> wp U (let w' = (if 0 \<le> (-1 :: int) then x else w) in f w') Q"
  by simp

lemma wp_switch_back_let:
  assumes "held w = Some H" "(RFd, nat fd) \<in># H"
    and "\<And>w'. held w' = Some H \<Longrightarrow> files w' = files w \<Longrightarrow> err w' = err w \<Longrightarrow> out w' = out w \<Longrightarrow> wp U (f w') Q"
  shows "wp U (let w' = (if True then run E (CSetns fd) w else w) in f w') Q"
  using wp_run_let [OF assms(1), of "CSetns fd" U f Q E] assms(2,3) by simp

lemma wp_stay_let: "wp U (f w) Q \<Longrightarrow> wp U (let w' = (if False then x else w) in f w') Q"
  by simp

lemma wp_init_var:
  "wp U (f x) Q \<Longrightarrow> wp U (exec_bind (init_var (Some x)) f) Q"
  "U (Some UninitRead) \<Longrightarrow> wp U (exec_bind (init_var None) f) Q"
  by (simp_all add: init_var_def wp_stuck)

text \<open>Where \<open>setns\<close> leads, and that no other call but \<open>open\<close> matters.\<close>

lemma ns_open: "0 \<le> rv r \<Longrightarrow>
    ns_step s (COpen ''/proc/self/ns/net'', r) = (fst s, (snd s)(rv r \<mapsto> fst s))"
  by (simp add: ns_step_def)

lemma fst_ns_open: "fst (ns_step s (COpen path, r)) = fst s"
  by (simp add: ns_step_def)

lemma snd_ns_setns: "snd (ns_step s (CSetns fd, r)) = snd s"
  by (simp add: ns_step_def split: option.split)

lemma fst_ns_setns: "snd s fd = Some n \<Longrightarrow> rv r = 0 \<Longrightarrow> fst (ns_step s (CSetns fd, r)) = n"
  by (simp add: ns_step_def)

definition ns_neutral :: "call \<Rightarrow> bool" where
  "ns_neutral c \<longleftrightarrow> (case c of COpen path \<Rightarrow> False | CSetns fd \<Rightarrow> False | _ \<Rightarrow> True)"

lemma ns_neutral_step: "ns_neutral c \<Longrightarrow> ns_step s (c, r) = s"
  by (auto simp: ns_neutral_def ns_step_def split: call.splits)

lemmas ns_simps = ns_neutral_step ns_open fst_ns_open snd_ns_setns fst_ns_setns

definition uninit_or_long :: "string list \<Rightarrow> ub option \<Rightarrow> bool" where
  "uninit_or_long ss u \<longleftrightarrow> u = Some UninitRead \<or> too_long ss u"

lemma two_held: "(s, p) \<in># H \<Longrightarrow> (t, q) \<in># H \<Longrightarrow> s \<noteq> t \<Longrightarrow> {#(s, p), (t, q)#} \<subseteq># H"
proof -
  assume "(s, p) \<in># H" "(t, q) \<in># H" "s \<noteq> t"
  moreover from this(1) obtain K where K: "H = add_mset (s, p) K" by (metis mset_add)
  ultimately have "(t, q) \<in># K" by auto
  then show ?thesis by (simp add: K)
qed

lemma configure_contract:
  assumes "out_params_filled E" "held w = Some H" "(RFd, nat cfd) \<in># H"
  shows "wp (uninit_or_long [cidr]) (configure_container_veth E cfd ifname cidr bridge w)
    (\<lambda>(rc, w'). clean w H (rc, w') \<and> (rc = 0 \<longrightarrow> netns w' = netns w))"
  unfolding configure_container_veth_def configure_container_veth_out_def
  using assms
  apply -
  apply (rule wp_open_let wp_init_var wp_close_let wp_not_open_let wp_switch_back_let wp_stay_let walk
       wp_nu_rtnl_addr_build add_route.call_local
       | simp (no_asm_simp) add: ns_simps ns_neutral_def uninit_or_long_def too_long_def | erule neverE
       | (rule fst_ns_setns, simp (no_asm_simp) add: ns_simps ns_neutral_def, simp))+
  done

interpretation configure: homing_operation "configure_container_veth E cfd ifname cidr bridge"
  "out_params_filled E" "{#(RFd, nat cfd)#}" "uninit_or_long [cidr]"
  for E cfd ifname cidr bridge
  by unfold_locales (rule wp_mono [OF configure_contract], assumption, assumption, simp, force)+

interpretation setup_veth: homing_operation "setup_veth E sk cfd ifname tmp host cidr bridge"
  "out_params_filled E" "{#(RSock, sk), (RFd, nat cfd)#}" "uninit_or_long [cidr]"
  for E sk cfd ifname tmp host cidr bridge
  by (rule homing_operation_on_two, unfold setup_veth_def)
    (rule walk create_veth.homing.call_homing configure.call_homing enable_veth.homing.call_homing
       two_held | simp (no_asm_simp) | erule neverE)+

interpretation attach_ifs: local_operation "attach_ifs_to_bridge E sk host"
  "out_params_filled E" "{#(RSock, sk)#}" never
  for E sk host
  by (rule local_operation_on_socket, unfold attach_ifs_to_bridge_def attach_ifs_to_bridge_out_def)
    (rule walk | simp (no_asm_simp) add: ns_simps ns_neutral_def)+


text \<open>The names of the interfaces.\<close>

definition if_hash :: "string \<Rightarrow> string \<Rightarrow> string \<Rightarrow> 32 word" where
  "if_hash netns_name netif_name cid =
     ((2166136261 XOR util_fnv1a32 netns_name) XOR util_fnv1a32 netif_name) XOR util_fnv1a32 cid"

lemma snprintf_name:
  "snprintf 16 ''sknf%08x'' [AHex h] = ''sknf'' @ hex8 h"
  "snprintf 16 ''tmp%08x'' [AHex h] = ''tmp'' @ hex8 h"
  by (simp_all add: snprintf_def directive_def)

lemma if_names [simp]:
  "generate_deterministic_host_if_name (Some n) (Some i) (Some c) = ret (''sknf'' @ hex8 (if_hash n i c))"
  "generate_deterministic_container_if_temporary_name (Some n) (Some i) (Some c) = ret (''tmp'' @ hex8 (if_hash n i c))"
  by (simp_all add: generate_deterministic_host_if_name_def generate_deterministic_container_if_temporary_name_def
      hash_of_def Let_def if_hash_def snprintf_name)

lemma wp_names:
  assumes "n = None \<or> i = None \<or> c = None \<Longrightarrow> U (Some NullDeref)"
    and "\<And>s. wp U (f s) Q"
  shows "wp U (exec_bind (generate_deterministic_host_if_name n i c) f) Q"
  using assms(1)
  by (cases n; cases i; cases c)
    (simp_all add: assms(2), simp_all add: generate_deterministic_host_if_name_def hash_of_def Let_def wp_stuck)

definition attach_may :: "string \<Rightarrow> string \<Rightarrow> ub option \<Rightarrow> bool" where
  "attach_may netif_cidr bridge_cidr u \<longleftrightarrow> too_long [bridge_cidr] u \<or> uninit_or_long [netif_cidr] u \<or> nft_may netif_cidr u"

interpretation attach: homing_operation "net_attach_container E n i cidr c bridge phys"
  "out_params_filled E" "{#}" "attach_may cidr bridge"
  for E n i cidr c bridge phys
  by (rule homing_operation_alone, unfold net_attach_container_def net_attach_container_out_def)
    ((rule wp_not_open_let, assumption) | rule wp_no_fd_let wp_open_let wp_close_let walk create_bridge.homing.call_homing create_vxlan.homing.call_homing
       setup_veth.call_homing attach_ifs.homing.call_homing nat_rule.homing.call_homing
       two_held | simp (no_asm_simp) add: attach_may_def ns_simps ns_neutral_def | erule neverE)+

definition null_deref_if :: "bool \<Rightarrow> ub option \<Rightarrow> bool" where
  "null_deref_if b u \<longleftrightarrow> b \<and> u = Some NullDeref"

interpretation detach: local_operation "net_detach_container E n i c"
  "out_params_filled E" "{#}" "null_deref_if (n = None \<or> i = None \<or> c = None)"
  for E n i c
  by (rule local_operation_alone, unfold net_detach_container_def net_detach_container_out_def)
    (rule walk wp_names delete_if.call_local | simp (no_asm_simp) add: null_deref_if_def ns_simps ns_neutral_def | erule neverE)+

section \<open>Properties\<close>

text \<open>
  C10. Attaching a container, whatever the outside answers: every object acquired is given back and
  none is used after it was given back, files and standard output are not touched, and the result is
  0 with \<open>*err\<close> untouched and the thread back in the network namespace it started in, or 1 with an
  error reported. The undefined behaviour that is not excluded is listed by \<open>attach_may\<close>.
\<close>

theorem net_attach_contract:
  assumes "out_params_filled E" "held w = Some H"
  shows "wp (attach_may cidr bridge) (net_attach_container E n i cidr c bridge phys w)
    (\<lambda>(rc, w'). held w' = Some H \<and> files w' = files w \<and> out w' = out w \<and>
       (rc = 0 \<and> err w' = err w \<and> netns w' = netns w \<or> rc = 1 \<and> reported (err w')))"
proof (rule wp_mono)
  show "wp (attach_may cidr bridge) (net_attach_container E n i cidr c bridge phys w)
      (\<lambda>r. clean w H r \<and> (case r of (rc, w') \<Rightarrow> rc = 0 \<longrightarrow> netns w' = netns w))"
    by (rule wp_conj [OF attach.contract attach.homing]) (use assms in simp_all)
qed (auto simp: clean_def)

lemma net_attach_contract_witness:
  "wp (attach_may ''10.244.1.2/16'' ''10.244.1.1/16'')
     (net_attach_container demo ''/var/run/netns/a'' ''eth0'' ''10.244.1.2/16'' ''c1'' ''10.244.1.1/16'' ''enp1s0'' demo_world)
    (\<lambda>(rc, w'). held w' = Some {#} \<and> files w' = (\<lambda>p. None) \<and> out w' = [] \<and>
       (rc = 0 \<and> err w' = zero_err \<and> netns w' = Initial_ns \<or> rc = 1 \<and> reported (err w')))"
  using net_attach_contract [OF demo_works(1), of demo_world "{#}" "''10.244.1.2/16''" "''10.244.1.1/16''"
      "''/var/run/netns/a''" "''eth0''" "''c1''" "''enp1s0''"] by simp

text \<open>
  C13. A failure of one of the first six calls of \<open>configure_container_veth\<close> (opening the own
  namespace, entering the container's, allocating or connecting the socket, finding the interface,
  fetching its link) is never reported: the jump to \<open>out\<close> skips the initialisation of \<open>raddr\<close>, which is
  tested there.
\<close>

theorem configure_early_failure_undefined:
  assumes "(\<forall>k. rv (fst (answer E (COpen ''/proc/self/ns/net'') k)) < 0) \<or>
    (\<forall>k. rv (fst (answer E (CSetns cfd) k)) \<noteq> 0) \<or>
    (\<forall>k. outp (fst (answer E (CAlloc RSock ''nl_socket_alloc'') k)) = 0) \<or>
    (\<forall>sk k. rv (fst (answer E (CNlConnect sk NETLINK_ROUTE) k)) < 0) \<or>
    (\<forall>k. rv (fst (answer E (CIfNameToIndex ifname) k)) = 0) \<or>
    (\<forall>sk i k. rv (fst (answer E (CLinkGetKernel sk i None) k)) < 0)"
  shows "configure_container_veth E cfd ifname cidr bridge w = stuck UninitRead"
proof -
  have ext: "rv (fst (ext E c v)) = rv (fst (answer E c (kern v)))"
    "outp (fst (ext E c v)) = outp (fst (answer E c (kern v)))" for c v
    by (simp_all add: ext_def case_prod_beta)
  from assms show ?thesis
    unfolding configure_container_veth_def configure_container_veth_out_def Let_def
    by (elim disjE) (simp_all add: init_var_def case_prod_beta ext)
qed

lemma configure_early_failure_undefined_witness:
  "configure_container_veth (demo_but (\<lambda>c. c = CIfNameToIndex ''eth0'') 0) 3 ''eth0'' ''10.244.1.2/16'' ''10.244.1.1/16''
     demo_world = stuck UninitRead"
  by (rule configure_early_failure_undefined) (simp add: demo_but_def)

text \<open>
  C36. Two identities that differ in one byte of one of the three texts get different interfaces
  (shown for the container's id; the three texts enter the name alike).
\<close>

theorem if_names_differ:
  assumes "CHR 0x00 \<notin> set (a @ x # b)" "CHR 0x00 \<notin> set (a @ y # b)" "x \<noteq> y"
  shows "generate_deterministic_host_if_name (Some n) (Some i) (Some (a @ x # b)) \<noteq>
    generate_deterministic_host_if_name (Some n) (Some i) (Some (a @ y # b))"
proof -
  have "util_fnv1a32 (a @ x # b) \<noteq> util_fnv1a32 (a @ y # b)"
    using assms by (auto simp: util_fnv1a32_def fnv_loop_foldl cstr_def dest: fnv.one_byte_changes [of _ a x b y, simplified])
  then show ?thesis
    by (auto simp: hex8_inj if_hash_def xor.commute [of _ "util_fnv1a32 _"] dest: xor_cancel)
qed

lemma if_names_differ_witness:
  "generate_deterministic_host_if_name (Some ''/var/run/netns/a'') (Some ''eth0'') (Some ''pod-1'') \<noteq>
    generate_deterministic_host_if_name (Some ''/var/run/netns/a'') (Some ''eth0'') (Some ''pod-2'')"
  using if_names_differ [of "''pod-''" "CHR ''1''" "[]" "CHR ''2''" "''/var/run/netns/a''" "''eth0''"] by simp

text \<open>
  C37. The name does not depend on which text is which: exchanging any two of the three texts names
  the same interface, and two equal texts cancel each other out.
\<close>

theorem if_names_symmetric:
  "generate_deterministic_host_if_name (Some n) (Some i) (Some c) =
     generate_deterministic_host_if_name (Some i) (Some n) (Some c) \<and>
   generate_deterministic_host_if_name (Some n) (Some i) (Some c) =
     generate_deterministic_host_if_name (Some n) (Some c) (Some i) \<and>
   generate_deterministic_host_if_name (Some n) (Some x) (Some x) =
     generate_deterministic_host_if_name (Some n) (Some y) (Some y)"
  by (simp add: hex8_inj if_hash_def ac_simps)

end
