(* ===== verification/Calls.thy ===== *)
theory Calls
  imports Net
begin

text \<open>
  What a successful operation has asked of the outside: for every netlink operation the exchanges
  (calls with their replies) of a run that returned 0, in order, as a predicate on lists of exchanges.
  The replies tie the calls together: the pointer a call is made with is the one an earlier reply
  gave, and every reply the code looks at is the one of success.
\<close>


section \<open>Walking along the trace\<close>

type_synonym exchange = "call \<times> reply"

abbreviation calls :: "'k world \<Rightarrow> call list" where
  "calls w \<equiv> map fst (trace w)"

lemma traced_call:
  assumes "\<And>r w'. trace w' = trace w @ [(c, r)] \<Longrightarrow> wp U (f r w') Q"
  shows "wp U (let (r, w') = ext E c w in f r w') Q"
proof (cases "ext E c w")
  case (Pair r w')
  have "trace w' = trace w @ [(c, r)]" using after_ext [OF Pair] by (simp add: after_def)
  from assms [OF this] show ?thesis by (simp add: Pair)
qed

lemma traced_get:
  assumes "out_params_filled E" "fills_out_param c"
    and "\<And>r w'. rv r < 0 \<Longrightarrow> wp U (y r w') Q"
    and "\<And>r p w'. 0 \<le> rv r \<Longrightarrow> 0 < p \<Longrightarrow> outp r = p \<Longrightarrow> trace w' = trace w @ [(c, r)] \<Longrightarrow> wp U (z r p w') Q"
  shows "wp U (let (r, w') = ext E c w in if rv r < 0 then y r w' else Let (outp r) (\<lambda>p. z r p w')) Q"
proof (cases "ext E c w")
  case (Pair r w')
  have "trace w' = trace w @ [(c, r)]" using after_ext [OF Pair] by (simp add: after_def)
  then show ?thesis
    using assms(3,4) out_params_filledD [OF assms(1) Pair assms(2)] by (simp add: Pair not_less)
qed

lemma traced_alloc:
  assumes "\<And>r w'. wp U (y r 0 w') Q"
    and "\<And>r p w'. 0 < p \<Longrightarrow> outp r = p \<Longrightarrow> trace w' = trace w @ [(CAlloc t g, r)] \<Longrightarrow> wp U (z r p w') Q"
  shows "wp U (let (r, w') = ext E (CAlloc t g) w; p = outp r in if p = 0 then y r p w' else z r p w') Q"
  by (rule traced_call) (use assms in \<open>auto simp: Let_def\<close>)

lemma traced_run:
  assumes "\<And>r w'. trace w' = trace w @ [(c, r)] \<Longrightarrow> wp U (f w') Q"
  shows "wp U (let w' = run E c w in f w') Q"
  using assms after_ext [of E c w "fst (ext E c w)" "snd (ext E c w)"]
  by (simp add: run_def after_def)

lemma traced_release:
  assumes "0 < p" "\<And>r w'. trace w' = trace w @ [(CRelease t p, r)] \<Longrightarrow> wp U (f w') Q"
  shows "wp U (let w' = release_if E t p w in f w') Q"
  using assms traced_run [of w "CRelease t p" U f Q E] by (simp add: release_if_def)

lemma traced_if_fd:
  assumes "0 \<le> fd" "\<And>r w'. trace w' = trace w @ [(CRelease RFd (nat fd), r)] \<Longrightarrow> wp U (f w') Q"
  shows "wp U (let w' = (if 0 \<le> fd then run E (CRelease RFd (nat fd)) w else w) in f w') Q"
  using assms traced_run [of w "CRelease RFd (nat fd)" U f Q E] by simp

lemma traced_open:
  assumes "\<And>r fd w'. fd < 0 \<Longrightarrow> wp U (y r fd w') Q"
    and "\<And>r fd w'. 0 \<le> fd \<Longrightarrow> rv r = fd \<Longrightarrow> trace w' = trace w @ [(COpen p, r)] \<Longrightarrow> wp U (z r fd w') Q"
  shows "wp U (let (r, w') = ext E (COpen p) w; fd = rv r in if fd < 0 then y r fd w' else z r fd w') Q"
  by (rule traced_call) (use assms in \<open>auto simp: Let_def\<close>)

text \<open>\<open>if_nametoindex\<close> where the code looks for a name that exists, and for one that does not.\<close>

lemma traced_index:
  assumes "\<And>r w'. wp U (y r 0 w') Q"
    and "\<And>r i w'. rv r = i \<Longrightarrow> i \<noteq> 0 \<Longrightarrow> trace w' = trace w @ [(CIfNameToIndex s, r)] \<Longrightarrow> wp U (z r i w') Q"
  shows "wp U (let (r, w') = ext E (CIfNameToIndex s) w; i = rv r in if i = 0 then y r i w' else z r i w') Q"
  by (rule traced_call) (use assms in \<open>auto simp: Let_def\<close>)

lemma traced_probe:
  assumes "\<And>r w'. rv r \<noteq> 0 \<Longrightarrow> trace w' = trace w @ [(CIfNameToIndex s, r)] \<Longrightarrow> wp U (y r (rv r) w') Q"
    and "\<And>r w'. rv r = 0 \<Longrightarrow> trace w' = trace w @ [(CIfNameToIndex s, r)] \<Longrightarrow> wp U (z r 0 w') Q"
  shows "wp U (let (r, w') = ext E (CIfNameToIndex s) w; i = rv r in if i \<noteq> 0 then y r i w' else z r i w') Q"
  by (rule traced_call) (use assms in \<open>auto simp: Let_def\<close>)

lemma traced_let: "wp U (f v) Q \<Longrightarrow> wp U (Let v f) Q"
  by simp

lemmas traced = traced_alloc traced_get traced_open traced_index traced_probe traced_call traced_run
  wp_release_null_let traced_release wp_ret wp_if_ok wp_if_failed wp_if traced_let

text \<open>A failing run asks for nothing in particular.\<close>

definition asked :: "'k world \<Rightarrow> (exchange list \<Rightarrow> bool) \<Rightarrow> int \<times> 'k world \<Rightarrow> bool" where
  "asked w P res \<longleftrightarrow> (fst res = 0 \<longrightarrow> (\<exists>es. trace (snd res) = trace w @ es \<and> P es))"

lemma asked_failed [simp]: "asked w P (1, w')"
  by (simp add: asked_def)

lemma asked_ok: "trace w' = trace w @ es \<Longrightarrow> P es \<Longrightarrow> asked w P (0, w')"
  by (auto simp: asked_def)

definition anything :: "ub option \<Rightarrow> bool" where
  "anything u \<longleftrightarrow> True"

lemma anything [simp]: "anything u"
  by (simp add: anything_def)

locale asking =
  fixes oper :: "'k op" and lib :: bool and script :: "exchange list \<Rightarrow> bool"
  assumes asks: "lib \<Longrightarrow> wp anything (oper w) (asked w script)"
begin

lemma call_asks:
  assumes "lib" "\<And>u. U u"
    and "\<And>es w'. trace w' = trace w @ es \<Longrightarrow> script es \<Longrightarrow> wp U (f 0 w') Q"
    and "\<And>rc w'. rc \<noteq> 0 \<Longrightarrow> wp U (f rc w') Q"
  shows "wp U (exec_bind (oper w) (\<lambda>(rc, w'). f rc w')) Q"
proof (rule wp_bind, rule wp_mono, rule wp_mono_ub, rule asks [OF assms(1)])
  fix res assume "asked w script res"
  then show "wp U (case res of (rc, w') \<Rightarrow> f rc w') Q"
    using assms(3,4) by (cases res; cases "fst res = 0") (auto simp: asked_def)
qed (rule assms(2))

lemma success: "lib \<Longrightarrow> oper w = ret (0, w') \<Longrightarrow> \<exists>es. trace w' = trace w @ es \<and> script es"
  using asks [of w] by (simp add: wp_def asked_def)

end


section \<open>The helpers\<close>

text \<open>A reply that hands out the object \<open>p\<close>, and one of a call that succeeded.\<close>

abbreviation gave :: "ptr \<Rightarrow> reply \<Rightarrow> bool" where
  "gave p r \<equiv> 0 < p \<and> outp r = p"

abbreviation got :: "ptr \<Rightarrow> reply \<Rightarrow> bool" where
  "got p r \<equiv> 0 \<le> rv r \<and> 0 < p \<and> outp r = p"

inductive addr_build_calls :: "in_addr \<Rightarrow> int \<Rightarrow> int \<Rightarrow> ptr \<Rightarrow> exchange list \<Rightarrow> bool" for a p idx addr where
  addr_built: "got l r0 \<Longrightarrow> gave addr r2 \<Longrightarrow> addr_build_calls a p idx addr
     [(CNlAddrParse (dotted a) AF_INET, r0),
      (CSet RNlAddr l ''nl_addr_set_prefixlen'' (VInt p), r1),
      (CAlloc RAddr ''rtnl_addr_alloc'', r2),
      (CSet RAddr addr ''rtnl_addr_set_family'' (VConst AF_INET), r3),
      (CSet RAddr addr ''rtnl_addr_set_scope'' (VConst RT_SCOPE_UNIVERSE), r4),
      (CSet RAddr addr ''rtnl_addr_set_local'' (VObj RNlAddr l), r5),
      (CSet RAddr addr ''rtnl_addr_set_ifindex'' (VInt idx), r6),
      (CRelease RNlAddr l, r7)]"

lemma traced_addr_build:
  assumes "out_params_filled E" "util_cidr_parse cidr = ret (Inr (a, p))"
    and "\<And>addr es w'. 0 < addr \<Longrightarrow> trace w' = trace w @ es \<Longrightarrow> addr_build_calls a p idx addr es \<Longrightarrow> wp U (f 0 addr w') Q"
    and "\<And>w'. wp U (f 1 0 w') Q"
  shows "wp U (exec_bind (nu_rtnl_addr_build E cidr idx w) (\<lambda>(rc, q, w'). f rc q w')) Q"
proof (rule wp_bind)
  have n: "inet_ntop INET_ADDRSTRLEN a = Some (dotted a)"
    by (rule inet_ntop_fits) (simp add: INET_ADDRSTRLEN_def)
  show "wp U (nu_rtnl_addr_build E cidr idx w) (\<lambda>x. wp U (case x of (rc, q, w') \<Rightarrow> f rc q w') Q)"
    unfolding nu_rtnl_addr_build_def nu_rtnl_addr_build_out_def assms(2) exec_bind_simps sum.case prod.case n option.case
    using assms(1) apply -
    by (rule traced assms(3,4) addr_built | simp (no_asm_simp))+
qed

lemma traced_any_addr_build:
  assumes "out_params_filled E" "\<And>u. U u"
    and "\<And>a p addr es w'. util_cidr_parse cidr = ret (Inr (a, p)) \<Longrightarrow> 0 < addr \<Longrightarrow>
      trace w' = trace w @ es \<Longrightarrow> addr_build_calls a p idx addr es \<Longrightarrow> wp U (f 0 addr w') Q"
    and "\<And>w'. wp U (f 1 0 w') Q"
  shows "wp U (exec_bind (nu_rtnl_addr_build E cidr idx w) (\<lambda>(rc, q, w'). f rc q w')) Q"
proof (cases "util_cidr_parse cidr")
  case None
  then show ?thesis by (simp add: util_cidr_parse_returns)
next
  case (Some r)
  show ?thesis
  proof (cases r)
    case (Inl u)
    with Some show ?thesis by (simp add: nu_rtnl_addr_build_def wp_stuck assms(2))
  next
    case r: (Inr x)
    show ?thesis
    proof (cases x)
      case (Inl e)
      with Some r assms(4) show ?thesis
        by (simp add: nu_rtnl_addr_build_def nu_rtnl_addr_build_out_def release_if_def)
    next
      case (Inr ap)
      obtain a p where ap: "ap = (a, p)" by force
      have parse: "util_cidr_parse cidr = ret (Inr (a, p))" using Some r Inr ap by simp
      show ?thesis
        by (rule traced_addr_build [OF assms(1) parse]) (use assms(3,4) parse in blast)+
    qed
  qed
qed

inductive route_calls :: "ptr \<Rightarrow> string \<Rightarrow> string \<Rightarrow> int \<Rightarrow> exchange list \<Rightarrow> bool" for sk cidr next_ip idx where
  route_added: "gave route r0 \<Longrightarrow> got dst r6 \<Longrightarrow> got gw r7 \<Longrightarrow> 0 \<le> rv r8 \<Longrightarrow> gave nh r9 \<Longrightarrow> 0 \<le> rv r13 \<Longrightarrow>
    route_calls sk cidr next_ip idx
     [(CAlloc RRoute ''rtnl_route_alloc'', r0),
      (CSet RRoute route ''rtnl_route_set_family'' (VConst AF_INET), r1),
      (CSet RRoute route ''rtnl_route_set_table'' (VConst RT_TABLE_MAIN), r2),
      (CSet RRoute route ''rtnl_route_set_protocol'' (VConst RTPROT_STATIC), r3),
      (CSet RRoute route ''rtnl_route_set_scope'' (VConst RT_SCOPE_UNIVERSE), r4),
      (CSet RRoute route ''rtnl_route_set_type'' (VConst RTN_UNICAST), r5),
      (CNlAddrParse cidr AF_INET, r6),
      (CNlAddrParse next_ip AF_INET, r7),
      (CRouteSetDst route dst, r8),
      (CAlloc RNexthop ''rtnl_route_nh_alloc'', r9),
      (CSet RNexthop nh ''rtnl_route_nh_set_ifindex'' (VInt idx), r10),
      (CSet RNexthop nh ''rtnl_route_nh_set_gateway'' (VObj RNlAddr gw), r11),
      (CRouteAddNexthop route nh, r12),
      (CRouteAdd sk route [NLM_F_CREATE, NLM_F_REPLACE], r13),
      (CRelease RRoute route, r14), (CRelease RNlAddr dst, r15), (CRelease RNlAddr gw, r16)]"

interpretation asks_route: asking "nu_add_routing_rule E sk cidr nxt idx" "out_params_filled E" "route_calls sk cidr nxt idx"
  for E sk cidr nxt idx
  by unfold_locales (unfold nu_add_routing_rule_def nu_add_routing_rule_out_def,
    (rule traced asked_ok route_added | simp (no_asm_simp))+)

inductive bridge_calls :: "ptr \<Rightarrow> string \<Rightarrow> string \<Rightarrow> exchange list \<Rightarrow> bool" for sk cidr br where
  bridge_there: "rv r0 \<noteq> 0 \<Longrightarrow> bridge_calls sk cidr br [(CIfNameToIndex br, r0)]"
| bridge_created: "rv r0 = 0 \<Longrightarrow> gave l r1 \<Longrightarrow> 0 \<le> rv r5 \<Longrightarrow> rv r6 = idx \<Longrightarrow> idx \<noteq> 0 \<Longrightarrow>
    util_cidr_parse cidr = ret (Inr (a, p)) \<Longrightarrow> addr_build_calls a p idx addr es \<Longrightarrow> 0 \<le> rv r7 \<Longrightarrow>
    bridge_calls sk cidr br
    ((CIfNameToIndex br, r0) # (CAlloc RLink ''rtnl_link_alloc'', r1) #
     (CSet RLink l ''rtnl_link_set_name'' (VStr br), r2) #
     (CSet RLink l ''rtnl_link_set_type'' (VStr ''bridge''), r3) #
     (CSet RLink l ''rtnl_link_set_flags'' (VConst IFF_UP), r4) #
     (CLinkAdd sk l [NLM_F_CREATE], r5) # (CIfNameToIndex br, r6) # es @
     [(CAddrAdd sk addr [NLM_F_CREATE, NLM_F_ACK], r7), (CRelease RAddr addr, r8), (CRelease RLink l, r9)])"

interpretation asks_bridge: asking "nu_create_bridge E sk cidr br" "out_params_filled E" "bridge_calls sk cidr br"
  for E sk cidr br
  by unfold_locales (unfold nu_create_bridge_def nu_create_bridge_out_def,
    (rule traced_any_addr_build traced asked_ok bridge_there bridge_created | simp (no_asm_simp) | assumption)+)

inductive vxlan_calls :: "ptr \<Rightarrow> string \<Rightarrow> string \<Rightarrow> string \<Rightarrow> int \<Rightarrow> exchange list \<Rightarrow> bool" for sk und vx gr vni where
  vxlan_there: "rv r0 \<noteq> 0 \<Longrightarrow> vxlan_calls sk und vx gr vni [(CIfNameToIndex vx, r0)]"
| vxlan_created: "rv r0 = 0 \<Longrightarrow> gave l r1 \<Longrightarrow> got g r2 \<Longrightarrow> rv r8 = idx \<Longrightarrow> idx \<noteq> 0 \<Longrightarrow> 0 \<le> rv r10 \<Longrightarrow>
    vxlan_calls sk und vx gr vni
    [(CIfNameToIndex vx, r0), (CAlloc RLink ''rtnl_link_vxlan_alloc'', r1),
     (CNlAddrParse gr AF_INET, r2),
     (CSet RLink l ''rtnl_link_set_name'' (VStr vx), r3),
     (CSet RLink l ''rtnl_link_vxlan_set_id'' (VInt vni), r4),
     (CSet RLink l ''rtnl_link_vxlan_set_group'' (VObj RNlAddr g), r5),
     (CSet RLink l ''rtnl_link_vxlan_set_port'' (VInt 4789), r6),
     (CSet RLink l ''rtnl_link_set_flags'' (VConst IFF_UP), r7),
     (CIfNameToIndex und, r8),
     (CSet RLink l ''rtnl_link_vxlan_set_link'' (VInt idx), r9),
     (CLinkAdd sk l [NLM_F_CREATE], r10),
     (CRelease RNlAddr g, r11), (CRelease RLink l, r12)]"

interpretation asks_vxlan: asking "nu_create_vxlan E sk und vx gr vni" "out_params_filled E" "vxlan_calls sk und vx gr vni"
  for E sk und vx gr vni
  by unfold_locales (unfold nu_create_vxlan_def nu_create_vxlan_out_def,
    (rule traced asked_ok vxlan_there vxlan_created | simp (no_asm_simp))+)

inductive veth_calls :: "ptr \<Rightarrow> int \<Rightarrow> string \<Rightarrow> string \<Rightarrow> string \<Rightarrow> exchange list \<Rightarrow> bool" for sk fd cv tmp host where
  veth_created: "0 \<le> rv r1 \<Longrightarrow> rv r2 = idx \<Longrightarrow> idx \<noteq> 0 \<Longrightarrow> got l r3 \<Longrightarrow> gave ch r4 \<Longrightarrow> 0 \<le> rv r9 \<Longrightarrow>
    veth_calls sk fd cv tmp host
    [(CGetpid, r0), (CLinkVethAdd sk host tmp (rv r0), r1), (CIfNameToIndex tmp, r2), (CLinkGetKernel sk idx None, r3),
     (CAlloc RLink ''rtnl_link_alloc'', r4),
     (CSet RLink ch ''rtnl_link_set_ifindex'' (VInt idx), r5),
     (CSet RLink ch ''rtnl_link_set_ns_fd'' (VFd fd), r6),
     (CSet RLink ch ''rtnl_link_set_name'' (VStr cv), r7),
     (CSet RLink ch ''rtnl_link_set_flags'' (VConst IFF_UP), r8),
     (CLinkChange sk l ch 0, r9), (CRelease RLink ch, r10), (CRelease RLink l, r11)]"

interpretation asks_veth: asking "nu_create_veth E sk fd cv tmp host" "out_params_filled E" "veth_calls sk fd cv tmp host"
  for E sk fd cv tmp host
  by unfold_locales (unfold nu_create_veth_def nu_create_veth_out_def,
    (rule traced asked_ok veth_created | simp (no_asm_simp))+)

inductive enable_calls :: "ptr \<Rightarrow> string \<Rightarrow> exchange list \<Rightarrow> bool" for sk ifname where
  veth_enabled: "got l r0 \<Longrightarrow> gave ch r1 \<Longrightarrow> 0 \<le> rv r3 \<Longrightarrow> enable_calls sk ifname
    [(CLinkGetKernel sk 0 (Some ifname), r0), (CAlloc RLink ''rtnl_link_alloc'', r1),
     (CSet RLink ch ''rtnl_link_set_flags'' (VConst IFF_UP), r2),
     (CLinkChange sk l ch 0, r3), (CRelease RLink ch, r4), (CRelease RLink l, r5)]"

interpretation asks_enable: asking "nu_enable_veth E sk ifname" "out_params_filled E" "enable_calls sk ifname"
  for E sk ifname
  by unfold_locales (unfold nu_enable_veth_def nu_enable_veth_out_def,
    (rule traced asked_ok veth_enabled | simp (no_asm_simp))+)

inductive delete_calls :: "ptr \<Rightarrow> string \<Rightarrow> exchange list \<Rightarrow> bool" for sk ifname where
  if_deleted: "got l r0 \<Longrightarrow> 0 \<le> rv r1 \<Longrightarrow> delete_calls sk ifname
    [(CLinkGetKernel sk 0 (Some ifname), r0), (CLinkDelete sk l, r1), (CRelease RLink l, r2)]"

interpretation asks_delete: asking "nu_delete_if E sk ifname" "out_params_filled E" "delete_calls sk ifname"
  for E sk ifname
  by unfold_locales (unfold nu_delete_if_def nu_delete_if_out_def,
    (rule traced asked_ok if_deleted | simp (no_asm_simp))+)


section \<open>The steps of attaching\<close>

inductive configure_calls :: "int \<Rightarrow> string \<Rightarrow> string \<Rightarrow> string \<Rightarrow> exchange list \<Rightarrow> bool" for fd ifname cidr gw where
  veth_configured: "0 \<le> home \<Longrightarrow> rv r0 = home \<Longrightarrow> rv r1 = 0 \<Longrightarrow> gave sk r2 \<Longrightarrow> 0 \<le> rv r3 \<Longrightarrow>
    rv r4 = idx \<Longrightarrow> idx \<noteq> 0 \<Longrightarrow> got l r5 \<Longrightarrow>
    util_cidr_parse cidr = ret (Inr (a, p)) \<Longrightarrow> addr_build_calls a p idx addr es \<Longrightarrow> 0 \<le> rv r6 \<Longrightarrow>
    route_calls sk ''0.0.0.0/0'' gw idx es' \<Longrightarrow> rv r7 = 0 \<Longrightarrow> configure_calls fd ifname cidr gw
    ((COpen ''/proc/self/ns/net'', r0) # (CSetns fd, r1) # (CAlloc RSock ''nl_socket_alloc'', r2) #
     (CNlConnect sk NETLINK_ROUTE, r3) # (CIfNameToIndex ifname, r4) # (CLinkGetKernel sk idx None, r5) # es @
     (CAddrAdd sk addr [NLM_F_CREATE, NLM_F_ACK], r6) # es' @
     [(CSetns home, r7), (CRelease RAddr addr, r8), (CRelease RLink l, r9), (CRelease RSock sk, r10),
      (CRelease RFd (nat home), r11)])"

lemma traced_stay: "wp U (f w) Q \<Longrightarrow> wp U (let w' = (if False then x else w) in f w') Q"
  by simp

lemma traced_uninit: "wp anything (exec_bind (init_var None) f) Q"
  by (simp add: init_var_def wp_stuck)

lemma traced_failed_out: "wp anything (configure_container_veth_out E s fd a b c 1 v) (asked w P)"
proof -
  have "configure_container_veth_out E s fd a b c 1 v = ret r \<Longrightarrow> fst r = 1" for r
    by (auto simp: configure_container_veth_out_def Let_def exec_bind_eq_ret)
  then show ?thesis
    by (auto simp: wp_def asked_def split: option.split sum.split)
qed

lemma wp_if_nonzero: "rc \<noteq> 0 \<Longrightarrow> wp U x Q \<Longrightarrow> wp U (if rc \<noteq> 0 then x else y) Q"
  by simp

lemma traced_setns:
  assumes "\<And>r w'. rv r \<noteq> 0 \<Longrightarrow> wp U (y r w') Q"
    and "\<And>r w'. rv r = 0 \<Longrightarrow> trace w' = trace w @ [(CSetns fd, r)] \<Longrightarrow> wp U (z r w') Q"
  shows "wp U (let (r, w') = ext E (CSetns fd) w in if rv r \<noteq> 0 then y r w' else z r w') Q"
  by (rule traced_call) (use assms in auto)

lemma traced_ok_out:
  assumes "0 < a" "0 < b" "0 < c" "0 \<le> h"
    and "\<And>v' r1 r2 r3 r4. trace v' = trace v @ [(CRelease RAddr a, r1), (CRelease RLink b, r2), (CRelease RSock c, r3),
      (CRelease RFd (nat h), r4)] \<Longrightarrow> asked w P (0, v')"
  shows "wp anything (configure_container_veth_out E False h (Some a) (Some b) (Some c) 0 v) (asked w P)"
  unfolding configure_container_veth_out_def using assms(1-4)
  apply -
  by (rule traced_stay wp_init_var(1) traced_if_fd traced assms(5) | simp (no_asm_simp))+

interpretation asks_configure: asking "configure_container_veth E fd ifname cidr gw" "out_params_filled E"
    "configure_calls fd ifname cidr gw"
  for E fd ifname cidr gw
  by unfold_locales (unfold configure_container_veth_def,
    ((rule wp_if_nonzero, assumption) | rule traced_ok_out traced_failed_out traced_any_addr_build asks_route.call_asks
       traced_setns traced asked_ok veth_configured
       | simp (no_asm_simp) | assumption)+)

inductive attach_ifs_calls :: "ptr \<Rightarrow> string \<Rightarrow> exchange list \<Rightarrow> bool" for sk host where
  ifs_attached: "got br r0 \<Longrightarrow> got vx r1 \<Longrightarrow> got ve r2 \<Longrightarrow> gave ch r3 \<Longrightarrow> 0 \<le> rv r8 \<Longrightarrow> 0 \<le> rv r13 \<Longrightarrow>
    attach_ifs_calls sk host
    [(CLinkGetKernel sk 0 (Some HOST_BRIDGE_NAME), r0), (CLinkGetKernel sk 0 (Some HOST_VXLAN_NAME), r1),
     (CLinkGetKernel sk 0 (Some host), r2), (CAlloc RLink ''rtnl_link_alloc'', r3),
     (CIfNameToIndex HOST_VXLAN_NAME, r4), (CSet RLink ch ''rtnl_link_set_ifindex'' (VInt (rv r4)), r5),
     (CLinkGetIfindex br, r6), (CSet RLink ch ''rtnl_link_set_master'' (VInt (rv r6)), r7),
     (CLinkChange sk vx ch 0, r8),
     (CIfNameToIndex host, r9), (CSet RLink ch ''rtnl_link_set_ifindex'' (VInt (rv r9)), r10),
     (CLinkGetIfindex br, r11), (CSet RLink ch ''rtnl_link_set_master'' (VInt (rv r11)), r12),
     (CLinkChange sk ve ch 0, r13),
     (CRelease RLink ch, r14), (CRelease RLink ve, r15), (CRelease RLink vx, r16), (CRelease RLink br, r17)]"

interpretation asks_attach_ifs: asking "attach_ifs_to_bridge E sk host" "out_params_filled E" "attach_ifs_calls sk host"
  for E sk host
  by unfold_locales (unfold attach_ifs_to_bridge_def attach_ifs_to_bridge_out_def,
    (rule traced asked_ok ifs_attached | simp (no_asm_simp))+)

inductive setup_calls :: "ptr \<Rightarrow> int \<Rightarrow> string \<Rightarrow> string \<Rightarrow> string \<Rightarrow> string \<Rightarrow> string \<Rightarrow> exchange list \<Rightarrow> bool"
  for sk fd cv tmp host cidr gw where
  veth_set_up: "veth_calls sk fd cv tmp host es \<Longrightarrow> configure_calls fd cv cidr gw es' \<Longrightarrow> enable_calls sk host es'' \<Longrightarrow>
    setup_calls sk fd cv tmp host cidr gw (es @ es' @ es'')"

interpretation asks_setup: asking "setup_veth E sk fd cv tmp host cidr gw" "out_params_filled E"
    "setup_calls sk fd cv tmp host cidr gw"
  for E sk fd cv tmp host cidr gw
  by unfold_locales (unfold setup_veth_def,
    ((rule wp_if_nonzero, assumption) | rule asks_veth.call_asks asks_configure.call_asks asks_enable.call_asks
       traced asked_ok veth_set_up | simp (no_asm_simp) | assumption)+)

section \<open>The NAT rule\<close>

text \<open>Setting the attributes \<open>s\<close> of the expression \<open>e\<close>, with the replies \<open>rs\<close>.\<close>

definition set_calls :: "ptr \<Rightarrow> (string \<times> val) list \<Rightarrow> reply list \<Rightarrow> exchange list" where
  "set_calls e s rs = map2 (\<lambda>(a, v) r. (CSet RExpr e a v, r)) s rs"

inductive expr_calls :: "ptr \<Rightarrow> nft_expr list \<Rightarrow> exchange list \<Rightarrow> bool" for r where
  no_expr: "expr_calls r [] []"
| one_expr: "gave e r0 \<Longrightarrow> length rs = length s \<Longrightarrow> expr_calls r xs es \<Longrightarrow> expr_calls r ((k, s) # xs)
    ((CAlloc RExpr k, r0) # set_calls e s rs @ (CRuleAddExpr r e, r1) # es)"

lemma trace_set_attrs: "\<exists>rs. length rs = length s \<and> trace (nft_set_attrs E e s w) = trace w @ set_calls e s rs"
proof (induction s arbitrary: w)
  case Nil
  show ?case by (intro exI [of _ "[]"]) (simp add: set_calls_def)
next
  case (Cons av s)
  obtain a v where av: "av = (a, v)" by force
  obtain r0 where r0: "trace (run E (CSet RExpr e a v) w) = trace w @ [(CSet RExpr e a v, r0)]"
    using after_ext [of E "CSet RExpr e a v" w] by (metis after_def prod.collapse run_def)
  obtain rs where "length rs = length s"
    "trace (nft_set_attrs E e s (run E (CSet RExpr e a v) w)) = trace (run E (CSet RExpr e a v) w) @ set_calls e s rs"
    using Cons.IH by blast
  then show ?case by (intro exI [of _ "r0 # rs"]) (simp add: av r0 set_calls_def)
qed

lemma traced_set_attrs:
  assumes "\<And>rs w'. length rs = length s \<Longrightarrow> trace w' = trace w @ set_calls e s rs \<Longrightarrow> wp U (f w') Q"
  shows "wp U (let w' = nft_set_attrs E e s w in f w') Q"
  using assms trace_set_attrs [of s E e w] by (auto simp: Let_def)

lemma traced_add_expr:
  assumes "\<And>u. U u"
    and "\<And>e r0 rs r1 w'. trace w' = trace w @ (CAlloc RExpr k, r0) # set_calls e s rs @ [(CRuleAddExpr r e, r1)] \<Longrightarrow>
      gave e r0 \<Longrightarrow> length rs = length s \<Longrightarrow> Q w'"
  shows "wp U (nft_add_expr E r (k, s) w) Q"
  unfolding nft_add_expr_def fst_conv snd_conv
  by (rule traced_set_attrs traced wp_stuck assms | simp (no_asm_simp))+

lemma traced_add_exprs:
  assumes "\<And>u. U u" "\<And>es w'. trace w' = trace w @ es \<Longrightarrow> expr_calls r xs es \<Longrightarrow> wp U (f w') Q"
  shows "wp U (exec_bind (nft_add_exprs E r xs w) f) Q"
  using assms(2)
proof (induction xs arbitrary: w f)
  case Nil
  then show ?case using no_expr by simp
next
  case (Cons x xs)
  obtain k s where x: "x = (k, s)" by force
  have "wp U (nft_add_expr E r (k, s) w) (\<lambda>w'. wp U (exec_bind (nft_add_exprs E r xs w') f) Q)"
  proof (rule traced_add_expr [OF assms(1)], rule Cons.IH)
    fix e r0 rs r1 es and w1 w' :: "'a world"
    assume "trace w1 = trace w @ (CAlloc RExpr k, r0) # set_calls e s rs @ [(CRuleAddExpr r e, r1)]"
      "gave e r0" "length rs = length s" "trace w' = trace w1 @ es" "expr_calls r xs es"
    then show "wp U (f w') Q" using Cons.prems one_expr [of e r0 rs s r xs es k r1] by (simp add: x)
  qed
  then show ?case by (simp add: x exec_bind_assoc wp_bind)
qed

text \<open>
  The acknowledgement loop reads datagrams and hands them to the library, nothing else; unless it ends
  with -1, none of them held a refusal.
\<close>

definition ack_calls :: "ptr \<Rightarrow> nat \<Rightarrow> int \<Rightarrow> exchange list \<Rightarrow> bool" where
  "ack_calls sk q p es \<longleftrightarrow>
     (\<forall>(c, r) \<in> set es. (c = CMnlRecvfrom sk \<or> (\<exists>n. c = CMnlCbRun n q p)) \<and> rv r \<noteq> -1)"

lemma calls_acks:
  assumes "nft_acks E sk q p r w = Some res"
  shows "\<exists>r' w' es. res = Inr (r', w') \<and> trace w' = trace w @ es \<and> (rv r' \<noteq> -1 \<longrightarrow> rv r \<noteq> -1 \<and> ack_calls sk q p es)"
proof (rule nft_acks.raw_induct [where P = "\<lambda>E sk q p r w res.
    \<exists>r' w' es. res = Inr (r', w') \<and> trace w' = trace w @ es \<and> (rv r' \<noteq> -1 \<longrightarrow> rv r \<noteq> -1 \<and> ack_calls sk q p es)", OF _ assms])
  fix acks E sk q p r w res
  assume IH: "\<And>E sk q p r w res. acks E sk q p r w = Some res \<Longrightarrow>
      \<exists>r' w' es. res = Inr (r', w') \<and> trace w' = trace w @ es \<and> (rv r' \<noteq> -1 \<longrightarrow> rv r \<noteq> -1 \<and> ack_calls sk q p es)"
    and eq: "(if rv r > 0 then
        (case ext E (CMnlCbRun (rv r) q p) w of
           (r, w) \<Rightarrow>
             if rv r \<le> 0 then ret (r, w)
             else (case ext E (CMnlRecvfrom sk) w of (r, w) \<Rightarrow> acks E sk q p r w))
      else ret (r, w)) = Some res"
  show "\<exists>r' w' es. res = Inr (r', w') \<and> trace w' = trace w @ es \<and> (rv r' \<noteq> -1 \<longrightarrow> rv r \<noteq> -1 \<and> ack_calls sk q p es)"
  proof (cases "rv r > 0")
    case False
    with eq show ?thesis by (auto simp: ack_calls_def)
  next
    case True
    obtain r1 w1 where e1: "ext E (CMnlCbRun (rv r) q p) w = (r1, w1)" by force
    obtain r2 w2 where e2: "ext E (CMnlRecvfrom sk) w1 = (r2, w2)" by force
    note t = after_ext [OF e1] after_ext [OF e2]
    show ?thesis
    proof (cases "rv r1 \<le> 0")
      case True
      then show ?thesis using eq \<open>rv r > 0\<close> e1 t(1) by (auto simp: after_def ack_calls_def)
    next
      case False
      then have "acks E sk q p r2 w2 = Some res" using eq True e1 e2 by simp
      from IH [OF this] obtain r' w' es where "res = Inr (r', w')" "trace w' = trace w2 @ es"
        "rv r' \<noteq> -1 \<longrightarrow> rv r2 \<noteq> -1 \<and> ack_calls sk q p es"
        by blast
      then show ?thesis
        using t True False
        by (intro exI [of _ r'] exI [of _ w'] exI [of _ "(CMnlCbRun (rv r) q p, r1) # (CMnlRecvfrom sk, r2) # es"])
          (auto simp: after_def ack_calls_def)
    qed
  qed
qed

lemma traced_acks:
  assumes "\<And>u. U u" "\<And>r' w'. wp U (y r' w') Q"
    and "\<And>r' es w'. trace w' = trace w @ es \<Longrightarrow> rv r \<noteq> -1 \<Longrightarrow> ack_calls sk q p es \<Longrightarrow> wp U (z r' w') Q"
  shows "wp U (exec_bind (nft_acks E sk q p r w) (\<lambda>(r', w'). if rv r' = -1 then y r' w' else z r' w')) Q"
proof (cases "nft_acks E sk q p r w")
  case None
  then show ?thesis by (simp add: wp_None assms(1))
next
  case (Some res)
  from calls_acks [OF Some] assms(2,3) Some show ?thesis by force
qed

text \<open>The messages of the batch: the table, the chain, the rule and the end.\<close>

inductive nat_head_calls :: "ptr \<Rightarrow> ptr \<Rightarrow> int \<Rightarrow> ptr \<Rightarrow> exchange list \<Rightarrow> bool" for sk b pid r where
  nat_head: "gave sk r0 \<Longrightarrow> 0 \<le> rv r1 \<Longrightarrow> rv r2 = pid \<Longrightarrow> gave b r3 \<Longrightarrow> gave t r6 \<Longrightarrow> gave c r13 \<Longrightarrow> gave r r23 \<Longrightarrow>
    nat_head_calls sk b pid r
     [(CAlloc RMnl ''mnl_socket_open'', r0), (CMnlBind sk 0 MNL_SOCKET_AUTOPID, r1), (CMnlPortid sk, r2),
      (CAlloc RBatch ''mnl_nlmsg_batch_start'', r3), (CBatchBegin b 1, r4), (CBatchNext b, r5),
      (CAlloc RTable ''nftnl_table_alloc'', r6),
      (CSet RTable t ''NFTNL_TABLE_NAME'' (VStr SKNF_NFTABLES_TABLE_NAME), r7),
      (CSet RTable t ''NFTNL_TABLE_FAMILY'' (VConst NFPROTO_IPV4), r8),
      (CBuildHdr b NFT_MSG_NEWTABLE NFPROTO_IPV4 [NLM_F_CREATE, NLM_F_ACK] 2, r9),
      (CBuildPayload b RTable t, r10), (CBatchNext b, r11), (CRelease RTable t, r12),
      (CAlloc RChain ''nftnl_chain_alloc'', r13),
      (CSet RChain c ''NFTNL_CHAIN_TABLE'' (VStr SKNF_NFTABLES_TABLE_NAME), r14),
      (CSet RChain c ''NFTNL_CHAIN_NAME'' (VStr SKNF_NFTABLES_POSTROUTING_CHAIN_NAME), r15),
      (CSet RChain c ''NFTNL_CHAIN_TYPE'' (VStr ''nat''), r16),
      (CSet RChain c ''NFTNL_CHAIN_HOOKNUM'' (VConst NF_INET_POST_ROUTING), r17),
      (CSet RChain c ''NFTNL_CHAIN_PRIO'' (VConst NF_IP_PRI_NAT_SRC), r18),
      (CBuildHdr b NFT_MSG_NEWCHAIN NFPROTO_IPV4 [NLM_F_CREATE, NLM_F_ACK] 3, r19),
      (CBuildPayload b RChain c, r20), (CBatchNext b, r21), (CRelease RChain c, r22),
      (CAlloc RRule ''nftnl_rule_alloc'', r23),
      (CSet RRule r ''NFTNL_RULE_TABLE'' (VStr SKNF_NFTABLES_TABLE_NAME), r24),
      (CSet RRule r ''NFTNL_RULE_CHAIN'' (VStr SKNF_NFTABLES_POSTROUTING_CHAIN_NAME), r25)]"

inductive nat_tail_calls :: "ptr \<Rightarrow> ptr \<Rightarrow> ptr \<Rightarrow> exchange list \<Rightarrow> bool" for sk b r where
  nat_tail: "0 \<le> rv r6 \<Longrightarrow> rv r8 \<noteq> -1 \<Longrightarrow> nat_tail_calls sk b r
     [(CBuildHdr b NFT_MSG_NEWRULE NFPROTO_IPV4 [NLM_F_CREATE, NLM_F_ACK] 4, r0),
      (CBuildPayload b RRule r, r1), (CBatchNext b, r2), (CRelease RRule r, r3), (CBatchEnd b 5, r4), (CBatchNext b, r5),
      (CMnlSendto sk b, r6), (CRelease RBatch b, r7), (CMnlRecvfrom sk, r8)]"

inductive nat_calls :: "string \<Rightarrow> string \<Rightarrow> exchange list \<Rightarrow> bool" for ifname cidr where
  nat_installed: "util_cidr_parse cidr = ret (Inr (a, p)) \<Longrightarrow> nft_mask p = ret m \<Longrightarrow>
    nat_head_calls sk b pid r hs \<Longrightarrow> expr_calls r (nft_rule_exprs ifname (s_addr a) m) es \<Longrightarrow>
    nat_tail_calls sk b r ts \<Longrightarrow> ack_calls sk 2 pid acks \<Longrightarrow>
    nat_calls ifname cidr (hs @ es @ ts @ acks @ [(CRelease RMnl sk, r')])"

lemma wp_any_mask:
  assumes "\<And>u. U u" "\<And>m. nft_mask p = ret m \<Longrightarrow> wp U (f m) Q"
  shows "wp U (exec_bind (nft_mask p) f) Q"
  by (rule wp_nft_mask) (use assms in auto)

lemma wp_any_parse:
  assumes "\<And>u. U u" "\<And>e. wp U (f (Inl e)) Q" "\<And>a p. util_cidr_parse s = ret (Inr (a, p)) \<Longrightarrow> wp U (f (Inr (a, p))) Q"
  shows "wp U (exec_bind (util_cidr_parse s) f) Q"
  by (rule wp_cidr_parse) (use assms in auto)

lemma traced_failed_nft_out: "wp anything (nft_nat_rule_out E b s sk 1 v) (asked w P)"
  by (simp add: nft_nat_rule_out_def Let_def wp_ret)

lemma traced_ok_nft_out:
  assumes "0 < sk" "\<And>v' r. trace v' = trace v @ [(CRelease RMnl sk, r)] \<Longrightarrow> asked w P (0, v')"
  shows "wp anything (nft_nat_rule_out E b True sk 0 v) (asked w P)"
  unfolding nft_nat_rule_out_def using assms(1)
  apply -
  by (rule wp_keep_batch_let traced assms(2) | simp (no_asm_simp))+

text \<open>Sending, and the rule message with what follows it.\<close>

lemma traced_nft_send:
  assumes "0 < sk"
    and "\<And>v' r0 r1 r2 acks r3. trace v' = trace v @
      [(CMnlSendto sk b, r0), (CRelease RBatch b, r1), (CMnlRecvfrom sk, r2)] @ acks @ [(CRelease RMnl sk, r3)] \<Longrightarrow>
      0 \<le> rv r0 \<Longrightarrow> rv r2 \<noteq> -1 \<Longrightarrow> ack_calls sk q p acks \<Longrightarrow> asked w P (0, v')"
  shows "wp anything (nft_send E sk b q p v) (asked w P)"
  unfolding nft_send_def using assms(1)
  apply -
  by (rule traced_failed_nft_out traced_ok_nft_out traced_acks traced assms(2) | assumption | simp (no_asm_simp))+

lemma traced_nft_rule:
  assumes "0 < sk"
    and ok: "\<And>v' r r0 r1 r2 es ts acks r'. trace v' = trace v @
      [(CAlloc RRule ''nftnl_rule_alloc'', r0),
       (CSet RRule r ''NFTNL_RULE_TABLE'' (VStr SKNF_NFTABLES_TABLE_NAME), r1),
       (CSet RRule r ''NFTNL_RULE_CHAIN'' (VStr SKNF_NFTABLES_POSTROUTING_CHAIN_NAME), r2)] @
      es @ ts @ acks @ [(CRelease RMnl sk, r')] \<Longrightarrow> gave r r0 \<Longrightarrow>
      expr_calls r (nft_rule_exprs ifname net m) es \<Longrightarrow> nat_tail_calls sk b r ts \<Longrightarrow> ack_calls sk 2 pid acks \<Longrightarrow>
      asked w P (0, v')"
  shows "wp anything (nft_rule E sk b pid ifname net m v) (asked w P)"
proof -
  have written_out: "asked w P (0, v')"
    if "trace v' = trace v @
      [(CAlloc RRule ''nftnl_rule_alloc'', r0),
       (CSet RRule r ''NFTNL_RULE_TABLE'' (VStr SKNF_NFTABLES_TABLE_NAME), r1),
       (CSet RRule r ''NFTNL_RULE_CHAIN'' (VStr SKNF_NFTABLES_POSTROUTING_CHAIN_NAME), r2)] @ es @
      [(CBuildHdr b NFT_MSG_NEWRULE NFPROTO_IPV4 [NLM_F_CREATE, NLM_F_ACK] 4, s0),
       (CBuildPayload b RRule r, s1), (CBatchNext b, s2), (CRelease RRule r, s3), (CBatchEnd b 5, s4), (CBatchNext b, s5),
       (CMnlSendto sk b, s6), (CRelease RBatch b, s7), (CMnlRecvfrom sk, s8)] @ acks @ [(CRelease RMnl sk, r')]"
      "gave r r0" "expr_calls r (nft_rule_exprs ifname net m) es" "0 \<le> rv s6" "rv s8 \<noteq> -1" "ack_calls sk 2 pid acks"
    for v' r r0 r1 r2 es acks r' s0 s1 s2 s3 s4 s5 s6 s7 s8
    using ok [OF _ that(2,3) nat_tail [OF that(4,5)] that(6)] that(1) by simp
  show ?thesis
    unfolding nft_rule_def using assms(1)
    apply -
    by (rule traced_failed_nft_out traced_nft_send traced_add_exprs traced written_out | assumption | simp (no_asm_simp))+
qed

interpretation asks_nat: asking "nft_nat_rule E ifname cidr" True "nat_calls ifname cidr"
  for E ifname cidr
proof unfold_locales
  fix w :: "'a world"
  have written_out: "asked w (nat_calls ifname cidr) (0, v')"
    if "trace v' = trace w @
     [(CAlloc RMnl ''mnl_socket_open'', r0), (CMnlBind sk 0 MNL_SOCKET_AUTOPID, r1), (CMnlPortid sk, r2),
      (CAlloc RBatch ''mnl_nlmsg_batch_start'', r3), (CBatchBegin b 1, r4), (CBatchNext b, r5),
      (CAlloc RTable ''nftnl_table_alloc'', r6),
      (CSet RTable t ''NFTNL_TABLE_NAME'' (VStr SKNF_NFTABLES_TABLE_NAME), r7),
      (CSet RTable t ''NFTNL_TABLE_FAMILY'' (VConst NFPROTO_IPV4), r8),
      (CBuildHdr b NFT_MSG_NEWTABLE NFPROTO_IPV4 [NLM_F_CREATE, NLM_F_ACK] 2, r9),
      (CBuildPayload b RTable t, r10), (CBatchNext b, r11), (CRelease RTable t, r12),
      (CAlloc RChain ''nftnl_chain_alloc'', r13),
      (CSet RChain c ''NFTNL_CHAIN_TABLE'' (VStr SKNF_NFTABLES_TABLE_NAME), r14),
      (CSet RChain c ''NFTNL_CHAIN_NAME'' (VStr SKNF_NFTABLES_POSTROUTING_CHAIN_NAME), r15),
      (CSet RChain c ''NFTNL_CHAIN_TYPE'' (VStr ''nat''), r16),
      (CSet RChain c ''NFTNL_CHAIN_HOOKNUM'' (VConst NF_INET_POST_ROUTING), r17),
      (CSet RChain c ''NFTNL_CHAIN_PRIO'' (VConst NF_IP_PRI_NAT_SRC), r18),
      (CBuildHdr b NFT_MSG_NEWCHAIN NFPROTO_IPV4 [NLM_F_CREATE, NLM_F_ACK] 3, r19),
      (CBuildPayload b RChain c, r20), (CBatchNext b, r21), (CRelease RChain c, r22),
      (CAlloc RRule ''nftnl_rule_alloc'', r23),
      (CSet RRule r ''NFTNL_RULE_TABLE'' (VStr SKNF_NFTABLES_TABLE_NAME), r24),
      (CSet RRule r ''NFTNL_RULE_CHAIN'' (VStr SKNF_NFTABLES_POSTROUTING_CHAIN_NAME), r25)] @
      es @ ts @ acks @ [(CRelease RMnl sk, r')]"
      "util_cidr_parse cidr = ret (Inr (a, p))" "nft_mask p = ret m"
      "gave sk r0" "0 \<le> rv r1" "gave b r3" "gave t r6" "gave c r13" "gave r r23"
      "expr_calls r (nft_rule_exprs ifname (s_addr a) m) es" "nat_tail_calls sk b r ts" "ack_calls sk 2 (rv r2) acks"
    for v' a p m sk b t c r r0 r1 r2 r3 r4 r5 r6 r7 r8 r9 r10 r11 r12 r13 r14 r15 r16 r17 r18 r19 r20 r21 r22 r23 r24 r25
      es ts acks r'
    by (rule asked_ok [OF that(1)], rule nat_installed [OF that(2,3) nat_head [OF that(4,5) refl that(6-9)] that(10-12)])
  show "wp anything (nft_nat_rule E ifname cidr w) (asked w (nat_calls ifname cidr))"
    unfolding nft_nat_rule_def
    by (rule traced_failed_nft_out wp_any_parse wp_any_mask wp_case_Inl wp_case_Inr wp_case_Pair
         traced_nft_rule traced wp_stuck written_out
         | assumption | simp (no_asm_simp))+
qed

section \<open>Attaching and detaching\<close>

inductive attach_calls :: "string \<Rightarrow> string \<Rightarrow> string \<Rightarrow> string \<Rightarrow> string \<Rightarrow> string \<Rightarrow> exchange list \<Rightarrow> bool"
  for n i cidr c bridge phys where
  container_attached: "gave sk r0 \<Longrightarrow> 0 \<le> rv r1 \<Longrightarrow> 0 \<le> fd \<Longrightarrow> rv r2 = fd \<Longrightarrow>
     bridge_calls sk bridge HOST_BRIDGE_NAME bs \<Longrightarrow>
     vxlan_calls sk phys HOST_VXLAN_NAME HOST_VXLAN_GROUP HOST_VXLAN_VNI_ID vs \<Longrightarrow>
     setup_calls sk fd i (''tmp'' @ hex8 (if_hash n i c)) (''sknf'' @ hex8 (if_hash n i c)) cidr bridge ss \<Longrightarrow>
     attach_ifs_calls sk (''sknf'' @ hex8 (if_hash n i c)) as \<Longrightarrow>
     nat_calls phys cidr ns \<Longrightarrow>
     attach_calls n i cidr c bridge phys
       ((CAlloc RSock ''nl_socket_alloc'', r0) # (CNlConnect sk NETLINK_ROUTE, r1) # (COpen n, r2) #
        bs @ vs @ ss @ as @ ns @ [(CRelease RFd (nat fd), r3), (CRelease RSock sk, r4)])"

lemma traced_failed_attach_out: "wp anything (net_attach_container_out E fd sk 1 v) (asked w P)"
  by (simp add: net_attach_container_out_def Let_def wp_ret)

interpretation asks_attach: asking "net_attach_container E n i cidr c bridge phys" "out_params_filled E"
    "attach_calls n i cidr c bridge phys"
  for E n i cidr c bridge phys
  by unfold_locales (unfold net_attach_container_def if_names exec_bind_simps,
    ((rule wp_if_nonzero, assumption) | rule traced_failed_attach_out asks_bridge.call_asks asks_vxlan.call_asks
       asks_setup.call_asks asks_attach_ifs.call_asks asks_nat.call_asks traced_if_fd traced asked_ok
       container_attached | simp (no_asm_simp) only: net_attach_container_out_def | simp (no_asm_simp) | assumption)+)

inductive detach_calls :: "string \<Rightarrow> string \<Rightarrow> string \<Rightarrow> exchange list \<Rightarrow> bool" for n i c where
  container_detached: "gave sk r0 \<Longrightarrow> 0 \<le> rv r1 \<Longrightarrow> delete_calls sk (''sknf'' @ hex8 (if_hash n i c)) ds \<Longrightarrow>
     detach_calls n i c
       ((CAlloc RSock ''nl_socket_alloc'', r0) # (CNlConnect sk NETLINK_ROUTE, r1) # ds @ [(CRelease RSock sk, r2)])"

interpretation asks_detach: asking "net_detach_container E (Some n) (Some i) (Some c)" "out_params_filled E"
    "detach_calls n i c"
  for E n i c
  by unfold_locales (unfold net_detach_container_def net_detach_container_out_def if_names exec_bind_simps,
    ((rule wp_if_nonzero, assumption) | rule asks_delete.call_asks traced asked_ok container_detached
      | assumption | simp (no_asm_simp))+)

end
