(* ===== verification/Kept.thy ===== *)
theory Kept
  imports Calls
begin

text \<open>
  The netlink operations touch the world only by calling the outside and by reporting errors. So
  whatever single calls and error reports preserve, every operation preserves, whether it succeeds or
  fails. This carries assumptions on single answers of the outside over to whole runs.
\<close>


section \<open>Invariants of calls\<close>

text \<open>\<open>A\<close> says which calls are made.\<close>

definition kept_by_calls :: "(call \<Rightarrow> bool) \<Rightarrow> 'k env \<Rightarrow> ('k world \<Rightarrow> bool) \<Rightarrow> bool" where
  "kept_by_calls A E I \<longleftrightarrow>
     (\<forall>c w. A c \<longrightarrow> I w \<longrightarrow> I (snd (ext E c w))) \<and> (\<forall>e w. I w \<longrightarrow> I (set_err e w))"

definition any_call :: "call \<Rightarrow> bool" where
  "any_call c \<longleftrightarrow> True"

lemma any_call [simp]: "any_call c"
  by (simp add: any_call_def)

text \<open>The calls that attaching makes: it deletes no interface and does not use files.\<close>

fun adding_call :: "call \<Rightarrow> bool" where
  "adding_call (CLinkDelete sk l) = False"
| "adding_call (CFopen p m) = False"
| "adding_call (CFread p n) = False"
| "adding_call (CFwrite p t) = False"
| "adding_call (CFputs p t) = False"
| "adding_call (CFclose p) = False"
| "adding_call (CSystem t) = False"
| "adding_call c = True"

text \<open>An invariant that holds, as a constant that rules can match.\<close>

definition holds :: "('k world \<Rightarrow> bool) \<Rightarrow> 'k world \<Rightarrow> bool" where
  "holds I w \<longleftrightarrow> I w"

lemma kept_set_err: "kept_by_calls A E I \<Longrightarrow> holds I w \<Longrightarrow> holds I (set_err e w)"
  by (simp add: kept_by_calls_def holds_def)

lemma kept_call:
  assumes "kept_by_calls A E I" "holds I w" "A c" "\<And>r w'. holds I w' \<Longrightarrow> wp U (f r w') Q"
  shows "wp U (let (r, w') = ext E c w in f r w') Q"
  using assms by (cases "ext E c w") (metis holds_def kept_by_calls_def split_conv snd_conv)

lemma kept_run:
  assumes "kept_by_calls A E I" "holds I w" "A c" "\<And>w'. holds I w' \<Longrightarrow> wp U (f w') Q"
  shows "wp U (let w' = run E c w in f w') Q"
  using assms by (simp add: kept_by_calls_def run_def holds_def)

lemma kept_release:
  assumes "kept_by_calls A E I" "holds I w" "A (CRelease t p)" "\<And>w'. holds I w' \<Longrightarrow> wp U (f w') Q"
  shows "wp U (let w' = release_if E t p w in f w') Q"
  using assms by (simp add: kept_by_calls_def run_def release_if_def holds_def)

lemma kept_run_if:
  assumes "kept_by_calls A E I" "holds I w" "A c" "\<And>w'. holds I w' \<Longrightarrow> wp U (f w') Q"
  shows "wp U (let w' = (if b then run E c w else w) in f w') Q"
  using assms by (simp add: kept_by_calls_def run_def holds_def)

lemma kept_init_var: "(\<And>u. U u) \<Longrightarrow> (\<And>x. wp U (f x) Q) \<Longrightarrow> wp U (exec_bind (init_var v) f) Q"
  by (cases v) (simp_all add: init_var_def wp_stuck)

definition keeps :: "('k world \<Rightarrow> bool) \<Rightarrow> int \<times> 'k world \<Rightarrow> bool" where
  "keeps I res \<longleftrightarrow> holds I (snd res)"

lemma keeps_Pair [simp]: "keeps I (rc, w) \<longleftrightarrow> holds I w"
  by (simp add: keeps_def)

locale touching =
  fixes oper :: "'k op" and E :: "'k env" and A :: "call \<Rightarrow> bool"
  assumes touches: "kept_by_calls A E I \<Longrightarrow> holds I w \<Longrightarrow> wp anything (oper w) (keeps I)"
begin

lemma call_touches:
  assumes "kept_by_calls A E I" "holds I w" "\<And>u. U u" "\<And>rc w'. holds I w' \<Longrightarrow> wp U (f rc w') Q"
  shows "wp U (exec_bind (oper w) (\<lambda>(rc, w'). f rc w')) Q"
  by (rule wp_bind, rule wp_mono, rule wp_mono_ub, rule touches, rule assms(1), rule assms(2))
     (use assms(3,4) in \<open>auto simp: keeps_def\<close>)

lemma kept: "kept_by_calls A E I \<Longrightarrow> I w \<Longrightarrow> oper w = ret (rc, w') \<Longrightarrow> I w'"
  using touches [of I w] by (simp add: wp_def holds_def)

end

lemmas kept = kept_run_if kept_release kept_call kept_run kept_init_var wp_ret wp_if wp_stuck
  wp_case_Inl wp_case_Inr wp_case_Pair traced_let


section \<open>The operations\<close>

lemma kept_addr_build:
  assumes "kept_by_calls adding_call E I" "holds I w" "\<And>u. U u" "\<And>rc q w'. holds I w' \<Longrightarrow> wp U (f rc q w') Q"
  shows "wp U (exec_bind (nu_rtnl_addr_build E cidr idx w) (\<lambda>(rc, q, w'). f rc q w')) Q"
proof (rule wp_bind)
  have n: "inet_ntop INET_ADDRSTRLEN a = Some (dotted a)" for a
    by (rule inet_ntop_fits) (simp add: INET_ADDRSTRLEN_def)
  show "wp U (nu_rtnl_addr_build E cidr idx w) (\<lambda>x. wp U (case x of (rc, q, w') \<Rightarrow> f rc q w') Q)"
    unfolding nu_rtnl_addr_build_def nu_rtnl_addr_build_out_def n option.case
    using assms(1,2) apply -
    by (rule wp_any_parse kept assms(3,4) kept_set_err | assumption | simp (no_asm_simp))+
qed

interpretation touches_route: touching "nu_add_routing_rule E sk cidr nxt idx" E adding_call for E sk cidr nxt idx
  by unfold_locales (unfold nu_add_routing_rule_def nu_add_routing_rule_out_def,
    (rule kept kept_set_err | assumption | simp (no_asm_simp))+)

interpretation touches_bridge: touching "nu_create_bridge E sk cidr br" E adding_call for E sk cidr br
  by unfold_locales (unfold nu_create_bridge_def nu_create_bridge_out_def,
    (rule kept_addr_build kept kept_set_err | assumption | simp (no_asm_simp))+)

interpretation touches_vxlan: touching "nu_create_vxlan E sk und vx gr vni" E adding_call for E sk und vx gr vni
  by unfold_locales (unfold nu_create_vxlan_def nu_create_vxlan_out_def,
    (rule kept kept_set_err | assumption | simp (no_asm_simp))+)

interpretation touches_veth: touching "nu_create_veth E sk fd cv tmp host" E adding_call for E sk fd cv tmp host
  by unfold_locales (unfold nu_create_veth_def nu_create_veth_out_def,
    (rule kept kept_set_err | assumption | simp (no_asm_simp))+)

interpretation touches_enable: touching "nu_enable_veth E sk ifname" E adding_call for E sk ifname
  by unfold_locales (unfold nu_enable_veth_def nu_enable_veth_out_def,
    (rule kept kept_set_err | assumption | simp (no_asm_simp))+)

interpretation touches_delete: touching "nu_delete_if E sk ifname" E any_call for E sk ifname
  by unfold_locales (unfold nu_delete_if_def nu_delete_if_out_def,
    (rule kept kept_set_err | assumption | simp (no_asm_simp))+)

interpretation touches_configure: touching "configure_container_veth E fd ifname cidr gw" E adding_call for E fd ifname cidr gw
  by unfold_locales (unfold configure_container_veth_def configure_container_veth_out_def,
    (rule kept_addr_build touches_route.call_touches kept kept_set_err anything | assumption | simp (no_asm_simp))+)

interpretation touches_setup: touching "setup_veth E sk fd cv tmp host cidr gw" E adding_call for E sk fd cv tmp host cidr gw
  by unfold_locales (unfold setup_veth_def,
    (rule touches_veth.call_touches touches_configure.call_touches touches_enable.call_touches kept anything
      | assumption | simp (no_asm_simp))+)

interpretation touches_attach_ifs: touching "attach_ifs_to_bridge E sk host" E adding_call for E sk host
  by unfold_locales (unfold attach_ifs_to_bridge_def attach_ifs_to_bridge_out_def,
    (rule kept kept_set_err | assumption | simp (no_asm_simp))+)

lemma holds_set_attrs:
  "kept_by_calls adding_call E I \<Longrightarrow> holds I w \<Longrightarrow> holds I (nft_set_attrs E e s w)"
proof (induction s arbitrary: w)
  case (Cons av s)
  obtain a v where av: "av = (a, v)" by force
  have "holds I (run E (CSet RExpr e a v) w)" using Cons.prems by (simp add: kept_by_calls_def run_def holds_def)
  with Cons show ?case by (simp add: av)
qed simp

lemma kept_set_attrs:
  assumes "kept_by_calls adding_call E I" "holds I w" "\<And>w'. holds I w' \<Longrightarrow> wp U (f w') Q"
  shows "wp U (let w' = nft_set_attrs E e s w in f w') Q"
  using holds_set_attrs [OF assms(1,2)] assms(3) by simp

lemma kept_add_exprs:
  assumes "kept_by_calls adding_call E I" "holds I w" "\<And>u. U u" "\<And>w'. holds I w' \<Longrightarrow> wp U (f w') Q"
  shows "wp U (exec_bind (nft_add_exprs E r xs w) f) Q"
  using assms(2)
proof (induction xs arbitrary: w)
  case Nil
  then show ?case using assms(4) by simp
next
  case (Cons x xs)
  have "wp U (nft_add_expr E r x w) (holds I)"
    unfolding nft_add_expr_def using assms(1) Cons.prems
    apply -
    by (rule kept_set_attrs kept assms(3) | assumption | simp (no_asm_simp))+
  then have "wp U (nft_add_expr E r x w) (\<lambda>w'. wp U (exec_bind (nft_add_exprs E r xs w') f) Q)"
    by (rule wp_mono) (rule Cons.IH)
  then show ?case by (simp add: exec_bind_assoc wp_bind)
qed

lemma holds_acks:
  assumes "kept_by_calls adding_call E I" "holds I w" "nft_acks E sk q p r w = Some res"
  shows "\<exists>r' w'. res = Inr (r', w') \<and> holds I w'"
proof -
  have "kept_by_calls adding_call E I \<longrightarrow> holds I w \<longrightarrow> (\<exists>r' w'. res = Inr (r', w') \<and> holds I w')"
  proof (rule nft_acks.raw_induct [where P = "\<lambda>E sk q p r w res.
      kept_by_calls adding_call E I \<longrightarrow> holds I w \<longrightarrow> (\<exists>r' w'. res = Inr (r', w') \<and> holds I w')", OF _ assms(3)], intro impI)
    fix acks E sk q p r w res
    assume IH: "\<And>E sk q p r w res. acks E sk q p r w = Some res \<Longrightarrow>
        kept_by_calls adding_call E I \<longrightarrow> holds I w \<longrightarrow> (\<exists>r' w'. res = Inr (r', w') \<and> holds I w')"
      and eq: "(if rv r > 0 then
          (case ext E (CMnlCbRun (rv r) q p) w of
             (r, w) \<Rightarrow>
               if rv r \<le> 0 then ret (r, w)
               else (case ext E (CMnlRecvfrom sk) w of (r, w) \<Rightarrow> acks E sk q p r w))
        else ret (r, w)) = Some res"
      and I: "kept_by_calls adding_call E I" "holds I w"
    have step: "holds I w'" if "ext E c v = (r', w')" "holds I v" "adding_call c" for c v r' w'
      using that I(1) unfolding kept_by_calls_def holds_def by (metis snd_conv)
    show "\<exists>r' w'. res = Inr (r', w') \<and> holds I w'"
      using eq I step IH by (force split: if_splits prod.splits)
  qed
  then show ?thesis using assms(1,2) by blast
qed

lemma kept_acks:
  assumes "kept_by_calls adding_call E I" "holds I w" "\<And>u. U u" "\<And>r' w'. holds I w' \<Longrightarrow> wp U (f r' w') Q"
  shows "wp U (exec_bind (nft_acks E sk q p r w) (\<lambda>(r', w'). f r' w')) Q"
proof (cases "nft_acks E sk q p r w")
  case None
  then show ?thesis by (simp add: wp_None assms(3))
next
  case (Some res)
  from holds_acks [OF assms(1,2) Some] assms(4) Some show ?thesis by force
qed

interpretation touches_nat: touching "nft_nat_rule E ifname cidr" E adding_call for E ifname cidr
  by unfold_locales (unfold nft_nat_rule_def nft_rule_def nft_send_def nft_nat_rule_out_def,
    (rule wp_any_parse wp_any_mask kept_add_exprs kept_acks kept kept_set_err anything
      | assumption | simp (no_asm_simp))+)

interpretation touches_attach: touching "net_attach_container E n i cidr c gw phys" E adding_call for E n i cidr c gw phys
  by unfold_locales (unfold net_attach_container_def net_attach_container_out_def if_names exec_bind_simps,
    (rule touches_bridge.call_touches touches_vxlan.call_touches touches_setup.call_touches
      touches_attach_ifs.call_touches touches_nat.call_touches kept kept_set_err anything
      | assumption | simp (no_asm_simp))+)

lemma wp_any_name: "(\<And>u. U u) \<Longrightarrow> (\<And>s. wp U (f s) Q) \<Longrightarrow> wp U (exec_bind (generate_deterministic_host_if_name n i c) f) Q"
  by (rule wp_names)

interpretation touches_detach: touching "net_detach_container E n i c" E any_call for E n i c
  by unfold_locales (unfold net_detach_container_def net_detach_container_out_def,
    (rule wp_any_name touches_delete.call_touches kept kept_set_err anything
      | assumption | simp (no_asm_simp))+)

end
