(* ===== verification/Requests.thy ===== *)
theory Requests
  imports Kept
begin

text \<open>
  What the kernel is asked for. A call of libnl names local objects and numbers; what the request
  means depends on what was stored in the objects, on the namespace the socket was opened in, on the
  interface an index was given for and on the namespace a descriptor refers to. Here a trace is read
  with that bookkeeping: \<open>kstep\<close> follows the library objects as libnl, libmnl and libnftnl document
  their functions, and every request is recorded with its objects resolved. The calls of libnl wait for
  the kernel's verdict, so their requests are recorded when the kernel accepted them. An nftables batch
  is recorded when it was sent; its verdict comes later, in the acknowledgements, and the refusals read
  there are counted. The scripts of \<open>Calls\<close> thereby become lists of requests that mention names,
  addresses and namespaces only.
\<close>


section \<open>Requests\<close>

text \<open>
  A stored value: a plain one, an address with the prefix length set on it, a namespace, or the name
  of the interface an index stands for.
\<close>

datatype rval = Plain val | Address string "int option" | Namespace netns | Iface string

type_synonym attrs = "(string \<times> rval) list"

text \<open>An nftables message: its type, its flags, the attributes of its object, and its expressions.\<close>

datatype nft_msg = Nft_msg cconst "cconst list" attrs "(string \<times> attrs) list"

text \<open>
  The requests, each with the namespace of the socket it was sent on: creating a link of a kind,
  creating a veth pair, changing and deleting a link, adding an address and a route (with its
  nexthops), and an nftables batch.
\<close>

datatype request =
    New_link netns string attrs
  | New_veth netns string string
  | Change_link netns string attrs
  | Del_link netns string
  | New_addr netns attrs
  | New_route netns attrs "(string \<times> attrs) list"
  | Nft_batch "nft_msg list"

text \<open>
  A local object: the function or the text it was made from (the name of the interface for a link
  fetched from the kernel), the namespace it was fetched in, the prefix length of an address, the
  attributes set on it, and the parts added to it.
\<close>

record lobj =
  made :: string
  seen_in :: netns
  plen :: "int option"
  attrs :: attrs
  parts :: "(string \<times> attrs) list"

record view =
  v_ns :: ns_state
  v_sock :: "ptr \<Rightarrow> netns option"
  v_index :: "netns \<times> int \<Rightarrow> string option"
  v_obj :: "handle \<Rightarrow> lobj"
  v_batch :: "ptr \<Rightarrow> nft_msg list"
  v_reqs :: "request list"
  v_refused :: nat

definition fresh_obj :: "string \<Rightarrow> lobj" where
  "fresh_obj s = \<lparr>made = s, seen_in = Initial_ns, plen = None, attrs = [], parts = []\<rparr>"

definition view0 :: view where
  "view0 = \<lparr>v_ns = (Initial_ns, \<lambda>fd. None), v_sock = (\<lambda>p. None), v_index = (\<lambda>i. None),
     v_obj = (\<lambda>h. fresh_obj []), v_batch = (\<lambda>p. []), v_reqs = [], v_refused = 0\<rparr>"

definition here :: "view \<Rightarrow> netns" where
  "here v = fst (v_ns v)"

definition sock_ns :: "view \<Rightarrow> ptr \<Rightarrow> netns" where
  "sock_ns v sk = (case v_sock v sk of None \<Rightarrow> here v | Some m \<Rightarrow> m)"

definition index_name :: "view \<Rightarrow> netns \<Rightarrow> int \<Rightarrow> string" where
  "index_name v m i = (case v_index v (m, i) of None \<Rightarrow> [] | Some s \<Rightarrow> s)"

definition put :: "view \<Rightarrow> handle \<Rightarrow> lobj \<Rightarrow> view" where
  "put v h ob = v\<lparr>v_obj := (v_obj v)(h := ob)\<rparr>"

definition ask :: "view \<Rightarrow> request \<Rightarrow> view" where
  "ask v q = v\<lparr>v_reqs := v_reqs v @ [q]\<rparr>"

text \<open>A receiving function returned -1: an error, or a refusal among the acknowledgements.\<close>

definition refusal :: "view \<Rightarrow> reply \<Rightarrow> view" where
  "refusal v r = (if rv r = -1 then v\<lparr>v_refused := Suc (v_refused v)\<rparr> else v)"

text \<open>A setter replaces the value the attribute had.\<close>

definition set_attr :: "string \<Rightarrow> rval \<Rightarrow> attrs \<Rightarrow> attrs" where
  "set_attr a x s = filter (\<lambda>(b, _). b \<noteq> a) s @ [(a, x)]"

definition value_of :: "view \<Rightarrow> val \<Rightarrow> rval" where
  "value_of v x = (case x of
       VObj t p \<Rightarrow> Address (made (v_obj v (t, p))) (plen (v_obj v (t, p)))
     | VFd fd \<Rightarrow> (case snd (v_ns v) fd of None \<Rightarrow> Plain x | Some m \<Rightarrow> Namespace m)
     | _ \<Rightarrow> Plain x)"

text \<open>The attributes that are interface indices, read in the namespace of the socket.\<close>

definition index_attrs :: "string set" where
  "index_attrs = {''rtnl_link_vxlan_set_link'', ''rtnl_link_set_master'', ''rtnl_addr_set_ifindex'',
     ''rtnl_route_nh_set_ifindex''}"

definition resolved :: "view \<Rightarrow> netns \<Rightarrow> attrs \<Rightarrow> attrs" where
  "resolved v m = map (\<lambda>(a, x). (a, if a \<in> index_attrs then
       (case x of Plain (VInt i) \<Rightarrow> Iface (index_name v m i) | _ \<Rightarrow> x) else x))"

text \<open>The target of a change is the original link; the index in the changes is not part of it.\<close>

definition changes :: "attrs \<Rightarrow> attrs" where
  "changes = filter (\<lambda>(a, _). a \<noteq> ''rtnl_link_set_ifindex'')"

fun kstep :: "view \<Rightarrow> exchange \<Rightarrow> view" where
  "kstep v (COpen path, r) = v\<lparr>v_ns := ns_step (v_ns v) (COpen path, r)\<rparr>"
| "kstep v (CSetns fd, r) = v\<lparr>v_ns := ns_step (v_ns v) (CSetns fd, r)\<rparr>"
| "kstep v (CAlloc t f, r) = put v (t, outp r) (fresh_obj f)"
| "kstep v (CNlConnect sk pr, r) = (if 0 \<le> rv r then v\<lparr>v_sock := (v_sock v)(sk \<mapsto> here v)\<rparr> else v)"
| "kstep v (CNlAddrParse s f, r) = (if 0 \<le> rv r then put v (RNlAddr, outp r) (fresh_obj s) else v)"
| "kstep v (CSet t p a x, r) =
     (let ob = v_obj v (t, p) in
      put v (t, p) (if a = ''nl_addr_set_prefixlen'' then (case x of VInt i \<Rightarrow> ob\<lparr>plen := Some i\<rparr> | _ \<Rightarrow> ob)
                    else ob\<lparr>attrs := set_attr a (value_of v x) (attrs ob)\<rparr>))"
| "kstep v (CIfNameToIndex s, r) = v\<lparr>v_index := (v_index v)((here v, rv r) \<mapsto> s)\<rparr>"
| "kstep v (CLinkGetKernel sk i nm, r) =
     (if 0 \<le> rv r then
        put v (RLink, outp r)
          (fresh_obj (case nm of Some s \<Rightarrow> s | None \<Rightarrow> index_name v (sock_ns v sk) i)\<lparr>seen_in := sock_ns v sk\<rparr>)
      else v)"
| "kstep v (CLinkGetIfindex p, r) =
     (let ob = v_obj v (RLink, p) in v\<lparr>v_index := (v_index v)((seen_in ob, rv r) \<mapsto> made ob)\<rparr>)"
| "kstep v (CRouteSetDst p a, r) =
     (if 0 \<le> rv r then
        (let ob = v_obj v (RRoute, p) in
         put v (RRoute, p)
           (ob\<lparr>attrs := set_attr ''rtnl_route_set_dst'' (value_of v (VObj RNlAddr a)) (attrs ob)\<rparr>))
      else v)"
| "kstep v (CRouteAddNexthop p n, r) =
     (let ob = v_obj v (RRoute, p) in
      put v (RRoute, p) (ob\<lparr>parts := parts ob @ [(made (v_obj v (RNexthop, n)), attrs (v_obj v (RNexthop, n)))]\<rparr>))"
| "kstep v (CRuleAddExpr p e, r) =
     (let ob = v_obj v (RRule, p) in
      put v (RRule, p) (ob\<lparr>parts := parts ob @ [(made (v_obj v (RExpr, e)), attrs (v_obj v (RExpr, e)))]\<rparr>))"
| "kstep v (CLinkAdd sk l fl, r) =
     (if 0 \<le> rv r then
        (let ob = v_obj v (RLink, l) in ask v (New_link (sock_ns v sk) (made ob) (resolved v (sock_ns v sk) (attrs ob))))
      else v)"
| "kstep v (CLinkVethAdd sk a b pid, r) = (if 0 \<le> rv r then ask v (New_veth (sock_ns v sk) a b) else v)"
| "kstep v (CLinkChange sk l ch fl, r) =
     (if 0 \<le> rv r then
        ask v (Change_link (sock_ns v sk) (made (v_obj v (RLink, l)))
                 (changes (resolved v (sock_ns v sk) (attrs (v_obj v (RLink, ch))))))
      else v)"
| "kstep v (CLinkDelete sk l, r) =
     (if 0 \<le> rv r then ask v (Del_link (sock_ns v sk) (made (v_obj v (RLink, l)))) else v)"
| "kstep v (CAddrAdd sk a fl, r) =
     (if 0 \<le> rv r then ask v (New_addr (sock_ns v sk) (resolved v (sock_ns v sk) (attrs (v_obj v (RAddr, a)))))
      else v)"
| "kstep v (CRouteAdd sk p fl, r) =
     (if 0 \<le> rv r then
        (let ob = v_obj v (RRoute, p) in
         ask v (New_route (sock_ns v sk) (attrs ob)
                  (map (\<lambda>(k, s). (k, resolved v (sock_ns v sk) s)) (parts ob))))
      else v)"
| "kstep v (CBatchBegin b q, r) = v\<lparr>v_batch := (v_batch v)(b := [])\<rparr>"
| "kstep v (CBuildHdr b ty fam fl q, r) =
     v\<lparr>v_batch := (v_batch v)(b := v_batch v b @ [Nft_msg ty fl [] []])\<rparr>"
| "kstep v (CBuildPayload b t p, r) =
     (case rev (v_batch v b) of
        Nft_msg ty fl _ _ # ms \<Rightarrow>
          v\<lparr>v_batch := (v_batch v)(b := rev ms @ [Nft_msg ty fl (attrs (v_obj v (t, p))) (parts (v_obj v (t, p)))])\<rparr>
      | [] \<Rightarrow> v)"
| "kstep v (CMnlSendto sk b, r) = (if 0 \<le> rv r then ask v (Nft_batch (v_batch v b)) else v)"
| "kstep v (CMnlRecvfrom sk, r) = refusal v r"
| "kstep v (CMnlCbRun n q p, r) = refusal v r"
| "kstep v (c, r) = v"

definition view_of :: "exchange list \<Rightarrow> view" where
  "view_of es = foldl kstep view0 es"

definition requests :: "'k world \<Rightarrow> request list" where
  "requests w = v_reqs (view_of (trace w))"

definition refusals :: "'k world \<Rightarrow> nat" where
  "refusals w = v_refused (view_of (trace w))"


section \<open>Fresh objects\<close>

text \<open>
  The bookkeeping is only meaningful when the outside does not hand out an object that is in use, as
  \<open>malloc\<close> and the kernel do not: \<open>L\<close> is the set of objects in use.
\<close>

definition live_step :: "handle set \<Rightarrow> exchange \<Rightarrow> handle set" where
  "live_step L e = L - set (gives_up (fst e)) \<union> set (acquires (fst e) (snd e))"

fun fresh_from :: "handle set \<Rightarrow> exchange list \<Rightarrow> bool" where
  "fresh_from L [] \<longleftrightarrow> True"
| "fresh_from L (e # es) \<longleftrightarrow> set (acquires (fst e) (snd e)) \<inter> L = {} \<and> fresh_from (live_step L e) es"

text \<open>
  This is what is documented of the allocation functions, for single calls: with \<open>live k\<close> at least the
  objects in use in the state \<open>k\<close> of the outside, no call hands out an object of \<open>live k\<close>.
\<close>

definition allocates :: "'k env \<Rightarrow> ('k \<Rightarrow> handle set) \<Rightarrow> bool" where
  "allocates E live \<longleftrightarrow> (\<forall>c k. case answer E c k of (r, k') \<Rightarrow>
     set (acquires c r) \<inter> live k = {} \<and> live_step (live k) (c, r) \<subseteq> live k')"

lemma fresh_from_append: "fresh_from L (es @ fs) \<longleftrightarrow> fresh_from L es \<and> fresh_from (foldl live_step L es) fs"
  by (induction es arbitrary: L) auto

lemma live_step_mono: "L \<subseteq> L' \<Longrightarrow> live_step L e \<subseteq> live_step L' e"
  by (auto simp: live_step_def)

text \<open>So the objects of a whole run are fresh.\<close>

definition fresh_since :: "('k \<Rightarrow> handle set) \<Rightarrow> 'k world \<Rightarrow> 'k world \<Rightarrow> bool" where
  "fresh_since live w0 w \<longleftrightarrow> (\<exists>es. trace w = trace w0 @ es \<and> fresh_from (live (kern w0)) es \<and>
     foldl live_step (live (kern w0)) es \<subseteq> live (kern w))"

lemma fresh_since_kept: "allocates E live \<Longrightarrow> kept_by_calls A E (fresh_since live w0)"
  unfolding kept_by_calls_def
proof (intro conjI allI impI)
  fix c w assume E: "allocates E live" and "fresh_since live w0 w"
  then obtain es where es: "trace w = trace w0 @ es" "fresh_from (live (kern w0)) es"
    "foldl live_step (live (kern w0)) es \<subseteq> live (kern w)"
    by (auto simp: fresh_since_def)
  obtain r k where r: "answer E c (kern w) = (r, k)" by force
  have f: "set (acquires c r) \<inter> live (kern w) = {}" "live_step (live (kern w)) (c, r) \<subseteq> live k"
    using E [unfolded allocates_def, rule_format, of c "kern w"] r by simp_all
  have "fresh_from (live (kern w0)) (es @ [(c, r)])"
    using es(2,3) f(1) by (auto simp: fresh_from_append)
  moreover have "foldl live_step (live (kern w0)) (es @ [(c, r)]) \<subseteq> live k"
    using live_step_mono [OF es(3), of "(c, r)"] f(2) by simp
  ultimately show "fresh_since live w0 (snd (ext E c w))"
    using es(1) r unfolding fresh_since_def by (intro exI [of _ "es @ [(c, r)]"]) (simp add: ext_def)
qed (simp add: fresh_since_def)

lemma fresh_since_start: "fresh_since live w w"
  by (simp add: fresh_since_def)


section \<open>Reading the scripts\<close>


text \<open>The definitions the bookkeeping of a concrete list of exchanges unfolds to.\<close>

lemmas reading = ask_def set_attr_def value_of_def resolved_def index_attrs_def changes_def index_name_def
  sock_ns_def here_def fresh_obj_def live_step_def Let_def

lemma put_put [simp]: "put (put v h x) h y = put v h y"
  by (simp add: put_def)

lemma put_obj [simp]: "v_obj (put v h x) h' = (if h' = h then x else v_obj v h')"
  by (simp add: put_def)

lemma put_others [simp]:
  "v_reqs (put v h x) = v_reqs v" "v_ns (put v h x) = v_ns v" "v_sock (put v h x) = v_sock v"
  "v_batch (put v h x) = v_batch v" "v_index (put v h x) = v_index v" "v_refused (put v h x) = v_refused v"
  by (simp_all add: put_def)

text \<open>An operation leaves the namespaces alone, adds requests and reads no refusal.\<close>

definition asks_for :: "view \<Rightarrow> request list \<Rightarrow> view \<Rightarrow> bool" where
  "asks_for v qs v' \<longleftrightarrow> v_reqs v' = v_reqs v @ qs \<and> v_ns v' = v_ns v \<and> v_sock v' = v_sock v \<and>
     v_refused v' = v_refused v"

definition address_attrs :: "in_addr \<Rightarrow> int \<Rightarrow> rval \<Rightarrow> attrs" where
  "address_attrs a p dev = [(''rtnl_addr_set_family'', Plain (VConst AF_INET)),
     (''rtnl_addr_set_scope'', Plain (VConst RT_SCOPE_UNIVERSE)),
     (''rtnl_addr_set_local'', Address (dotted a) (Some p)), (''rtnl_addr_set_ifindex'', dev)]"

lemma addr_build_view:
  assumes "addr_build_calls a p idx addr es" "fresh_from L es"
  shows "asks_for v [] (foldl kstep v es)" "v_index (foldl kstep v es) = v_index v"
    "attrs (v_obj (foldl kstep v es) (RAddr, addr)) = address_attrs a p (Plain (VInt idx))"
    "t \<notin> {RAddr, RNlAddr} \<Longrightarrow> v_obj (foldl kstep v es) (t, q) = v_obj v (t, q)"
    "foldl live_step L es = insert (RAddr, addr) L" "(RAddr, addr) \<notin> L"
  using assms by (auto elim!: addr_build_calls.cases simp: reading asks_for_def address_attrs_def)

lemma resolved_address [simp]:
  "resolved v m (address_attrs a p (Plain (VInt i))) = address_attrs a p (Iface (index_name v m i))"
  by (simp add: address_attrs_def resolved_def index_attrs_def)

definition route_request :: "netns \<Rightarrow> string \<Rightarrow> string \<Rightarrow> string \<Rightarrow> request" where
  "route_request m dst gw dev = New_route m
     [(''rtnl_route_set_family'', Plain (VConst AF_INET)), (''rtnl_route_set_table'', Plain (VConst RT_TABLE_MAIN)),
      (''rtnl_route_set_protocol'', Plain (VConst RTPROT_STATIC)), (''rtnl_route_set_scope'', Plain (VConst RT_SCOPE_UNIVERSE)),
      (''rtnl_route_set_type'', Plain (VConst RTN_UNICAST)), (''rtnl_route_set_dst'', Address dst None)]
     [(''rtnl_route_nh_alloc'', [(''rtnl_route_nh_set_ifindex'', Iface dev), (''rtnl_route_nh_set_gateway'', Address gw None)])]"

lemma route_view:
  assumes "route_calls sk cidr gw idx es" "fresh_from L es" "v_sock v sk = Some m"
  shows "asks_for v [route_request m cidr gw (index_name v m idx)] (foldl kstep v es)"
    "foldl live_step L es = L"
proof -
  from assms(1) show "asks_for v [route_request m cidr gw (index_name v m idx)] (foldl kstep v es)"
  proof cases
    case (route_added route r0 dst r6 gw')
    then have "dst \<noteq> gw'"
      using assms(2) by (simp add: live_step_def)
    with route_added assms(3) show ?thesis by (simp add: reading asks_for_def route_request_def)
  qed
  from assms(1) show "foldl live_step L es = L"
  proof cases
    case (route_added route r0 dst r6 gw' r7 r8 nh)
    with assms(2) show ?thesis by (auto simp: live_step_def)
  qed
qed

definition bridge_request :: "netns \<Rightarrow> string \<Rightarrow> request" where
  "bridge_request m br = New_link m ''rtnl_link_alloc'' [(''rtnl_link_set_name'', Plain (VStr br)),
     (''rtnl_link_set_type'', Plain (VStr ''bridge'')), (''rtnl_link_set_flags'', Plain (VConst IFF_UP))]"

inductive bridge_requests :: "netns \<Rightarrow> string \<Rightarrow> string \<Rightarrow> request list \<Rightarrow> bool" for m cidr br where
  "bridge_requests m cidr br []"
| "util_cidr_parse cidr = ret (Inr (a, p)) \<Longrightarrow>
    bridge_requests m cidr br [bridge_request m br, New_addr m (address_attrs a p (Iface br))]"

definition vxlan_request :: "netns \<Rightarrow> string \<Rightarrow> string \<Rightarrow> string \<Rightarrow> int \<Rightarrow> request" where
  "vxlan_request m und vx gr vni = New_link m ''rtnl_link_vxlan_alloc'' [(''rtnl_link_set_name'', Plain (VStr vx)),
     (''rtnl_link_vxlan_set_id'', Plain (VInt vni)), (''rtnl_link_vxlan_set_group'', Address gr None),
     (''rtnl_link_vxlan_set_port'', Plain (VInt 4789)), (''rtnl_link_set_flags'', Plain (VConst IFF_UP)),
     (''rtnl_link_vxlan_set_link'', Iface und)]"

lemma vxlan_view:
  assumes "vxlan_calls sk und vx gr vni es" "fresh_from L es" "v_sock v sk = Some m" "here v = m"
  shows "asks_for v [] (foldl kstep v es) \<or> asks_for v [vxlan_request m und vx gr vni] (foldl kstep v es)"
    "foldl live_step L es = L"
  using assms by (elim vxlan_calls.cases; simp add: reading asks_for_def vxlan_request_def)+

lemma enable_view:
  assumes "enable_calls sk ifname es" "fresh_from L es" "v_sock v sk = Some m" "here v = m"
  shows "asks_for v [Change_link m ifname [(''rtnl_link_set_flags'', Plain (VConst IFF_UP))]] (foldl kstep v es)"
    "foldl live_step L es = L"
  using assms by (elim enable_calls.cases; simp add: reading asks_for_def)+

lemma delete_view:
  assumes "delete_calls sk ifname es" "fresh_from L es" "v_sock v sk = Some m" "here v = m"
  shows "asks_for v [Del_link m ifname] (foldl kstep v es)"
    "foldl live_step L es = L"
  using assms by (elim delete_calls.cases; simp add: reading asks_for_def)+

lemma attach_ifs_view:
  assumes "attach_ifs_calls sk host es" "fresh_from L es" "v_sock v sk = Some m" "here v = m"
  shows "asks_for v [Change_link m HOST_VXLAN_NAME [(''rtnl_link_set_master'', Iface HOST_BRIDGE_NAME)],
      Change_link m host [(''rtnl_link_set_master'', Iface HOST_BRIDGE_NAME)]] (foldl kstep v es)"
    and "foldl live_step L es = L"
proof -
  from assms(1) show "asks_for v [Change_link m HOST_VXLAN_NAME [(''rtnl_link_set_master'', Iface HOST_BRIDGE_NAME)],
      Change_link m host [(''rtnl_link_set_master'', Iface HOST_BRIDGE_NAME)]] (foldl kstep v es)"
  proof cases
    case (ifs_attached br r0 vx r1 ve r2 ch r3)
    then have "distinct [br, vx, ve, ch]"
      using assms(2) by (simp add: live_step_def)
    with ifs_attached assms(3,4) show ?thesis by (simp add: reading asks_for_def)
  qed
  from assms(1) show "foldl live_step L es = L"
  proof cases
    case (ifs_attached br r0 vx r1 ve r2 ch r3)
    with assms(2) show ?thesis by (auto simp: live_step_def)
  qed
qed

lemma asks_for_trans: "asks_for v qs u \<Longrightarrow> asks_for u qs' u' \<Longrightarrow> asks_for v (qs @ qs') u'"
  by (simp add: asks_for_def)

lemma live_append: "foldl live_step L (es @ fs) = foldl live_step (foldl live_step L es) fs"
  by simp

text \<open>Giving an address to an interface: the object is built, used and released.\<close>

lemma address_view:
  assumes "addr_build_calls a p idx addr es" "fresh_from L es" "0 \<le> rv r" "v_sock v sk = Some m"
  shows "asks_for v [New_addr m (address_attrs a p (Iface (index_name v m idx)))]
      (foldl kstep v (es @ [(CAddrAdd sk addr fl, r)]))"
    and "foldl live_step L (es @ [(CAddrAdd sk addr fl, r)]) = insert (RAddr, addr) L" "(RAddr, addr) \<notin> L"
    and "v_index (foldl kstep v (es @ [(CAddrAdd sk addr fl, r)])) = v_index v"
proof -
  note u = addr_build_view [OF assms(1,2)]
  have "v_sock (foldl kstep v es) sk = Some m" using u(1) [of v] assms(4) by (simp add: asks_for_def)
  then show "asks_for v [New_addr m (address_attrs a p (Iface (index_name v m idx)))]
      (foldl kstep v (es @ [(CAddrAdd sk addr fl, r)]))"
    using u(1,2,3) [of v] assms(3) by (simp add: asks_for_def ask_def sock_ns_def index_name_def)
  show "foldl live_step L (es @ [(CAddrAdd sk addr fl, r)]) = insert (RAddr, addr) L" "(RAddr, addr) \<notin> L"
    using u(5,6) by (simp_all add: live_step_def)
  show "v_index (foldl kstep v (es @ [(CAddrAdd sk addr fl, r)])) = v_index v"
    using u(2) assms(3) by (simp add: ask_def)
qed

lemma bridge_view:
  assumes "bridge_calls sk cidr br es" "fresh_from L es" "v_sock v sk = Some m" "here v = m"
  shows "\<exists>qs. bridge_requests m cidr br qs \<and> asks_for v qs (foldl kstep v es)"
    and "foldl live_step L es = L"
proof -
  have "(\<exists>qs. bridge_requests m cidr br qs \<and> asks_for v qs (foldl kstep v es)) \<and> foldl live_step L es = L"
    using assms(1)
  proof cases
    case (bridge_there r0)
    then show ?thesis by (auto simp: asks_for_def live_step_def intro: bridge_requests.intros)
  next
    case (bridge_created r0 l r1 r5 r6 idx a p addr as r7 r2 r3 r4 r8 r9)
    define pre where "pre = [(CIfNameToIndex br, r0), (CAlloc RLink ''rtnl_link_alloc'', r1),
     (CSet RLink l ''rtnl_link_set_name'' (VStr br), r2),
     (CSet RLink l ''rtnl_link_set_type'' (VStr ''bridge''), r3),
     (CSet RLink l ''rtnl_link_set_flags'' (VConst IFF_UP), r4),
     (CLinkAdd sk l [NLM_F_CREATE], r5), (CIfNameToIndex br, r6)]"
    have es: "es = pre @ (as @ [(CAddrAdd sk addr [NLM_F_CREATE, NLM_F_ACK], r7)]) @ [(CRelease RAddr addr, r8), (CRelease RLink l, r9)]"
      by (simp add: bridge_created pre_def)
    have f: "fresh_from L pre" "fresh_from (foldl live_step L pre) as"
      using assms(2) by (simp_all add: es fresh_from_append)
    let ?v = "foldl kstep v pre"
    have v: "asks_for v [bridge_request m br] ?v" "index_name ?v m idx = br"
      "foldl live_step L pre = insert (RLink, l) L" "(RLink, l) \<notin> L"
      using assms(3,4) f(1) bridge_created(1-5)
      by (simp_all add: pre_def reading asks_for_def bridge_request_def)
    then have s: "v_sock ?v sk = Some m" using assms(3) by (simp add: asks_for_def)
    note u = address_view [OF bridge_created(8) f(2) bridge_created(9) s]
    have "asks_for v ([bridge_request m br] @ [New_addr m (address_attrs a p (Iface br))]) (foldl kstep v es)"
      using asks_for_trans [OF v(1) u(1)] v(2) by (simp add: es asks_for_def)
    then show ?thesis
      using bridge_requests.intros(2) [OF bridge_created(7)] u(2,3) v(3,4) by (auto simp: es live_step_def)
  qed
  then show "\<exists>qs. bridge_requests m cidr br qs \<and> asks_for v qs (foldl kstep v es)" "foldl live_step L es = L"
    by blast+
qed

definition configure_requests :: "netns \<Rightarrow> string \<Rightarrow> string \<Rightarrow> in_addr \<Rightarrow> int \<Rightarrow> request list" where
  "configure_requests t cv gw a p =
     [New_addr t (address_attrs a p (Iface cv)), route_request t ''0.0.0.0/0'' gw cv]"

lemma configure_view:
  assumes "configure_calls fd cv cidr gw es" "fresh_from L es" "snd (v_ns v) fd = Some t" "(RFd, nat fd) \<in> L" "0 \<le> fd"
    "util_cidr_parse cidr = ret (Inr (a, p))"
  shows "v_reqs (foldl kstep v es) = v_reqs v @ configure_requests t cv gw a p"
    and "v_refused (foldl kstep v es) = v_refused v"
    and "here (foldl kstep v es) = here v" "snd (v_ns (foldl kstep v es)) fd = Some t"
    and "(RSock, s) \<in> L \<Longrightarrow> v_sock (foldl kstep v es) s = v_sock v s"
    and "foldl live_step L es = L"
proof -
  have "v_reqs (foldl kstep v es) = v_reqs v @ configure_requests t cv gw a p \<and>
    v_refused (foldl kstep v es) = v_refused v \<and> here (foldl kstep v es) = here v \<and> snd (v_ns (foldl kstep v es)) fd = Some t \<and>
    ((RSock, s) \<in> L \<longrightarrow> v_sock (foldl kstep v es) s = v_sock v s) \<and> foldl live_step L es = L" for s
    using assms(1)
  proof cases
    case (veth_configured home r0 r1 sk r2 r3 r4 idx l r5 a' p' addr as r6 rs r7 r8 r9 r10 r11)
    have ap: "a' = a" "p' = p" using veth_configured(10) assms(6) by simp_all
    define pre where "pre = [(COpen ''/proc/self/ns/net'', r0), (CSetns fd, r1), (CAlloc RSock ''nl_socket_alloc'', r2),
     (CNlConnect sk NETLINK_ROUTE, r3), (CIfNameToIndex cv, r4), (CLinkGetKernel sk idx None, r5)]"
    define post where "post = [(CSetns home, r7), (CRelease RAddr addr, r8), (CRelease RLink l, r9), (CRelease RSock sk, r10),
      (CRelease RFd (nat home), r11)]"
    have es: "es = pre @ (as @ [(CAddrAdd sk addr [NLM_F_CREATE, NLM_F_ACK], r6)]) @ rs @ post"
      by (simp add: veth_configured pre_def post_def)
    have f: "fresh_from L pre" "fresh_from (foldl live_step L pre) as"
      using assms(2) by (simp_all add: es fresh_from_append)
    let ?v = "foldl kstep v pre"
    have v: "v_reqs ?v = v_reqs v \<and> v_refused ?v = v_refused v" "here ?v = t" "snd (v_ns ?v) = (snd (v_ns v))(home \<mapsto> here v)" "home \<noteq> fd"
      "v_sock ?v = (v_sock v)(sk \<mapsto> t)" "index_name ?v t idx = cv" "(RSock, sk) \<notin> L"
      "foldl live_step L pre = {(RLink, l), (RSock, sk), (RFd, nat home)} \<union> L" "(RLink, l) \<notin> L" "(RFd, nat home) \<notin> L"
      using assms(3-5) f(1) veth_configured(2-9)
      by (auto simp: pre_def reading ns_step_def)
    then have s: "v_sock ?v sk = Some t" by simp
    define u where "u = foldl kstep ?v (as @ [(CAddrAdd sk addr [NLM_F_CREATE, NLM_F_ACK], r6)])"
    note a = address_view(1,2,4) [where fl = "[NLM_F_CREATE, NLM_F_ACK]", OF veth_configured(11) f(2) veth_configured(12) s, folded u_def]
      address_view(3) [OF veth_configured(11) f(2) veth_configured(12) s]
    have us: "v_sock u sk = Some t" "index_name u t idx = cv"
      using a(1,3) s v(6) by (simp_all add: asks_for_def index_name_def)
    have g: "fresh_from (insert (RAddr, addr) (foldl live_step L pre)) rs"
      using assms(2) a(2) by (simp add: es fresh_from_append)
    define x where "x = foldl kstep u rs"
    note r = route_view [OF veth_configured(13) g us(1), folded x_def]
    have "asks_for ?v (configure_requests t cv gw a p) x"
      using asks_for_trans [OF a(1) r(1)] v(6) us(2) by (simp add: configure_requests_def ap)
    moreover have "foldl kstep v es = foldl kstep x post" by (simp add: es x_def u_def)
    moreover have "foldl live_step L es = foldl live_step (insert (RAddr, addr) (foldl live_step L pre)) post"
      using a(2) r(2) by (simp add: es)
    ultimately show ?thesis
      using v a(4) assms(3) veth_configured(2,3,14) by (auto simp: post_def asks_for_def ns_step_def here_def live_step_def)
  qed
  then show "v_reqs (foldl kstep v es) = v_reqs v @ configure_requests t cv gw a p"
    "v_refused (foldl kstep v es) = v_refused v" "here (foldl kstep v es) = here v" "snd (v_ns (foldl kstep v es)) fd = Some t"
    "(RSock, s) \<in> L \<Longrightarrow> v_sock (foldl kstep v es) s = v_sock v s" "foldl live_step L es = L"
    by blast+
qed

definition move_request :: "netns \<Rightarrow> netns \<Rightarrow> string \<Rightarrow> string \<Rightarrow> request" where
  "move_request m t tmp cv = Change_link m tmp [(''rtnl_link_set_ns_fd'', Namespace t),
     (''rtnl_link_set_name'', Plain (VStr cv)), (''rtnl_link_set_flags'', Plain (VConst IFF_UP))]"

definition up_request :: "netns \<Rightarrow> string \<Rightarrow> request" where
  "up_request m s = Change_link m s [(''rtnl_link_set_flags'', Plain (VConst IFF_UP))]"

definition enslave_request :: "netns \<Rightarrow> string \<Rightarrow> string \<Rightarrow> request" where
  "enslave_request m s br = Change_link m s [(''rtnl_link_set_master'', Iface br)]"

lemma veth_view:
  assumes "veth_calls sk fd cv tmp host es" "fresh_from L es"
    "v_sock v sk = Some m" "here v = m" "snd (v_ns v) fd = Some t"
  shows "asks_for v [New_veth m host tmp, move_request m t tmp cv] (foldl kstep v es)" "foldl live_step L es = L"
  using assms by (auto elim!: veth_calls.cases simp: reading asks_for_def move_request_def)

definition setup_requests :: "netns \<Rightarrow> netns \<Rightarrow> string \<Rightarrow> string \<Rightarrow> string \<Rightarrow> string \<Rightarrow> in_addr \<Rightarrow> int \<Rightarrow> request list" where
  "setup_requests m t cv tmp host gw a p =
     [New_veth m host tmp, move_request m t tmp cv] @ configure_requests t cv gw a p @ [up_request m host]"

lemma setup_view:
  assumes "setup_calls sk fd cv tmp host cidr gw es" "fresh_from L es"
    "v_sock v sk = Some m" "here v = m" "snd (v_ns v) fd = Some t" "(RFd, nat fd) \<in> L" "0 \<le> fd" "(RSock, sk) \<in> L"
    "util_cidr_parse cidr = ret (Inr (a, p))"
  shows "v_reqs (foldl kstep v es) = v_reqs v @ setup_requests m t cv tmp host gw a p"
    and "v_refused (foldl kstep v es) = v_refused v"
    and "here (foldl kstep v es) = m" "v_sock (foldl kstep v es) sk = Some m"
    and "foldl live_step L es = L"
proof -
  have "v_reqs (foldl kstep v es) = v_reqs v @ setup_requests m t cv tmp host gw a p \<and>
    v_refused (foldl kstep v es) = v_refused v \<and> here (foldl kstep v es) = m \<and> v_sock (foldl kstep v es) sk = Some m \<and> foldl live_step L es = L"
    using assms(1)
  proof cases
    case (veth_set_up e1 e2 e3)
    have f1: "fresh_from L e1" using assms(2) by (simp add: veth_set_up fresh_from_append)
    define v1 where "v1 = foldl kstep v e1"
    note 1 = veth_view [OF veth_set_up(2) f1 assms(3-5), folded v1_def]
    have f2: "fresh_from L e2" using assms(2) 1(2) by (simp add: veth_set_up fresh_from_append)
    have s1: "snd (v_ns v1) fd = Some t" "v_sock v1 sk = Some m" "here v1 = m"
      using 1(1) assms(3-5) by (simp_all add: asks_for_def here_def)
    define v2 where "v2 = foldl kstep v1 e2"
    note 2 = configure_view [OF veth_set_up(3) f2 s1(1) assms(6,7,9), folded v2_def]
    have f3: "fresh_from L e3" using assms(2) 1(2) 2(6) by (simp add: veth_set_up fresh_from_append)
    have s2: "v_sock v2 sk = Some m" "here v2 = m" using 2(3,5) s1 assms(8) by simp_all
    note 3 = enable_view [OF veth_set_up(4) f3 s2]
    have "foldl kstep v es = foldl kstep v2 e3" by (simp add: veth_set_up v2_def v1_def)
    then show ?thesis
      using 1 2 3 s2 by (simp add: asks_for_def setup_requests_def up_request_def here_def veth_set_up(1))
  qed
  then show "v_reqs (foldl kstep v es) = v_reqs v @ setup_requests m t cv tmp host gw a p"
    "v_refused (foldl kstep v es) = v_refused v" "here (foldl kstep v es) = m" "v_sock (foldl kstep v es) sk = Some m" "foldl live_step L es = L"
    by blast+
qed

text \<open>The NAT rule: the expressions are added to the rule one by one, the messages to the batch.\<close>

definition stored :: "nft_expr \<Rightarrow> string \<times> attrs" where
  "stored x = (fst x, map (\<lambda>(a, v). (a, Plain v)) (snd x))"

definition storable :: "nft_expr \<Rightarrow> bool" where
  "storable x \<longleftrightarrow> distinct (map fst (snd x)) \<and> ''nl_addr_set_prefixlen'' \<notin> fst ` set (snd x) \<and>
     (\<forall>y \<in> snd ` set (snd x). \<forall>v. value_of v y = Plain y)"

lemma set_attr_new: "a \<notin> fst ` set s \<Longrightarrow> set_attr a x s = s @ [(a, x)]"
  unfolding set_attr_def by (subst filter_True) (auto simp: image_iff)

lemma set_calls_view:
  assumes "length rs = length s" "storable (k, s)" "fst ` set (attrs ob) \<inter> fst ` set s = {}"
  shows "foldl kstep (put v (RExpr, e) ob) (set_calls e s rs) =
      put v (RExpr, e) (ob\<lparr>attrs := attrs ob @ snd (stored (k, s))\<rparr>)"
    and "foldl live_step L (set_calls e s rs) = L" "fresh_from L (set_calls e s rs)"
  using assms
proof (induction rs s arbitrary: ob rule: list_induct2)
  case (Cons r rs ax s)
  obtain a x where ax: "ax = (a, x)" by force
  { case 1
    then have "kstep (put v (RExpr, e) ob) (CSet RExpr e a x, r) = put v (RExpr, e) (ob\<lparr>attrs := attrs ob @ [(a, Plain x)]\<rparr>)"
      by (auto simp: ax storable_def set_attr_new Let_def)
    then show ?case
      using 1 Cons.IH(1) [of "ob\<lparr>attrs := attrs ob @ [(a, Plain x)]\<rparr>"]
      by (simp add: ax set_calls_def storable_def stored_def) }
  { case 2
    then show ?case using Cons.IH(2) [of ob] by (simp add: ax set_calls_def storable_def live_step_def) }
  { case 3
    then show ?case using Cons.IH(3) [of ob] by (simp add: ax set_calls_def storable_def live_step_def) }
qed (simp_all add: set_calls_def stored_def)

lemma expr_calls_view:
  assumes "expr_calls r xs es" "fresh_from L es" "\<forall>x \<in> set xs. storable x"
  shows "asks_for v [] (foldl kstep v es)" "v_batch (foldl kstep v es) = v_batch v"
    and "v_obj (foldl kstep v es) (RRule, r) = (v_obj v (RRule, r))\<lparr>parts := parts (v_obj v (RRule, r)) @ map stored xs\<rparr>"
    and "foldl live_step L es = L"
  using assms
proof (induction arbitrary: v rule: expr_calls.induct)
  case (one_expr e r0 rs s xs es k r1)
  define added where "added = (\<lambda>v. put (put v (RExpr, e) \<lparr>made = k, seen_in = Initial_ns, plen = None,
      attrs = snd (stored (k, s)), parts = []\<rparr>) (RRule, r)
    ((v_obj v (RRule, r))\<lparr>parts := parts (v_obj v (RRule, r)) @ [stored (k, s)]\<rparr>))"
  have added: "asks_for (added v) qs v' \<longleftrightarrow> asks_for v qs v'"
    "v_batch (added v) = v_batch v" "v_obj (added v) (RRule, r) =
      (v_obj v (RRule, r))\<lparr>parts := parts (v_obj v (RRule, r)) @ [stored (k, s)]\<rparr>" for v qs v'
    by (simp_all add: added_def asks_for_def)
  have u: "foldl kstep v ((CAlloc RExpr k, r0) # set_calls e s rs @ (CRuleAddExpr r e, r1) # es) = foldl kstep (added v) es"
    if "storable (k, s)" for v
    using set_calls_view(1) [OF one_expr(2) that, of "fresh_obj k" v e] one_expr(1)
    by (simp add: added_def fresh_obj_def stored_def Let_def)
  have l: "foldl live_step L ((CAlloc RExpr k, r0) # set_calls e s rs @ (CRuleAddExpr r e, r1) # es) = foldl live_step L es"
    "fresh_from L es" if "storable (k, s)" "fresh_from L ((CAlloc RExpr k, r0) # set_calls e s rs @ (CRuleAddExpr r e, r1) # es)"
    using set_calls_view(2) [OF one_expr(2) that(1), of "fresh_obj k"] one_expr(1) that(2)
    by (auto simp: fresh_from_append live_step_def fresh_obj_def)
  { case (1 v)
    then have k: "storable (k, s)" by simp
    show ?case unfolding u [OF k] using one_expr.IH(1) [of "added v"] l(2) [OF k] 1 by (simp add: added(1)) }
  { case (2 v)
    then have k: "storable (k, s)" by simp
    show ?case unfolding u [OF k] using one_expr.IH(2) [of "added v"] l(2) [OF k] 2 by (simp add: added(2)) }
  { case (3 v)
    then have k: "storable (k, s)" by simp
    show ?case unfolding u [OF k] using one_expr.IH(3) [of "added v"] l(2) [OF k] 3 by (simp add: added(3)) }
  { case 4
    then have k: "storable (k, s)" by simp
    show ?case unfolding l(1) [OF k 4(1)] by (rule one_expr.IH(4)) (use l(2) [OF k] 4 in auto) }
qed (simp_all add: asks_for_def stored_def)


definition nat_request :: "string \<Rightarrow> in_addr \<Rightarrow> 32 word \<Rightarrow> request" where
  "nat_request ifname a m = Nft_batch
     [Nft_msg NFT_MSG_NEWTABLE [NLM_F_CREATE, NLM_F_ACK]
        [(''NFTNL_TABLE_NAME'', Plain (VStr SKNF_NFTABLES_TABLE_NAME)), (''NFTNL_TABLE_FAMILY'', Plain (VConst NFPROTO_IPV4))] [],
      Nft_msg NFT_MSG_NEWCHAIN [NLM_F_CREATE, NLM_F_ACK]
        [(''NFTNL_CHAIN_TABLE'', Plain (VStr SKNF_NFTABLES_TABLE_NAME)),
         (''NFTNL_CHAIN_NAME'', Plain (VStr SKNF_NFTABLES_POSTROUTING_CHAIN_NAME)),
         (''NFTNL_CHAIN_TYPE'', Plain (VStr ''nat'')), (''NFTNL_CHAIN_HOOKNUM'', Plain (VConst NF_INET_POST_ROUTING)),
         (''NFTNL_CHAIN_PRIO'', Plain (VConst NF_IP_PRI_NAT_SRC))] [],
      Nft_msg NFT_MSG_NEWRULE [NLM_F_CREATE, NLM_F_ACK]
        [(''NFTNL_RULE_TABLE'', Plain (VStr SKNF_NFTABLES_TABLE_NAME)),
         (''NFTNL_RULE_CHAIN'', Plain (VStr SKNF_NFTABLES_POSTROUTING_CHAIN_NAME))]
        (map stored (nft_rule_exprs ifname (s_addr a) m))]"

lemma storable_rule: "\<forall>x \<in> set (nft_rule_exprs ifname net m). storable x"
  by (simp add: nft_rule_exprs_def storable_def expr_meta_oifname_def expr_cmp_str_def
      expr_payload_def expr_bitwise_def expr_cmp_data_def expr_masq_def value_of_def)

lemma nat_head_view:
  assumes "nat_head_calls sk b pid r es" "fresh_from L es"
  shows "asks_for v [] (foldl kstep v es)" (is ?a)
    and "\<exists>t c q. nat_request ifname a m = Nft_batch [t, c, q] \<and> v_batch (foldl kstep v es) b = [t, c]" (is ?b)
    and "v_obj (foldl kstep v es) (RRule, r) = (fresh_obj ''nftnl_rule_alloc'')\<lparr>attrs :=
        [(''NFTNL_RULE_TABLE'', Plain (VStr SKNF_NFTABLES_TABLE_NAME)),
         (''NFTNL_RULE_CHAIN'', Plain (VStr SKNF_NFTABLES_POSTROUTING_CHAIN_NAME))]\<rparr>" (is ?c)
    and "foldl live_step L es = {(RMnl, sk), (RBatch, b), (RRule, r)} \<union> L" (is ?d)
    and "(RMnl, sk) \<notin> L" "(RBatch, b) \<notin> L" "(RRule, r) \<notin> L"
proof -
  from assms(1) show ?a ?b ?c
    by (cases, simp add: reading asks_for_def nat_request_def)+
  from assms(1) show ?d "(RMnl, sk) \<notin> L" "(RBatch, b) \<notin> L" "(RRule, r) \<notin> L"
    by (cases, use assms(2) in \<open>auto simp: live_step_def\<close>)+
qed

lemma nat_tail_view:
  assumes "nat_tail_calls sk b r es" "fresh_from L es"
  shows "asks_for v [Nft_batch (v_batch v b @ [Nft_msg NFT_MSG_NEWRULE [NLM_F_CREATE, NLM_F_ACK]
      (attrs (v_obj v (RRule, r))) (parts (v_obj v (RRule, r)))])] (foldl kstep v es)" (is ?a)
    and "foldl live_step L es = L - {(RRule, r), (RBatch, b)}" (is ?b)
proof -
  from assms(1) show ?a by (cases) (simp add: reading asks_for_def refusal_def)
  from assms(1) show ?b by (cases) (auto simp: live_step_def)
qed

lemma ack_calls_view:
  assumes "ack_calls sk q p es"
  shows "foldl kstep v es = v" "foldl live_step L es = L" "fresh_from L es"
proof -
  have "foldl kstep v es = v \<and> foldl live_step L es = L \<and> fresh_from L es"
    using assms
  proof (induction es)
    case (Cons e es)
    obtain c r where e: "e = (c, r)" by force
    have "(c = CMnlRecvfrom sk \<or> (\<exists>n. c = CMnlCbRun n q p)) \<and> rv r \<noteq> -1" using Cons.prems by (auto simp: ack_calls_def e)
    then have "kstep v e = v" "live_step L e = L" "acquires (fst e) (snd e) = []" by (auto simp: e live_step_def refusal_def)
    moreover have "ack_calls sk q p es" using Cons.prems by (simp add: ack_calls_def)
    ultimately show ?case using Cons.IH by simp
  qed simp
  then show "foldl kstep v es = v" "foldl live_step L es = L" "fresh_from L es" by blast+
qed

lemma nat_view:
  assumes "nat_calls ifname cidr es" "fresh_from L es" "util_cidr_parse cidr = ret (Inr (a, p))" "nft_mask p = ret m"
  shows "asks_for v [nat_request ifname a m] (foldl kstep v es)" "foldl live_step L es = L"
proof -
  have "asks_for v [nat_request ifname a m] (foldl kstep v es) \<and> foldl live_step L es = L"
    using assms(1)
  proof cases
    case (nat_installed a' p' m' sk b pid r hs xs ts acks r')
    have eq: "a' = a" "p' = p" "m' = m" using nat_installed(2,3) assms(3,4) by simp_all
    have f1: "fresh_from L hs" using assms(2) by (simp add: nat_installed fresh_from_append)
    define v1 where "v1 = foldl kstep v hs"
    note 1 = nat_head_view(1) [OF nat_installed(4) f1, where v = v, folded v1_def]
      nat_head_view(2) [OF nat_installed(4) f1, where v = v and a = a and m = m and ifname = ifname, folded v1_def]
      nat_head_view(3) [OF nat_installed(4) f1, where v = v, folded v1_def]
      nat_head_view(4-7) [OF nat_installed(4) f1]
    have f2: "fresh_from (foldl live_step L hs) xs" using assms(2) by (simp add: nat_installed fresh_from_append)
    define v2 where "v2 = foldl kstep v1 xs"
    note 2 = expr_calls_view(1-3) [OF nat_installed(5) f2 storable_rule, where v = v1, folded v2_def]
      expr_calls_view(4) [OF nat_installed(5) f2 storable_rule]
    have f3: "fresh_from (foldl live_step L hs) ts" using assms(2) 2(4) by (simp add: nat_installed fresh_from_append)
    define v3 where "v3 = foldl kstep v2 ts"
    note 3 = nat_tail_view(1) [OF nat_installed(6) f3, where v = v2, folded v3_def]
      nat_tail_view(2) [OF nat_installed(6) f3]
    note 4 = ack_calls_view [OF nat_installed(7)]
    obtain t c q where tc: "nat_request ifname a m = Nft_batch [t, c, q]" "v_batch v1 b = [t, c]"
      using 1(2) by blast
    have q: "q = Nft_msg NFT_MSG_NEWRULE [NLM_F_CREATE, NLM_F_ACK] (attrs (v_obj v2 (RRule, r))) (parts (v_obj v2 (RRule, r)))"
      using tc(1) 1(3) 2(3) by (simp add: nat_request_def eq fresh_obj_def)
    have "asks_for v ([] @ [] @ [nat_request ifname a m]) v3"
      using asks_for_trans [OF 1(1) asks_for_trans [OF 2(1) 3(1)]] by (simp add: 2(2) tc q)
    moreover have "foldl kstep v es = v3"
      by (simp add: nat_installed v3_def v2_def v1_def 4(1))
    moreover have "foldl live_step L es = L"
    proof -
      have "foldl live_step L es = foldl live_step L hs - {(RRule, r), (RBatch, b)} - {(RMnl, sk)}"
        by (simp add: nat_installed 2(4) 3(2) 4(2) live_step_def)
      then show ?thesis using 1(4-7) by auto
    qed
    ultimately show ?thesis by simp
  qed
  then show "asks_for v [nat_request ifname a m] (foldl kstep v es)" "foldl live_step L es = L" by blast+
qed

definition attach_requests ::
  "netns \<Rightarrow> string \<Rightarrow> string \<Rightarrow> string \<Rightarrow> string \<Rightarrow> in_addr \<Rightarrow> int \<Rightarrow> 32 word \<Rightarrow> string \<Rightarrow> request list" where
  "attach_requests m n i c gw a p mk phys =
     (let host = ''sknf'' @ hex8 (if_hash n i c); tmp = ''tmp'' @ hex8 (if_hash n i c) in
      setup_requests m (Ns_at n) i tmp host gw a p @
      [enslave_request m HOST_VXLAN_NAME HOST_BRIDGE_NAME, enslave_request m host HOST_BRIDGE_NAME,
       nat_request phys a mk])"

lemma attach_view:
  assumes "attach_calls n i cidr c gw phys es" "fresh_from L es" "here v = m" "n \<noteq> ''/proc/self/ns/net''"
    "util_cidr_parse cidr = ret (Inr (a, p))" "nft_mask p = ret mk"
  shows "\<exists>bs vs. v_reqs (foldl kstep v es) = v_reqs v @ bs @ vs @ attach_requests m n i c gw a p mk phys \<and>
      v_refused (foldl kstep v es) = v_refused v \<and> bridge_requests m gw HOST_BRIDGE_NAME bs \<and>
      vs \<in> {[], [vxlan_request m phys HOST_VXLAN_NAME HOST_VXLAN_GROUP HOST_VXLAN_VNI_ID]}"
  using assms(1)
proof cases
  case (container_attached sk r0 r1 fd r2 bs vs ss as ns r3 r4)
  define pre where "pre = [(CAlloc RSock ''nl_socket_alloc'', r0), (CNlConnect sk NETLINK_ROUTE, r1), (COpen n, r2)]"
  define L' where "L' = {(RSock, sk), (RFd, nat fd)} \<union> L"
  have es: "es = pre @ bs @ vs @ ss @ as @ ns @ [(CRelease RFd (nat fd), r3), (CRelease RSock sk, r4)]"
    by (simp add: container_attached pre_def)
  define v0 where "v0 = foldl kstep v pre"
  have v0: "v_reqs v0 = v_reqs v \<and> v_refused v0 = v_refused v" "here v0 = m" "v_sock v0 sk = Some m" "snd (v_ns v0) fd = Some (Ns_at n)"
    "foldl live_step L pre = L'"
    using assms(3,4) container_attached(2-5) by (auto simp: v0_def pre_def reading ns_step_def L'_def)
  have f: "fresh_from L' bs" using assms(2) v0(5) by (simp add: es fresh_from_append)
  obtain qs where b: "bridge_requests m gw HOST_BRIDGE_NAME qs" "asks_for v0 qs (foldl kstep v0 bs)" "foldl live_step L' bs = L'"
    using bridge_view [OF container_attached(6) f v0(3,2)] by blast
  define v1 where "v1 = foldl kstep v0 bs"
  have v1: "here v1 = m" "v_sock v1 sk = Some m" "snd (v_ns v1) fd = Some (Ns_at n)"
    using b(2) v0 by (simp_all add: asks_for_def v1_def here_def)
  have f: "fresh_from L' vs" using assms(2) v0(5) b(3) by (simp add: es fresh_from_append)
  obtain xs where x: "xs \<in> {[], [vxlan_request m phys HOST_VXLAN_NAME HOST_VXLAN_GROUP HOST_VXLAN_VNI_ID]}"
      "asks_for v1 xs (foldl kstep v1 vs)" "foldl live_step L' vs = L'"
    using vxlan_view [OF container_attached(7) f v1(2,1)] by blast
  define v2 where "v2 = foldl kstep v1 vs"
  have v2: "here v2 = m" "v_sock v2 sk = Some m" "snd (v_ns v2) fd = Some (Ns_at n)"
    using x(2) v1 by (simp_all add: asks_for_def v2_def here_def)
  have f: "fresh_from L' ss" using assms(2) v0(5) b(3) x(3) by (simp add: es fresh_from_append)
  have L': "(RFd, nat fd) \<in> L'" "(RSock, sk) \<in> L'" by (simp_all add: L'_def)
  define v3 where "v3 = foldl kstep v2 ss"
  note s = setup_view [OF container_attached(8) f v2(2,1,3) L'(1) container_attached(4) L'(2) assms(5), folded v3_def]
  have f: "fresh_from L' as" using assms(2) v0(5) b(3) x(3) s(5) by (simp add: es fresh_from_append)
  define v4 where "v4 = foldl kstep v3 as"
  note a = attach_ifs_view [OF container_attached(9) f s(4,3), folded v4_def]
  have f: "fresh_from L' ns" using assms(2) v0(5) b(3) x(3) s(5) a(2) by (simp add: es fresh_from_append)
  note t = nat_view(1) [OF container_attached(10) f assms(5,6), where v = v4]
  have "v_reqs (foldl kstep v es) = v_reqs (foldl kstep v4 ns) \<and> v_refused (foldl kstep v es) = v_refused (foldl kstep v4 ns)"
    by (simp add: es v0_def v1_def v2_def v3_def v4_def)
  then show ?thesis
    using b(1,2) x(1,2) s(1,2) a(1) t v0(1)
    by (intro exI [of _ qs] exI [of _ xs])
      (simp add: asks_for_def attach_requests_def enslave_request_def Let_def v1_def v2_def)
qed

lemma detach_view:
  assumes "detach_calls n i c es" "fresh_from L es" "here v = m"
  shows "v_reqs (foldl kstep v es) = v_reqs v @ [Del_link m (''sknf'' @ hex8 (if_hash n i c))]"
  using assms(1)
proof cases
  case (container_detached sk r0 r1 ds r2)
  define pre where "pre = [(CAlloc RSock ''nl_socket_alloc'', r0), (CNlConnect sk NETLINK_ROUTE, r1)]"
  have es: "es = pre @ ds @ [(CRelease RSock sk, r2)]" by (simp add: container_detached pre_def)
  let ?v = "foldl kstep v pre"
  have v: "v_reqs ?v = v_reqs v" "here ?v = m" "v_sock ?v sk = Some m"
    using assms(3) container_detached(2,3) by (simp_all add: pre_def reading)
  have "fresh_from (foldl live_step L pre) ds" using assms(2) by (simp add: es fresh_from_append)
  from delete_view [OF container_detached(4) this v(3,2)] v(1) show ?thesis by (simp add: es asks_for_def)
qed


section \<open>What attaching and detaching ask for\<close>

lemma v_ns_kstep: "v_ns (kstep v e) = ns_step (v_ns v) e"
proof -
  obtain c r where e: "e = (c, r)" by force
  show ?thesis unfolding e
    by (cases c) (simp_all add: ns_step_def ask_def refusal_def Let_def split: list.split nft_msg.split val.split)
qed

lemma view_ns: "v_ns (view_of es) = foldl ns_step (Initial_ns, \<lambda>fd. None) es"
proof -
  have "v_ns (foldl kstep v es) = foldl ns_step (v_ns v) es" for v
    by (induction es arbitrary: v) (simp_all add: v_ns_kstep)
  then show ?thesis by (simp add: view_of_def view0_def)
qed

lemma here_world: "here (view_of (trace w)) = netns w"
  by (simp add: here_def view_ns)

lemma requests_append:
  "trace w' = trace w @ es \<Longrightarrow> requests w' = v_reqs (foldl kstep (view_of (trace w)) es)"
  "trace w' = trace w @ es \<Longrightarrow> refusals w' = v_refused (foldl kstep (view_of (trace w)) es)"
  by (simp_all add: requests_def refusals_def view_of_def)

lemma attach_asks:
  assumes "out_params_filled E" "allocates E live" "net_attach_container E n i cidr c gw phys w = ret (0, w')"
    "n \<noteq> ''/proc/self/ns/net''" "util_cidr_parse cidr = ret (Inr (a, p))" "nft_mask p = ret mk"
  shows "\<exists>bs vs. requests w' = requests w @ bs @ vs @ attach_requests (netns w) n i c gw a p mk phys \<and>
      refusals w' = refusals w \<and> bridge_requests (netns w) gw HOST_BRIDGE_NAME bs \<and>
      vs \<in> {[], [vxlan_request (netns w) phys HOST_VXLAN_NAME HOST_VXLAN_GROUP HOST_VXLAN_VNI_ID]}"
proof -
  obtain es where es: "trace w' = trace w @ es" "attach_calls n i cidr c gw phys es"
    using asks_attach.success [OF assms(1,3)] by blast
  have "fresh_since live w w'"
    by (rule touches_attach.kept [OF fresh_since_kept [OF assms(2)] fresh_since_start assms(3)])
  then have "fresh_from (live (kern w)) es" by (simp add: fresh_since_def es(1))
  from attach_view [OF es(2) this here_world assms(4-6)]
  show ?thesis by (simp add: requests_append [OF es(1)] requests_def [of w] refusals_def [of w])
qed

lemma detach_asks:
  assumes "out_params_filled E" "allocates E live" "net_detach_container E (Some n) (Some i) (Some c) w = ret (0, w')"
  shows "requests w' = requests w @ [Del_link (netns w) (''sknf'' @ hex8 (if_hash n i c))]"
proof -
  obtain es where es: "trace w' = trace w @ es" "detach_calls n i c es"
    using asks_detach.success [OF assms(1,3)] by blast
  have "fresh_since live w w'"
    by (rule touches_detach.kept [OF fresh_since_kept [OF assms(2)] fresh_since_start assms(3)])
  then have "fresh_from (live (kern w)) es" by (simp add: fresh_since_def es(1))
  from detach_view [OF es(2) this here_world]
  show ?thesis by (simp add: requests_append [OF es(1)] requests_def [of w])
qed

text \<open>The demo outside numbers the objects it hands out.\<close>

lemma allocates_demo: "allocates demo (\<lambda>k. {(t, p). p \<le> k})"
proof -
  have "(t, p) \<in> set (acquires c \<lparr>rv = demo_rv c k, outp = Suc k, errno = 0\<rparr>) \<Longrightarrow> p = Suc k" for t p c k
    by (cases c) (auto split: if_splits)
  then show ?thesis by (fastforce simp: allocates_def demo_def live_step_def)
qed

end
