(* ===== verification/Node.thy ===== *)
theory Node
  imports Requests
begin

text \<open>
  The state of the node. The plugin's requests are read as changes of an abstract node: its interfaces,
  routes and NAT rules. The kernel that carries them out is not part of the repository, so the change
  a request makes is a parameter; \<open>rtnl_documented\<close> says what is documented of the requests that the
  plugin makes. A successful attach connects the container to the bridge, and a detach takes away
  everything but the NAT rule, if the kernel added it.
\<close>


section \<open>Nodes\<close>

text \<open>
  An interface: whether it is up, the bridge it is enslaved to, for a veth the name that both ends of
  the pair are known by here (that of the host's end), and the addresses given to it, with their
  prefix lengths. A node has interfaces and routes in every namespace, and the rules of the NAT chain,
  whose order does not matter. Only what was asked for is recorded, not what the kernel adds of its own
  accord.
\<close>

record iface =
  running :: bool
  enslaved_to :: "string option"
  pair :: "string option"
  addresses :: "(string \<times> int option) list"

record node =
  ifaces :: "netns \<times> string \<Rightarrow> iface option"
  routes :: "netns \<times> string \<Rightarrow> (string \<times> string) option"
  rules :: "(string \<times> attrs) list multiset"

definition new_iface :: "bool \<Rightarrow> string option \<Rightarrow> iface" where
  "new_iface u pr = \<lparr>running = u, enslaved_to = None, pair = pr, addresses = []\<rparr>"

text \<open>An interface that goes takes the routes over it along; one end of a pair takes the other along.\<close>

definition drop_ifaces :: "(netns \<times> string \<Rightarrow> bool) \<Rightarrow> node \<Rightarrow> node" where
  "drop_ifaces gone N = N\<lparr>ifaces := (\<lambda>k. if gone k then None else ifaces N k),
     routes := (\<lambda>k. case routes N k of
         Some (gw, dev) \<Rightarrow> if gone (fst k, dev) then None else Some (gw, dev) | None \<Rightarrow> None)\<rparr>"

definition with_iface :: "netns \<times> string \<Rightarrow> iface \<Rightarrow> node \<Rightarrow> node" where
  "with_iface k x N = N\<lparr>ifaces := (ifaces N)(k \<mapsto> x)\<rparr>"

definition pair_at :: "node \<Rightarrow> netns \<times> string \<Rightarrow> string option" where
  "pair_at N k = (case ifaces N k of Some x \<Rightarrow> pair x | None \<Rightarrow> None)"

text \<open>A batch with a rule is carried out as a whole or not at all, so the rule is there or it is not.\<close>

definition masq_rule :: "string \<Rightarrow> in_addr \<Rightarrow> 32 word \<Rightarrow> (string \<times> attrs) list" where
  "masq_rule phys a mk = map stored (nft_rule_exprs phys (s_addr a) mk)"

definition tried :: "'a \<Rightarrow> 'a multiset \<Rightarrow> 'a multiset \<Rightarrow> bool" where
  "tried x R R' \<longleftrightarrow> R' = R \<or> R' = add_mset x R"

definition of_pair :: "string \<Rightarrow> node \<Rightarrow> netns \<times> string \<Rightarrow> bool" where
  "of_pair h N k \<longleftrightarrow> pair_at N k = Some h"

text \<open>
  What is documented of the requests, each for a node on which it can be carried out: the creation of
  a bridge or a VXLAN interface creates or changes the interface of that name and no other; a veth pair
  is two new interfaces; a move takes an interface to another namespace, where it has a new name, no
  master and no address; an address, the flag and the master are set on the interface named (a master
  only if there is one), a route in the namespace; the deletion of one end of a pair removes both ends.
  The batch, which was only sent, may add the rule or be refused; it changes nothing else.
\<close>

definition rtnl_documented :: "(request \<Rightarrow> node \<Rightarrow> node) \<Rightarrow> bool" where
  "rtnl_documented K \<longleftrightarrow>
     (\<forall>m br N. \<exists>x. pair x = pair_at N (m, br) \<and> K (bridge_request m br) N = with_iface (m, br) x N) \<and>
     (\<forall>m und vx gr vni N. \<exists>x. pair x = pair_at N (m, vx) \<and> K (vxlan_request m und vx gr vni) N = with_iface (m, vx) x N) \<and>
     (\<forall>m h t N. ifaces N (m, h) = None \<longrightarrow> ifaces N (m, t) = None \<longrightarrow> h \<noteq> t \<longrightarrow>
        K (New_veth m h t) N = with_iface (m, t) (new_iface False (Some h)) (with_iface (m, h) (new_iface False (Some h)) N)) \<and>
     (\<forall>m t d d' N x. m \<noteq> t \<longrightarrow> ifaces N (m, d) = Some x \<longrightarrow> ifaces N (t, d') = None \<longrightarrow>
        K (move_request m t d d') N = with_iface (t, d') (new_iface True (pair x)) (drop_ifaces (\<lambda>k. k = (m, d)) N)) \<and>
     (\<forall>m a p d N x. ifaces N (m, d) = Some x \<longrightarrow>
        K (New_addr m (address_attrs a p (Iface d))) N = with_iface (m, d) (x\<lparr>addresses := addresses x @ [(dotted a, Some p)]\<rparr>) N) \<and>
     (\<forall>m dst gw d N. ifaces N (m, d) \<noteq> None \<longrightarrow>
        K (route_request m dst gw d) N = N\<lparr>routes := (routes N)((m, dst) \<mapsto> (gw, d))\<rparr>) \<and>
     (\<forall>m d N x. ifaces N (m, d) = Some x \<longrightarrow> K (up_request m d) N = with_iface (m, d) (x\<lparr>running := True\<rparr>) N) \<and>
     (\<forall>m d br N. K (enslave_request m d br) N = (case ifaces N (m, d) of None \<Rightarrow> N
        | Some x \<Rightarrow> with_iface (m, d) (x\<lparr>enslaved_to := Some br\<rparr>) N)) \<and>
     (\<forall>m d N h. pair_at N (m, d) = Some h \<longrightarrow> K (Del_link m d) N = drop_ifaces (of_pair h N) N) \<and>
     (\<forall>phys a mk N. \<exists>R. tried (masq_rule phys a mk) (rules N) R \<and> K (nat_request phys a mk) N = N\<lparr>rules := R\<rparr>)"

lemma rtnl_laws:
  assumes "rtnl_documented K"
  shows "\<exists>x. pair x = pair_at N (m, br) \<and> K (bridge_request m br) N = with_iface (m, br) x N"
    and "\<exists>x. pair x = pair_at N (m, vx) \<and> K (vxlan_request m und vx gr vni) N = with_iface (m, vx) x N"
    and "ifaces N (m, h) = None \<Longrightarrow> ifaces N (m, t) = None \<Longrightarrow> h \<noteq> t \<Longrightarrow> K (New_veth m h t) N =
       with_iface (m, t) (new_iface False (Some h)) (with_iface (m, h) (new_iface False (Some h)) N)"
    and "m \<noteq> n \<Longrightarrow> ifaces N (m, d) = Some x \<Longrightarrow> ifaces N (n, d') = None \<Longrightarrow>
       K (move_request m n d d') N = with_iface (n, d') (new_iface True (pair x)) (drop_ifaces (\<lambda>k. k = (m, d)) N)"
    and "ifaces N (m, d) = Some x \<Longrightarrow> K (New_addr m (address_attrs a p (Iface d))) N =
       with_iface (m, d) (x\<lparr>addresses := addresses x @ [(dotted a, Some p)]\<rparr>) N"
    and "ifaces N (m, d) \<noteq> None \<Longrightarrow> K (route_request m dst gw d) N = N\<lparr>routes := (routes N)((m, dst) \<mapsto> (gw, d))\<rparr>"
    and "ifaces N (m, d) = Some x \<Longrightarrow> K (up_request m d) N = with_iface (m, d) (x\<lparr>running := True\<rparr>) N"
    and "K (enslave_request m d br) N = (case ifaces N (m, d) of None \<Rightarrow> N
       | Some x \<Rightarrow> with_iface (m, d) (x\<lparr>enslaved_to := Some br\<rparr>) N)"
    and "pair_at N (m, d) = Some h \<Longrightarrow> K (Del_link m d) N = drop_ifaces (of_pair h N) N"
    and "\<exists>R. tried (masq_rule phys a mk) (rules N) R \<and> K (nat_request phys a mk) N = N\<lparr>rules := R\<rparr>"
proof -
  note d = assms [unfolded rtnl_documented_def]
  note r = d [THEN conjunct1, rule_format]
    d [THEN conjunct2, THEN conjunct1, rule_format]
    d [THEN conjunct2, THEN conjunct2, THEN conjunct1, rule_format]
    d [THEN conjunct2, THEN conjunct2, THEN conjunct2, THEN conjunct1, rule_format]
    d [THEN conjunct2, THEN conjunct2, THEN conjunct2, THEN conjunct2, THEN conjunct1, rule_format]
    d [THEN conjunct2, THEN conjunct2, THEN conjunct2, THEN conjunct2, THEN conjunct2, THEN conjunct1, rule_format]
    d [THEN conjunct2, THEN conjunct2, THEN conjunct2, THEN conjunct2, THEN conjunct2, THEN conjunct2, THEN conjunct1, rule_format]
    d [THEN conjunct2, THEN conjunct2, THEN conjunct2, THEN conjunct2, THEN conjunct2, THEN conjunct2, THEN conjunct2, THEN conjunct1, rule_format]
    d [THEN conjunct2, THEN conjunct2, THEN conjunct2, THEN conjunct2, THEN conjunct2, THEN conjunct2, THEN conjunct2, THEN conjunct2, THEN conjunct1, rule_format]
    d [THEN conjunct2, THEN conjunct2, THEN conjunct2, THEN conjunct2, THEN conjunct2, THEN conjunct2, THEN conjunct2, THEN conjunct2, THEN conjunct2, rule_format]
  show "\<exists>x. pair x = pair_at N (m, br) \<and> K (bridge_request m br) N = with_iface (m, br) x N"
    "\<exists>x. pair x = pair_at N (m, vx) \<and> K (vxlan_request m und vx gr vni) N = with_iface (m, vx) x N"
    "ifaces N (m, h) = None \<Longrightarrow> ifaces N (m, t) = None \<Longrightarrow> h \<noteq> t \<Longrightarrow> K (New_veth m h t) N =
       with_iface (m, t) (new_iface False (Some h)) (with_iface (m, h) (new_iface False (Some h)) N)"
    "m \<noteq> n \<Longrightarrow> ifaces N (m, d) = Some x \<Longrightarrow> ifaces N (n, d') = None \<Longrightarrow>
       K (move_request m n d d') N = with_iface (n, d') (new_iface True (pair x)) (drop_ifaces (\<lambda>k. k = (m, d)) N)"
    "ifaces N (m, d) = Some x \<Longrightarrow> K (New_addr m (address_attrs a p (Iface d))) N =
       with_iface (m, d) (x\<lparr>addresses := addresses x @ [(dotted a, Some p)]\<rparr>) N"
    "ifaces N (m, d) \<noteq> None \<Longrightarrow> K (route_request m dst gw d) N = N\<lparr>routes := (routes N)((m, dst) \<mapsto> (gw, d))\<rparr>"
    "ifaces N (m, d) = Some x \<Longrightarrow> K (up_request m d) N = with_iface (m, d) (x\<lparr>running := True\<rparr>) N"
    "K (enslave_request m d br) N = (case ifaces N (m, d) of None \<Rightarrow> N
       | Some x \<Rightarrow> with_iface (m, d) (x\<lparr>enslaved_to := Some br\<rparr>) N)"
    "pair_at N (m, d) = Some h \<Longrightarrow> K (Del_link m d) N = drop_ifaces (of_pair h N) N"
    "\<exists>R. tried (masq_rule phys a mk) (rules N) R \<and> K (nat_request phys a mk) N = N\<lparr>rules := R\<rparr>"
    by (fact r)+
qed

definition apply_requests :: "(request \<Rightarrow> node \<Rightarrow> node) \<Rightarrow> request list \<Rightarrow> node \<Rightarrow> node" where
  "apply_requests K qs N = fold K qs N"

lemma apply_requests_simps [simp]:
  "apply_requests K [] N = N" "apply_requests K (q # qs) N = apply_requests K qs (K q N)"
  "apply_requests K (qs @ qs') N = apply_requests K qs' (apply_requests K qs N)"
  by (simp_all add: apply_requests_def)

lemma with_iface_simps [simp]:
  "ifaces (with_iface k x N) = (ifaces N)(k \<mapsto> x)" "routes (with_iface k x N) = routes N"
  "rules (with_iface k x N) = rules N"
  by (simp_all add: with_iface_def)

lemma drop_ifaces_simps [simp]:
  "ifaces (drop_ifaces g N) k = (if g k then None else ifaces N k)" "rules (drop_ifaces g N) = rules N"
  "routes (drop_ifaces g N) k = (case routes N k of
     Some (gw, dev) \<Rightarrow> if g (fst k, dev) then None else Some (gw, dev) | None \<Rightarrow> None)"
  by (simp_all add: drop_ifaces_def)

text \<open>The state of the node after the requests made from \<open>w\<close> to \<open>w'\<close>.\<close>

definition node_after :: "(request \<Rightarrow> node \<Rightarrow> node) \<Rightarrow> 'k world \<Rightarrow> 'k world \<Rightarrow> node \<Rightarrow> node" where
  "node_after K w w' N = apply_requests K (drop (length (requests w)) (requests w')) N"

lemma node_after_append: "requests w' = requests w @ qs \<Longrightarrow> node_after K w w' N = apply_requests K qs N"
  by (simp add: node_after_def)


section \<open>Attaching\<close>

text \<open>The interfaces of a container that is attached.\<close>

definition pod_iface :: "string \<Rightarrow> in_addr \<Rightarrow> int \<Rightarrow> iface" where
  "pod_iface host a p = \<lparr>running = True, enslaved_to = None, pair = Some host, addresses = [(dotted a, Some p)]\<rparr>"

definition host_iface :: "string \<Rightarrow> iface" where
  "host_iface host = \<lparr>running = True, enslaved_to = Some HOST_BRIDGE_NAME, pair = Some host, addresses = []\<rparr>"

lemma name_clashes:
  "host = ''sknf'' @ s \<Longrightarrow> tmp = ''tmp'' @ t \<Longrightarrow> host \<noteq> tmp \<and> tmp \<noteq> host \<and>
     HOST_BRIDGE_NAME \<notin> {host, tmp} \<and> HOST_VXLAN_NAME \<notin> {host, tmp}"
  by (auto simp: HOST_BRIDGE_NAME_def HOST_VXLAN_NAME_def)

lemma setup_node:
  assumes K: "rtnl_documented K" and "m \<noteq> t" "host \<noteq> tmp"
    and new: "ifaces N (m, host) = None" "ifaces N (m, tmp) = None" "ifaces N (t, cv) = None"
  shows "ifaces (apply_requests K (setup_requests m t cv tmp host gw a p) N) =
      (ifaces N)((t, cv) \<mapsto> pod_iface host a p, (m, host) \<mapsto> (host_iface host)\<lparr>enslaved_to := None\<rparr>)"
    and "routes (apply_requests K (setup_requests m t cv tmp host gw a p) N) =
      (routes (drop_ifaces (\<lambda>k. k = (m, tmp)) N))((t, ''0.0.0.0/0'') \<mapsto> (gw, cv))"
    and "rules (apply_requests K (setup_requests m t cv tmp host gw a p) N) = rules N"
proof -
  note laws = rtnl_laws(3-7) [OF K]
  define N1 where "N1 = K (New_veth m host tmp) N"
  have N1: "N1 = with_iface (m, tmp) (new_iface False (Some host)) (with_iface (m, host) (new_iface False (Some host)) N)"
    unfolding N1_def by (rule laws(1) [OF new(1,2) assms(3)])
  define N2 where "N2 = K (move_request m t tmp cv) N1"
  have N2: "N2 = with_iface (t, cv) (new_iface True (Some host)) (drop_ifaces (\<lambda>k. k = (m, tmp)) N1)"
    using laws(2) [OF assms(2), of N1 tmp _ cv] new assms(2) unfolding N2_def by (simp add: N1 new_iface_def)
  define N3 where "N3 = K (New_addr t (address_attrs a p (Iface cv))) N2"
  have N3: "N3 = with_iface (t, cv) (pod_iface host a p) N2"
    using laws(3) [of N2 t cv] unfolding N3_def by (simp add: N2 new_iface_def pod_iface_def)
  define N4 where "N4 = K (route_request t ''0.0.0.0/0'' gw cv) N3"
  have N4: "N4 = N3\<lparr>routes := (routes N3)((t, ''0.0.0.0/0'') \<mapsto> (gw, cv))\<rparr>"
    using laws(4) [of N3 t cv] unfolding N4_def by (simp add: N3)
  have "ifaces N4 (m, host) = Some (new_iface False (Some host))"
    using assms(2,3) by (simp add: N4 N3 N2 N1)
  then have N5: "K (up_request m host) N4 = with_iface (m, host) (new_iface True (Some host)) N4"
    using laws(5) [of N4 m host] by (simp add: new_iface_def)
  have "apply_requests K (setup_requests m t cv tmp host gw a p) N =
      with_iface (m, host) (new_iface True (Some host)) N4"
    by (simp add: setup_requests_def configure_requests_def flip: N1_def N2_def N3_def N4_def N5)
  then show "ifaces (apply_requests K (setup_requests m t cv tmp host gw a p) N) =
      (ifaces N)((t, cv) \<mapsto> pod_iface host a p, (m, host) \<mapsto> (host_iface host)\<lparr>enslaved_to := None\<rparr>)"
    "routes (apply_requests K (setup_requests m t cv tmp host gw a p) N) =
      (routes (drop_ifaces (\<lambda>k. k = (m, tmp)) N))((t, ''0.0.0.0/0'') \<mapsto> (gw, cv))"
    "rules (apply_requests K (setup_requests m t cv tmp host gw a p) N) = rules N"
    using assms(2,3) new by (auto simp: N4 N3 N2 N1 fun_eq_iff new_iface_def host_iface_def)
qed

lemma attach_node:
  fixes n i c
  defines "host \<equiv> ''sknf'' @ hex8 (if_hash n i c)" and "tmp \<equiv> ''tmp'' @ hex8 (if_hash n i c)"
  assumes K: "rtnl_documented K" and "m \<noteq> Ns_at n"
    and new: "ifaces N (m, host) = None" "ifaces N (m, tmp) = None" "ifaces N (Ns_at n, i) = None"
  shows "ifaces (apply_requests K (attach_requests m n i c gw a p mk phys) N) =
      (ifaces N)((m, HOST_VXLAN_NAME) := map_option (enslaved_to_update (\<lambda>_. Some HOST_BRIDGE_NAME)) (ifaces N (m, HOST_VXLAN_NAME)),
        (Ns_at n, i) \<mapsto> pod_iface host a p, (m, host) \<mapsto> host_iface host)"
    and "routes (apply_requests K (attach_requests m n i c gw a p mk phys) N) =
      (routes (drop_ifaces (\<lambda>k. k = (m, tmp)) N))((Ns_at n, ''0.0.0.0/0'') \<mapsto> (gw, i))"
    and "tried (masq_rule phys a mk) (rules N) (rules (apply_requests K (attach_requests m n i c gw a p mk phys) N))"
proof -
  have names: "host \<noteq> tmp" "HOST_VXLAN_NAME \<noteq> host" using name_clashes [OF host_def [THEN meta_eq_to_obj_eq] tmp_def [THEN meta_eq_to_obj_eq]] by auto
  define N1 where "N1 = apply_requests K (setup_requests m (Ns_at n) i tmp host gw a p) N"
  note N1 = setup_node [OF K assms(4) names(1) new, of gw a p, folded N1_def]
  define N2 where "N2 = K (enslave_request m HOST_VXLAN_NAME HOST_BRIDGE_NAME) N1"
  have N2: "ifaces N2 = (ifaces N1)((m, HOST_VXLAN_NAME) :=
      map_option (enslaved_to_update (\<lambda>_. Some HOST_BRIDGE_NAME)) (ifaces N (m, HOST_VXLAN_NAME)))"
    "routes N2 = routes N1" "rules N2 = rules N1"
    using names(2) assms(4) unfolding N2_def rtnl_laws(8) [OF K]
    by (auto simp: N1(1) fun_eq_iff split: option.split)
  have "ifaces N2 (m, host) = Some ((host_iface host)\<lparr>enslaved_to := None\<rparr>)" using names(2) by (simp add: N2 N1)
  then have N3: "K (enslave_request m host HOST_BRIDGE_NAME) N2 = with_iface (m, host) (host_iface host) N2"
    unfolding rtnl_laws(8) [OF K] by (simp add: host_iface_def)
  have "apply_requests K (attach_requests m n i c gw a p mk phys) N =
      K (nat_request phys a mk) (with_iface (m, host) (host_iface host) N2)"
    unfolding attach_requests_def Let_def host_def [symmetric] tmp_def [symmetric]
    by (simp flip: N1_def N2_def N3)
  then show "ifaces (apply_requests K (attach_requests m n i c gw a p mk phys) N) =
      (ifaces N)((m, HOST_VXLAN_NAME) := map_option (enslaved_to_update (\<lambda>_. Some HOST_BRIDGE_NAME)) (ifaces N (m, HOST_VXLAN_NAME)),
        (Ns_at n, i) \<mapsto> pod_iface host a p, (m, host) \<mapsto> host_iface host)"
    "routes (apply_requests K (attach_requests m n i c gw a p mk phys) N) =
      (routes (drop_ifaces (\<lambda>k. k = (m, tmp)) N))((Ns_at n, ''0.0.0.0/0'') \<mapsto> (gw, i))"
    "tried (masq_rule phys a mk) (rules N) (rules (apply_requests K (attach_requests m n i c gw a p mk phys) N))"
    using names(2) assms(4) rtnl_laws(10) [OF K, of phys a mk "with_iface (m, host) (host_iface host) N2"]
    by (auto simp: N2 N1 fun_eq_iff)
qed

text \<open>Before that, the bridge and the VXLAN interface may have been created.\<close>

definition only_touched :: "(netns \<times> string) set \<Rightarrow> node \<Rightarrow> node \<Rightarrow> bool" where
  "only_touched S N N' \<longleftrightarrow> (\<forall>k. k \<notin> S \<longrightarrow> ifaces N' k = ifaces N k) \<and> (\<forall>k. pair_at N' k = pair_at N k) \<and>
     routes N' = routes N \<and> rules N' = rules N"

lemma only_touched_with_iface:
  "pair x = pair_at N k \<Longrightarrow> k \<in> S \<Longrightarrow> only_touched S N (with_iface k x N)"
  by (auto simp: only_touched_def pair_at_def)

lemma only_touched_trans: "only_touched S N N' \<Longrightarrow> only_touched S N' N'' \<Longrightarrow> only_touched S N N''"
  by (auto simp: only_touched_def)

lemma created_node:
  assumes K: "rtnl_documented K" and "bridge_requests m gw br bs" "vs \<in> {[], [vxlan_request m und vx gr vni]}"
  shows "only_touched {(m, br), (m, vx)} N (apply_requests K (bs @ vs) N)"
proof -
  have "only_touched {(m, br), (m, vx)} N (apply_requests K bs N)"
    using assms(2)
  proof cases
    case (2 a p)
    obtain x where x: "pair x = pair_at N (m, br)" "K (bridge_request m br) N = with_iface (m, br) x N"
      using rtnl_laws(1) [OF K] by blast
    let ?N1 = "with_iface (m, br) x N" and ?y = "x\<lparr>addresses := addresses x @ [(dotted a, Some p)]\<rparr>"
    have "K (New_addr m (address_attrs a p (Iface br))) ?N1 = with_iface (m, br) ?y ?N1"
      by (rule rtnl_laws(5) [OF K]) simp
    moreover have "only_touched {(m, br), (m, vx)} ?N1 (with_iface (m, br) ?y ?N1)"
      by (rule only_touched_with_iface) (simp_all add: pair_at_def)
    ultimately show ?thesis
      using only_touched_trans [OF only_touched_with_iface [OF x(1)]] x(2) by (simp add: 2(1))
  qed (simp add: only_touched_def)
  moreover have "only_touched {(m, br), (m, vx)} N1 (apply_requests K vs N1)" for N1
    using assms(3) rtnl_laws(2) [OF K, of N1 m vx und gr vni] only_touched_with_iface [of _ N1 "(m, vx)" "{(m, br), (m, vx)}"]
    by (auto simp: only_touched_def)
  ultimately show ?thesis by (auto intro: only_touched_trans)
qed

lemma attached_node:
  fixes n i c
  defines "host \<equiv> ''sknf'' @ hex8 (if_hash n i c)" and "tmp \<equiv> ''tmp'' @ hex8 (if_hash n i c)"
  assumes K: "rtnl_documented K"
    and E: "out_params_filled E" "allocates E live" "net_attach_container E n i cidr c gw phys w = ret (0, w')"
      "n \<noteq> ''/proc/self/ns/net''" "util_cidr_parse cidr = ret (Inr (a, p))" "nft_mask p = ret mk"
    and m: "netns w = m" "m \<noteq> Ns_at n"
    and new: "ifaces N (m, host) = None" "ifaces N (m, tmp) = None" "ifaces N (Ns_at n, i) = None"
  obtains N0 :: node where "only_touched {(m, HOST_BRIDGE_NAME), (m, HOST_VXLAN_NAME)} N N0"
    "ifaces (node_after K w w' N) = (ifaces N0)(
        (m, HOST_VXLAN_NAME) := map_option (enslaved_to_update (\<lambda>_. Some HOST_BRIDGE_NAME)) (ifaces N0 (m, HOST_VXLAN_NAME)),
        (Ns_at n, i) \<mapsto> pod_iface host a p, (m, host) \<mapsto> host_iface host)"
    "routes (node_after K w w' N) = (routes (drop_ifaces (\<lambda>k. k = (m, tmp)) N))((Ns_at n, ''0.0.0.0/0'') \<mapsto> (gw, i))"
    "tried (masq_rule phys a mk) (rules N) (rules (node_after K w w' N))"
proof -
  obtain bs vs where q: "requests w' = requests w @ bs @ vs @ attach_requests m n i c gw a p mk phys"
    and b: "bridge_requests m gw HOST_BRIDGE_NAME bs"
    and v: "vs \<in> {[], [vxlan_request m phys HOST_VXLAN_NAME HOST_VXLAN_GROUP HOST_VXLAN_VNI_ID]}"
    using attach_asks [OF E] m(1) by blast
  define N0 where "N0 = apply_requests K (bs @ vs) N"
  note N0 = created_node [OF K b v, of N, folded N0_def]
  have "(m, host) \<notin> {(m, HOST_BRIDGE_NAME), (m, HOST_VXLAN_NAME)}" "(m, tmp) \<notin> {(m, HOST_BRIDGE_NAME), (m, HOST_VXLAN_NAME)}"
    using name_clashes [OF host_def [THEN meta_eq_to_obj_eq] tmp_def [THEN meta_eq_to_obj_eq]] by auto
  then have new': "ifaces N0 (m, host) = None" "ifaces N0 (m, tmp) = None" "ifaces N0 (Ns_at n, i) = None"
    using N0 new m(2) by (auto simp: only_touched_def)
  have "node_after K w w' N = apply_requests K (attach_requests m n i c gw a p mk phys) N0"
    by (simp add: node_after_append [OF q] N0_def)
  then show ?thesis
    using attach_node [OF K m(2) new' [unfolded host_def tmp_def], folded host_def tmp_def] N0
    by (intro that [of N0]) (simp_all add: only_touched_def drop_ifaces_def)
qed

text \<open>
  A container is connected: its interface is up, with its address and a default route by the gateway,
  and the other end of the pair is up and enslaved to the bridge.
\<close>

definition connected :: "netns \<Rightarrow> string \<Rightarrow> string \<Rightarrow> string \<Rightarrow> string \<Rightarrow> in_addr \<Rightarrow> int \<Rightarrow> node \<Rightarrow> bool" where
  "connected m n i host gw a p N \<longleftrightarrow>
     ifaces N (Ns_at n, i) = Some (pod_iface host a p) \<and> ifaces N (m, host) = Some (host_iface host) \<and>
     routes N (Ns_at n, ''0.0.0.0/0'') = Some (gw, i)"

section \<open>Properties\<close>

text \<open>
  C4. A successful attach has asked the kernel for the requests of \<open>attach_requests\<close>, in this order:
  the pair; its container's end moved into the container's namespace, renamed and up; there its address
  and the default route by the bridge's address; the host's end up; the VXLAN interface and the host's
  end enslaved to the bridge; the NAT rule of the address. Before them came only the creation of the
  bridge with its address and of the VXLAN interface, each or not, and afterwards nothing. Every name,
  address and namespace is what the objects held when the kernel was asked. None of the
  acknowledgements of the NAT rule that were read was a refusal.
\<close>

theorem net_attach_requests:
  assumes "out_params_filled E" "allocates E live" "net_attach_container E n i cidr c gw phys w = ret (0, w')"
    "n \<noteq> ''/proc/self/ns/net''" "util_cidr_parse cidr = ret (Inr (a, p))" "nft_mask p = ret mk"
  shows "\<exists>bs vs. requests w' = requests w @ bs @ vs @ attach_requests (netns w) n i c gw a p mk phys \<and>
      refusals w' = refusals w \<and> bridge_requests (netns w) gw HOST_BRIDGE_NAME bs \<and>
      vs \<in> {[], [vxlan_request (netns w) phys HOST_VXLAN_NAME HOST_VXLAN_GROUP HOST_VXLAN_VNI_ID]}"
  by (rule attach_asks [OF assms])

text \<open>
  C19. A successful detach has asked the kernel for one thing: the deletion of the interface with the
  name that an attach of the same identity gives the host's end.
\<close>

theorem net_detach_requests:
  assumes "out_params_filled E" "allocates E live" "net_detach_container E (Some n) (Some i) (Some c) w = ret (0, w')"
  shows "requests w' = requests w @ [Del_link (netns w) (''sknf'' @ hex8 (if_hash n i c))]"
  by (rule detach_asks [OF assms])

text \<open>
  By the documented meaning of the requests, a successful attach to a namespace other than its own
  in which the interface does not exist yet leaves the container connected, the VXLAN interface, if
  there is one, enslaved to the bridge, and no NAT rule changed but for that of the address, for which
  no refusal was read.
\<close>

lemma attach_connects:
  assumes "rtnl_documented K" "out_params_filled E" "allocates E live"
    "net_attach_container E n i cidr c gw phys w = ret (0, w')"
    "n \<noteq> ''/proc/self/ns/net''" "util_cidr_parse cidr = ret (Inr (a, p))" "nft_mask p = ret mk" "netns w \<noteq> Ns_at n"
    "ifaces N (netns w, ''sknf'' @ hex8 (if_hash n i c)) = None" "ifaces N (netns w, ''tmp'' @ hex8 (if_hash n i c)) = None"
    "ifaces N (Ns_at n, i) = None"
  shows "connected (netns w) n i (''sknf'' @ hex8 (if_hash n i c)) gw a p (node_after K w w' N) \<and>
    (\<forall>x. ifaces (node_after K w w' N) (netns w, HOST_VXLAN_NAME) = Some x \<longrightarrow> enslaved_to x = Some HOST_BRIDGE_NAME) \<and>
    tried (masq_rule phys a mk) (rules N) (rules (node_after K w w' N)) \<and> refusals w' = refusals w"
proof -
  obtain N0 :: node where N0:
    "ifaces (node_after K w w' N) = (ifaces N0)(
        (netns w, HOST_VXLAN_NAME) :=
          map_option (enslaved_to_update (\<lambda>_. Some HOST_BRIDGE_NAME)) (ifaces N0 (netns w, HOST_VXLAN_NAME)),
        (Ns_at n, i) \<mapsto> pod_iface (''sknf'' @ hex8 (if_hash n i c)) a p,
        (netns w, ''sknf'' @ hex8 (if_hash n i c)) \<mapsto> host_iface (''sknf'' @ hex8 (if_hash n i c)))"
    "routes (node_after K w w' N) (Ns_at n, ''0.0.0.0/0'') = Some (gw, i)"
    "tried (masq_rule phys a mk) (rules N) (rules (node_after K w w' N))"
    by (rule attached_node [OF assms(1-7) refl assms(8-11)]) (rule that, auto)
  have "refusals w' = refusals w" using attach_asks [OF assms(2-7)] by blast
  moreover have "HOST_VXLAN_NAME \<noteq> ''sknf'' @ hex8 (if_hash n i c)" by (simp add: HOST_VXLAN_NAME_def)
  ultimately show ?thesis
    using assms(8) N0 by (auto simp: connected_def fun_upd_def simp del: append.simps)
qed

text \<open>
  A detach of the same identity undoes an attach but for the NAT rule: on a node without the interfaces
  of the identity, without routes over them and without a default route in the container's namespace,
  after an attach and a detach that succeed every interface but the bridge and the VXLAN interface and
  every route is as before, and the rules are as after the attach.
\<close>

lemma detach_undoes_attach:
  fixes n i c
  defines "host \<equiv> ''sknf'' @ hex8 (if_hash n i c)" and "tmp \<equiv> ''tmp'' @ hex8 (if_hash n i c)"
  assumes "rtnl_documented K" "out_params_filled E" "allocates E live"
    "net_attach_container E n i cidr c gw phys w = ret (0, w')"
    "n \<noteq> ''/proc/self/ns/net''" "util_cidr_parse cidr = ret (Inr (a, p))" "nft_mask p = ret mk"
    "netns w = m" "m \<noteq> Ns_at n"
    "ifaces N (m, host) = None" "ifaces N (m, tmp) = None" "ifaces N (Ns_at n, i) = None"
    "net_detach_container E (Some n) (Some i) (Some c) v = ret (0, v')" "netns v = m"
    "\<And>k. pair_at N k \<noteq> Some host"
    "\<And>k g d. routes N k = Some (g, d) \<Longrightarrow> (fst k, d) \<notin> {(m, host), (m, tmp), (Ns_at n, i)}"
    "routes N (Ns_at n, ''0.0.0.0/0'') = None"
  shows "(\<forall>k. k \<notin> {(m, HOST_BRIDGE_NAME), (m, HOST_VXLAN_NAME)} \<longrightarrow>
      ifaces (node_after K v v' (node_after K w w' N)) k = ifaces N k) \<and>
    routes (node_after K v v' (node_after K w w' N)) = routes N \<and>
    rules (node_after K v v' (node_after K w w' N)) = rules (node_after K w w' N) \<and>
    tried (masq_rule phys a mk) (rules N) (rules (node_after K w w' N))"
proof -
  have names: "host \<noteq> tmp" "HOST_VXLAN_NAME \<noteq> host" "HOST_VXLAN_NAME \<noteq> tmp"
    using name_clashes [OF host_def [THEN meta_eq_to_obj_eq] tmp_def [THEN meta_eq_to_obj_eq]] by auto
  define N1 where "N1 = node_after K w w' N"
  obtain N0 :: node where N0: "only_touched {(m, HOST_BRIDGE_NAME), (m, HOST_VXLAN_NAME)} N N0"
    "ifaces N1 = (ifaces N0)(
        (m, HOST_VXLAN_NAME) := map_option (enslaved_to_update (\<lambda>_. Some HOST_BRIDGE_NAME)) (ifaces N0 (m, HOST_VXLAN_NAME)),
        (Ns_at n, i) \<mapsto> pod_iface host a p, (m, host) \<mapsto> host_iface host)"
    "routes N1 = (routes (drop_ifaces (\<lambda>k. k = (m, tmp)) N))((Ns_at n, ''0.0.0.0/0'') \<mapsto> (gw, i))"
    "tried (masq_rule phys a mk) (rules N) (rules N1)"
    using attached_node [OF assms(3-14) [unfolded host_def tmp_def], folded host_def tmp_def N1_def] by blast
  have pairs: "pair_at N0 k \<noteq> Some host" for k using N0(1) assms(17) [of k] by (cases k) (simp add: only_touched_def)
  moreover have at: "pair_at N1 k = (if k \<in> {(Ns_at n, i), (m, host)} then Some host else pair_at N0 k)" for k
    by (simp add: pair_at_def N0(2) pod_iface_def host_iface_def split: option.split)
  ultimately have gone: "of_pair host N1 = (\<lambda>k. k \<in> {(Ns_at n, i), (m, host)})"
    by (auto simp: fun_eq_iff of_pair_def)
  have "pair_at N1 (m, host) = Some host" by (simp add: at)
  from rtnl_laws(9) [OF assms(3) this] have N2: "node_after K v v' N1 = drop_ifaces (of_pair host N1) N1"
    using detach_asks [OF assms(4,5,15)] assms(16)
    by (simp add: node_after_append [of v' v] flip: host_def del: append.simps)
  have "ifaces (drop_ifaces (of_pair host N1) N1) k = ifaces N k" if "k \<notin> {(m, HOST_BRIDGE_NAME), (m, HOST_VXLAN_NAME)}" for k
    using that N0(1) assms(12-14) by (cases k) (auto simp: gone N0(2) only_touched_def)
  moreover have "routes (drop_ifaces (of_pair host N1) N1) = routes N"
    using assms(18,19) by (fastforce simp: gone N0(3) fun_eq_iff split: option.split)
  ultimately show ?thesis unfolding N1_def [symmetric] N2 using N0(4) by simp
qed

end
