(* ===== verification/Args.thy ===== *)
theory Args
  imports Env
begin

text \<open>
  \<open>args.c\<close>: what the plugin is asked to do, from the process environment and a JSON text on standard
  input. The JSON library is not part of the repository: it is a parameter \<open>J\<close> of the model.
\<close>


section \<open>The JSON library\<close>

text \<open>
  The functions of json-c the plugin calls. A pointer to a JSON value is an option, NULL being
  \<open>None\<close>, which is also how json-c represents the value \<open>null\<close>. \<open>get_ex J o k\<close> is \<open>None\<close> when the
  key is not found, and \<open>Some v\<close> with the value stored through the out parameter otherwise. The
  values built for a response are complete when they are added to another one, so building them is
  modelled by functions that return the extended value. Who owns the references is recorded apart, in
  \<open>json_refs\<close>.
\<close>

record 'j json_lib =
  tokener_parse :: "string \<Rightarrow> 'j option"
  get_ex :: "'j option \<Rightarrow> string \<Rightarrow> 'j option option"
  get_string :: "'j option \<Rightarrow> string option"
  new_object :: 'j
  new_array :: 'j
  new_string :: "string \<Rightarrow> 'j"
  new_int :: "int \<Rightarrow> 'j"
  object_add :: "'j \<Rightarrow> string \<Rightarrow> 'j \<Rightarrow> 'j"
  array_add :: "'j \<Rightarrow> 'j \<Rightarrow> 'j"
  to_plain_string :: "'j \<Rightarrow> string"


section \<open>The arguments\<close>

definition INPUT_BUFFER_SIZE :: nat where
  "INPUT_BUFFER_SIZE = 64 * 1024"

definition CNI_VERSION :: string where "CNI_VERSION = ''0.4.0''"

definition CNI_CMD_ADD :: string where "CNI_CMD_ADD = ''ADD''"

definition CNI_CMD_DEL :: string where "CNI_CMD_DEL = ''DEL''"

definition CNI_CMD_STATUS :: string where "CNI_CMD_STATUS = ''STATUS''"

definition CNI_CMD_CHECK :: string where "CNI_CMD_CHECK = ''CHECK''"

definition CNI_CMD_GC :: string where "CNI_CMD_GC = ''GC''"

definition CNI_CMD_VERSION :: string where "CNI_CMD_VERSION = ''VERSION''"

record 'j Args =
  cni_version :: "string option"
  name :: "string option"
  type :: "string option"
  subnet :: "string option"
  cluster_cidr :: "string option"
  host_physical_interface :: "string option"
  cni_command :: "string option"
  cni_containerid :: "string option"
  cni_netns :: "string option"
  cni_ifname :: "string option"
  cni_path :: "string option"
  prev_result :: "'j option"
  json_input :: "'j option"

definition zero_args :: "'j Args" where
  "zero_args = \<lparr>cni_version = None, name = None, type = None, subnet = None, cluster_cidr = None,
     host_physical_interface = None, cni_command = None, cni_containerid = None, cni_netns = None,
     cni_ifname = None, cni_path = None, prev_result = None, json_input = None\<rparr>"

text \<open>\<open>strcmp(s, t) == 0\<close>: reading through a NULL \<open>s\<close> is undefined.\<close>

definition streq :: "string option \<Rightarrow> string \<Rightarrow> bool exec" where
  "streq s t = exec_bind (deref s) (\<lambda>s. ret (cstr s = t))"

definition args_validate_add_cmd :: "'j Args \<Rightarrow> int" where
  "args_validate_add_cmd args =
     (if cni_version args = None then 1
      else if name args = None then 1
      else if type args = None then 1
      else if subnet args = None then 1
      else if cluster_cidr args = None then 1
      else if host_physical_interface args = None then 1
      else if cni_command args = None then 1
      else if cni_containerid args = None then 1
      else if cni_netns args = None then 1
      else if cni_ifname args = None then 1
      else if cni_path args = None then 1
      else 0)"

definition args_validate_del_cmd :: "'j Args \<Rightarrow> int" where
  "args_validate_del_cmd args = 0"

definition args_validate_check_cmd :: "'j Args \<Rightarrow> int" where
  "args_validate_check_cmd args = 0"

definition args_free :: "'j Args \<Rightarrow> 'k world \<Rightarrow> 'j Args \<times> 'k world" where
  "args_free args w =
     (if json_input args \<noteq> None then
        let w = json_given Json_input w in (args\<lparr>json_input := None\<rparr>, w)
      else (args, w))"

text \<open>A text field of the configuration: left NULL when the key is not found.\<close>

definition text_field :: "'j json_lib \<Rightarrow> 'j option \<Rightarrow> string \<Rightarrow> string option" where
  "text_field J root key =
     (case get_ex J root key of None \<Rightarrow> None | Some v \<Rightarrow> get_string J v)"

text \<open>The fields as they are filled in before any of them is checked.\<close>

definition args_fill :: "'j json_lib \<Rightarrow> (string \<Rightarrow> string option) \<Rightarrow> string \<Rightarrow> 'j Args" where
  "args_fill J environ input =
     (let buffer = take (INPUT_BUFFER_SIZE - 1) input;
          args = zero_args\<lparr>json_input := tokener_parse J (cstr buffer)\<rparr>;
          root = json_input args
      in args\<lparr>
           cni_version := text_field J root ''cniVersion'',
           name := text_field J root ''name'',
           type := text_field J root ''type'',
           subnet := text_field J root ''subnet'',
           cluster_cidr := text_field J root ''clusterCidr'',
           host_physical_interface := text_field J root ''hostPhysicalInterface'',
           prev_result := (case get_ex J root ''prevResult'' of None \<Rightarrow> None | Some v \<Rightarrow> v),
           cni_command := environ ''CNI_COMMAND'',
           cni_containerid := environ ''CNI_CONTAINERID'',
           cni_netns := environ ''CNI_NETNS'',
           cni_ifname := environ ''CNI_IFNAME'',
           cni_path := environ ''CNI_PATH''\<rparr>)"

text \<open>\<open>json_tokener_parse\<close> gives the plugin a reference to the value it returns, if it returns one.\<close>

definition input_owned :: "'j Args \<Rightarrow> 'k world \<Rightarrow> 'k world" where
  "input_owned args w = (if json_input args \<noteq> None then json_owned Json_input w else w)"

definition args_parse ::
  "'j json_lib \<Rightarrow> (string \<Rightarrow> string option) \<Rightarrow> string \<Rightarrow> 'k world \<Rightarrow> (int \<times> 'j Args \<times> 'k world) exec" where
  "args_parse J environ input w =
     (let args = args_fill J environ input;
          w = input_owned args w
      in
      if cni_command args = None then ret (1, args_free args w)
      else
        exec_bind (streq (cni_version args) CNI_VERSION) (\<lambda>same.
          if \<not> same then ret (1, args_free args w)
          else
            exec_bind (streq (cni_command args) CNI_CMD_ADD) (\<lambda>add.
              if add then
                if args_validate_add_cmd args \<noteq> 0 then ret (1, args_free args w) else ret (0, args, w)
              else
                exec_bind (streq (cni_command args) CNI_CMD_DEL) (\<lambda>del.
                  if del then
                    if args_validate_del_cmd args \<noteq> 0 then ret (1, args_free args w) else ret (0, args, w)
                  else
                    exec_bind (streq (cni_command args) CNI_CMD_CHECK) (\<lambda>check.
                      if check then
                        if args_validate_check_cmd args \<noteq> 0 then ret (1, args_free args w) else ret (0, args, w)
                      else ret (0, args, w))))))"


section \<open>What is accepted\<close>

lemma streq_Some [simp]: "streq (Some s) t = ret (cstr s = t)"
  by (simp add: streq_def)

lemma streq_None [simp]: "streq None t = stuck NullDeref"
  by (simp add: streq_def)

lemma cmd_names [simp]:
  "CNI_CMD_ADD \<noteq> CNI_CMD_DEL" "CNI_CMD_ADD \<noteq> CNI_CMD_STATUS" "CNI_CMD_ADD \<noteq> CNI_CMD_CHECK"
  "CNI_CMD_ADD \<noteq> CNI_CMD_GC" "CNI_CMD_ADD \<noteq> CNI_CMD_VERSION" "CNI_CMD_DEL \<noteq> CNI_CMD_ADD"
  by (simp_all add: CNI_CMD_ADD_def CNI_CMD_DEL_def CNI_CMD_STATUS_def CNI_CMD_CHECK_def CNI_CMD_GC_def
      CNI_CMD_VERSION_def)

text \<open>Every field \<open>cmd_add\<close> reads through is there.\<close>

definition add_ready :: "'j Args \<Rightarrow> bool" where
  "add_ready args \<longleftrightarrow> (\<forall>f \<in> set [cni_version args, name args, type args, subnet args, cluster_cidr args,
     host_physical_interface args, cni_command args, cni_containerid args, cni_netns args, cni_ifname args,
     cni_path args]. f \<noteq> None)"

lemma args_validate_add_cmd_iff: "args_validate_add_cmd args = 0 \<longleftrightarrow> add_ready args"
  by (auto simp: args_validate_add_cmd_def add_ready_def)

text \<open>The reference to the input is the one thing a rejected run acquired, and it gives it back.\<close>

lemma args_free_input_owned [simp]:
  "args_free args (input_owned args w) = (args\<lparr>json_input := None\<rparr>, w)"
  by (simp add: args_free_def input_owned_def)

lemma input_owned_simps [simp]:
  "held (input_owned args w) = held w" "trace (input_owned args w) = trace w" "files (input_owned args w) = files w"
  "out (input_owned args w) = out w" "err (input_owned args w) = err w" "kern (input_owned args w) = kern w"
  "json_refs (input_owned args w) =
    (if json_input args = None then json_refs w else map_option (add_mset Json_input) (json_refs w))"
  by (simp_all add: input_owned_def)

lemma args_parse_Some:
  assumes "args = args_fill J environ input" "cni_command args = Some cmd" "cni_version args = Some v"
  shows "args_parse J environ input w =
    (if cstr v = CNI_VERSION \<and> (cstr cmd = CNI_CMD_ADD \<longrightarrow> add_ready args) then ret (0, args, input_owned args w)
     else ret (1, args\<lparr>json_input := None\<rparr>, w))"
  using assms by (simp add: args_parse_def Let_def args_validate_add_cmd_iff args_validate_del_cmd_def
      args_validate_check_cmd_def)

end
