(* ===== verification/Demo_Json.thy ===== *)
theory Demo_Json
  imports Args Demo "HOL-Library.AList"
begin

text \<open>
  A concrete JSON library for the witnesses: values as a datatype, a printer, and a tokener that
  knows a few texts by heart.
\<close>

datatype jv = JStr string | JInt int | JArr "jv list" | JObj "(string \<times> jv) list"

fun jv_text :: "jv \<Rightarrow> string" and jv_texts :: "jv list \<Rightarrow> string" and jv_fields :: "(string \<times> jv) list \<Rightarrow> string" where
  "jv_text (JStr s) = [CHR 0x22] @ s @ [CHR 0x22]"
| "jv_text (JInt i) = dec_int i"
| "jv_text (JArr xs) = ''['' @ jv_texts xs @ '']''"
| "jv_text (JObj fs) = ''{'' @ jv_fields fs @ ''}''"
| "jv_texts [] = []"
| "jv_texts (x # xs) = jv_text x @ (if xs = [] then [] else '','') @ jv_texts xs"
| "jv_fields [] = []"
| "jv_fields ((k, x) # fs) = [CHR 0x22] @ k @ [CHR 0x22, CHR 0x3A] @ jv_text x @ (if fs = [] then [] else '','') @ jv_fields fs"

definition demo_conf :: jv where
  "demo_conf = JObj [(''cniVersion'', JStr ''0.4.0''), (''name'', JStr ''sknf''), (''type'', JStr ''sknf-cni''),
     (''subnet'', JStr demo_node), (''clusterCidr'', JStr demo_cluster), (''hostPhysicalInterface'', JStr ''enp1s0'')]"

definition jget :: "jv option \<Rightarrow> string \<Rightarrow> jv option option" where
  "jget o' k = (case o' of Some (JObj fs) \<Rightarrow> map_option Some (map_of fs k) | _ \<Rightarrow> None)"

text \<open>The configuration of a plugin that comes after others.\<close>

definition chained_conf :: jv where
  "chained_conf = JObj [(''cniVersion'', JStr ''0.4.0''), (''name'', JStr ''sknf''), (''type'', JStr ''sknf-cni''),
     (''subnet'', JStr demo_node), (''clusterCidr'', JStr demo_cluster), (''hostPhysicalInterface'', JStr ''enp1s0''),
     (''prevResult'', JObj [(''cniVersion'', JStr ''0.4.0'')])]"

definition demo_json :: "jv json_lib" where
  "demo_json = \<lparr>
     tokener_parse = (\<lambda>s. if s = ''conf'' then Some demo_conf else if s = ''chained'' then Some chained_conf else if s = ''old'' then Some (JObj [(''name'', JStr ''sknf'')]) else None),
     get_ex = jget,
     get_string = (\<lambda>v. map_option (\<lambda>x. case x of JStr s \<Rightarrow> s | x \<Rightarrow> jv_text x) v),
     new_object = JObj [], new_array = JArr [], new_string = JStr, new_int = JInt,
     object_add = (\<lambda>ob k v. case ob of JObj fs \<Rightarrow> JObj (AList.update k v fs) | x \<Rightarrow> x),
     array_add = (\<lambda>a v. case a of JArr xs \<Rightarrow> JArr (xs @ [v]) | x \<Rightarrow> x),
     to_plain_string = jv_text\<rparr>"

text \<open>The environment the container runtime sets up for a command.\<close>

definition demo_environ :: "string \<Rightarrow> string \<Rightarrow> string option" where
  "demo_environ cmd = [''CNI_COMMAND'' \<mapsto> cmd, ''CNI_CONTAINERID'' \<mapsto> ''c1'', ''CNI_NETNS'' \<mapsto> ''/var/run/netns/a'',
     ''CNI_IFNAME'' \<mapsto> ''eth0'', ''CNI_PATH'' \<mapsto> ''/opt/cni/bin'']"

definition demo_args :: "string \<Rightarrow> jv Args" where
  "demo_args cmd = args_fill demo_json (demo_environ cmd) ''conf''"

lemma demo_args_fields:
  "cni_version (demo_args cmd) = Some ''0.4.0''" "subnet (demo_args cmd) = Some demo_node"
  "cluster_cidr (demo_args cmd) = Some demo_cluster" "host_physical_interface (demo_args cmd) = Some ''enp1s0''"
  "cni_command (demo_args cmd) = Some cmd" "cni_containerid (demo_args cmd) = Some ''c1''"
  "cni_netns (demo_args cmd) = Some ''/var/run/netns/a''" "cni_ifname (demo_args cmd) = Some ''eth0''"
  "add_ready (demo_args cmd)" "prev_result (demo_args cmd) = None" "json_input (demo_args cmd) = Some demo_conf"
  by (simp_all add: demo_args_def args_fill_def Let_def demo_json_def demo_conf_def jget_def demo_environ_def
      text_field_def INPUT_BUFFER_SIZE_def cstr_def add_ready_def)

definition chained_args :: "string \<Rightarrow> jv Args" where
  "chained_args cmd = args_fill demo_json (demo_environ cmd) ''chained''"

lemma chained_args_fields:
  "cni_version (chained_args cmd) = Some ''0.4.0''" "subnet (chained_args cmd) = Some demo_node"
  "cluster_cidr (chained_args cmd) = Some demo_cluster" "host_physical_interface (chained_args cmd) = Some ''enp1s0''"
  "cni_command (chained_args cmd) = Some cmd" "cni_containerid (chained_args cmd) = Some ''c1''"
  "cni_netns (chained_args cmd) = Some ''/var/run/netns/a''" "cni_ifname (chained_args cmd) = Some ''eth0''"
  "add_ready (chained_args cmd)" "prev_result (chained_args cmd) \<noteq> None" "json_input (chained_args cmd) = Some chained_conf"
  by (simp_all add: chained_args_def args_fill_def Let_def demo_json_def chained_conf_def jget_def demo_environ_def
      text_field_def INPUT_BUFFER_SIZE_def cstr_def add_ready_def)

end
