(* ===== verification/Ip.thy ===== *)
theory Ip
  imports Demo
begin

text \<open>
  \<open>ip.c\<close>: the bridge's address and the allocation of container addresses. The allocator keeps the
  last address it handed out in a file and hands out the next one.
\<close>

definition IP_INFO_FILE_PATH :: string where
  "IP_INFO_FILE_PATH = ''/tmp/sknf-cni-ips''"


section \<open>The code\<close>

text \<open>The address after \<open>a\<close> in host order, wrapping around after 255.255.255.255.\<close>

definition next_addr :: "in_addr \<Rightarrow> in_addr" where
  "next_addr a = (let ip_int = ntohl (s_addr a); ip_int = ip_int + 1 in In_addr (htonl ip_int))"

definition get_first_allocable_ip :: "string \<Rightarrow> (Err + string) exec" where
  "get_first_allocable_ip cidr =
     exec_bind (util_cidr_parse cidr) (\<lambda>parsed.
       case parsed of
         Inl e \<Rightarrow> ret (Inl e)
       | Inr (addr, prefix) \<Rightarrow>
           (case util_cidr_serialize (next_addr addr) prefix of
              Inl e \<Rightarrow> ret (Inl e)
            | Inr txt \<Rightarrow> ret (Inr txt)))"

definition ip_bridge :: "string \<Rightarrow> string \<Rightarrow> (Err + string) exec" where
  "ip_bridge node_cidr cluster_cidr =
     exec_bind (util_cidr_parse node_cidr) (\<lambda>node.
       case node of
         Inl e \<Rightarrow> ret (Inl e)
       | Inr (node_cidr_addr, node_cidr_prefix) \<Rightarrow>
           exec_bind (util_cidr_parse cluster_cidr) (\<lambda>cluster.
             case cluster of
               Inl e \<Rightarrow> ret (Inl e)
             | Inr (cluster_cidr_addr, cluster_cidr_prefix) \<Rightarrow>
                 (case util_cidr_serialize (next_addr node_cidr_addr) cluster_cidr_prefix of
                    Inl e \<Rightarrow> ret (Inl e)
                  | Inr txt \<Rightarrow> ret (Inr txt))))"

text \<open>Dropping the trailing white space of the text read.\<close>

definition is_trailing_space :: "char \<Rightarrow> bool" where
  "is_trailing_space c \<longleftrightarrow> of_char c \<in> {10 :: nat, 13, 32, 9}"

function trim_end :: "string \<Rightarrow> string" where
  "trim_end s = (if s \<noteq> [] \<and> is_trailing_space (last s) then trim_end (butlast s) else s)"
  by pat_completeness auto
termination
  by (relation "measure length") auto

declare trim_end.simps [simp del]

text \<open>The last acquired CIDR: from the file when there is one, else the bridge's address.\<close>

definition ip_last_acquired :: "'k env \<Rightarrow> string \<Rightarrow> 'k world \<Rightarrow> ((Err + string) \<times> 'k world) exec" where
  "ip_last_acquired E node_cidr w =
     (let (there, w) = io_file_exists E (Some IP_INFO_FILE_PATH) w in
      if there then
        let (rc, txt, w) = io_read_file_into E (Some IP_INFO_FILE_PATH) (Some []) CIDR_BUFFER_LEN w in
        if rc \<noteq> 0 then
          ret (Inl (errf_of ''ip_container_acquire: failure reading file''
                      (quoted ''%s'' @ '' (rc=%d)'') [AStr IP_INFO_FILE_PATH, AInt rc]), w)
        else ret (Inr (trim_end txt), w)
      else exec_bind (get_first_allocable_ip node_cidr) (\<lambda>first. ret (first, w)))"

text \<open>The next address, stored in the file.\<close>

definition ip_next :: "'k env \<Rightarrow> string \<Rightarrow> string \<Rightarrow> 'k world \<Rightarrow> ((int \<times> string) \<times> 'k world) exec" where
  "ip_next E cluster_cidr last_acquired_cidr w =
     exec_bind (util_cidr_parse last_acquired_cidr) (\<lambda>lst.
       case lst of
         Inl e \<Rightarrow> ret ((1, []), set_err e w)
       | Inr (last_acquired_cidr_addr, last_acquired_cidr_prefix) \<Rightarrow>
           exec_bind (util_cidr_parse cluster_cidr) (\<lambda>cluster.
             case cluster of
               Inl e \<Rightarrow> ret ((1, []), set_err e w)
             | Inr (cluster_cidr_addr, cluster_cidr_prefix) \<Rightarrow>
                 (case util_cidr_serialize (next_addr last_acquired_cidr_addr) cluster_cidr_prefix of
                    Inl e \<Rightarrow> ret ((1, []), set_err e w)
                  | Inr txt \<Rightarrow>
                      let (rc, w) = io_write_text E (Some IP_INFO_FILE_PATH) (Some txt) w in
                      if rc \<noteq> 0 then
                        ret ((1, txt), set_err (errf_of ''ip_container_acquire: failed writing''
                                                 (quoted ''%s'') [AStr txt]) w)
                      else ret ((0, txt), w))))"

definition ip_container_acquire ::
  "'k env \<Rightarrow> string \<Rightarrow> string \<Rightarrow> 'k world \<Rightarrow> ((int \<times> string) \<times> 'k world) exec" where
  "ip_container_acquire E node_cidr cluster_cidr w =
     exec_bind (ip_last_acquired E node_cidr w) (\<lambda>(lst, w).
       case lst of
         Inl e \<Rightarrow> ret ((1, []), set_err e w)
       | Inr last_acquired_cidr \<Rightarrow> ip_next E cluster_cidr last_acquired_cidr w)"


section \<open>Facts about the addresses\<close>

lemma host_addr_next [simp]: "host_addr (next_addr a) = host_addr a + 1"
  by (simp add: next_addr_def host_addr_def Let_def)

lemma is_proc_ip_info [simp]: "\<not> is_proc IP_INFO_FILE_PATH"
  by (simp add: is_proc_def IP_INFO_FILE_PATH_def)

lemma util_cidr_serialize_in_range:
  "int_range p \<Longrightarrow> (case util_cidr_serialize a p of Inl e \<Rightarrow> x e | Inr txt \<Rightarrow> y txt) = y (cidr_text a p)"
  by (simp add: util_cidr_serialize_eq)

lemma wp_serialize:
  "int_range p \<Longrightarrow> wp U (y (cidr_text a p)) Q \<Longrightarrow>
     wp U (case util_cidr_serialize a p of Inl e \<Rightarrow> x e | Inr txt \<Rightarrow> y txt) Q"
  by (simp add: util_cidr_serialize_in_range)

lemma get_first_allocable_ip_eq:
  "util_cidr_parse cidr = ret (Inr (a, p)) \<Longrightarrow> get_first_allocable_ip cidr = ret (Inr (cidr_text (next_addr a) p))"
  by (simp add: get_first_allocable_ip_def util_cidr_serialize_in_range util_cidr_parse_range)

lemma ip_bridge_eq:
  "util_cidr_parse node = ret (Inr (a, p)) \<Longrightarrow> util_cidr_parse cluster = ret (Inr (b, q)) \<Longrightarrow>
     ip_bridge node cluster = ret (Inr (cidr_text (next_addr a) q))"
  by (simp add: ip_bridge_def util_cidr_serialize_in_range util_cidr_parse_range)

lemma wp_get_first_allocable_ip:
  assumes "64 \<le> length (cstr cidr) \<Longrightarrow> U (Some BufferOverflow)"
    and "\<And>e. reported e \<Longrightarrow> wp U (f (Inl e)) Q"
    and "\<And>a p. int_range p \<Longrightarrow> wp U (f (Inr (cidr_text a p))) Q"
  shows "wp U (exec_bind (get_first_allocable_ip cidr) f) Q"
  unfolding get_first_allocable_ip_def
  by (rule wp_bind) (rule wp_serialize walk | simp (no_asm_simp) add: assms)+

lemma wp_ip_bridge:
  assumes "64 \<le> length (cstr node) \<Longrightarrow> U (Some BufferOverflow)"
    and "64 \<le> length (cstr cluster) \<Longrightarrow> U (Some BufferOverflow)"
    and "\<And>e. reported e \<Longrightarrow> wp U (f (Inl e)) Q"
    and "\<And>a p. int_range p \<Longrightarrow> wp U (f (Inr (cidr_text a p))) Q"
  shows "wp U (exec_bind (ip_bridge node cluster) f) Q"
  unfolding ip_bridge_def
  by (rule wp_bind) (rule wp_serialize walk | simp (no_asm_simp) add: assms)+

lemma trim_end_id: "s = [] \<or> \<not> is_trailing_space (last s) \<Longrightarrow> trim_end s = s"
  by (subst trim_end.simps) auto

lemma trim_end_dropWhile: "trim_end s = rev (dropWhile is_trailing_space (rev s))"
proof (induction s rule: rev_induct)
  case (snoc c s)
  then show ?case by (subst trim_end.simps) simp
qed (simp add: trim_end_id)

lemma length_trim_end: "length (trim_end s) \<le> length s"
  using length_dropWhile_le [of is_trailing_space "rev s"] by (simp add: trim_end_dropWhile)

lemma last_cidr_text: "\<not> is_trailing_space (last (cidr_text a p))"
proof -
  have "last (cidr_text a p) = last (dec_int p)"
    by (cases "dec_int p = []") (simp_all add: cidr_text_def dec_int_def split: if_splits)
  moreover have "is_digit (last (dec_int p))"
    using dec_nat_digits [OF last_in_set [OF dec_nat_Nil]] by (auto simp: dec_int_def)
  ultimately show ?thesis by (auto simp: is_digit_def is_trailing_space_def)
qed

lemma trim_end_cidr_text [simp]: "trim_end (cidr_text a p) = cidr_text a p"
  by (simp add: trim_end_id last_cidr_text)

lemma cidr_text_inject: "cidr_text a p = cidr_text b p \<longleftrightarrow> a = b"
  by (metis append_same_eq cidr_text_def inet_pton_dotted option.inject)


section \<open>The contract\<close>

text \<open>
  Whatever the outside does: the objects are given back, no file but the allocator's is touched,
  a failure is reported, and on success the file holds the text handed out. The text read from the
  file cannot overflow the parser's array, only the two texts from the configuration can.
\<close>

lemma length_cstr_le: "length (cstr s) \<le> length s"
  by (simp add: cstr_def length_takeWhile_le)

lemma wp_ip_next:
  assumes "held w = Some H" "length lst < 64"
    and "64 \<le> length (cstr cluster) \<Longrightarrow> U (Some BufferOverflow)"
    and ok: "\<And>a b p w'. int_range p \<Longrightarrow> util_cidr_parse cluster = ret (Inr (b, p)) \<Longrightarrow> held w' = Some H \<Longrightarrow> err w' = err w \<Longrightarrow> out w' = out w \<Longrightarrow>
      (\<And>q. q \<noteq> IP_INFO_FILE_PATH \<Longrightarrow> files w' q = files w q) \<Longrightarrow>
      files w' IP_INFO_FILE_PATH = Some (cidr_text a p) \<Longrightarrow> Q ((0, cidr_text a p), w')"
    and fail: "\<And>s w'. held w' = Some H \<Longrightarrow> out w' = out w \<Longrightarrow> reported (err w') \<Longrightarrow>
      (\<And>q. q \<noteq> IP_INFO_FILE_PATH \<Longrightarrow> files w' q = files w q) \<Longrightarrow> Q ((1, s), w')"
  shows "wp U (ip_next E cluster lst w) Q"
  unfolding ip_next_def using length_cstr_le [of lst] assms(2)
  apply -
  by (rule wp_serialize wp_write_text_let [OF assms(1)] walk ok fail
      | simp (no_asm_simp) add: cidr_text_no_nul assms(1,3))+

lemma wp_ip_last_acquired:
  assumes "held w = Some H"
    and "64 \<le> length (cstr node) \<Longrightarrow> U (Some BufferOverflow)"
    and "\<And>s w'. held w' = Some H \<Longrightarrow> files w' = files w \<Longrightarrow> err w' = err w \<Longrightarrow> out w' = out w \<Longrightarrow>
      length s < 64 \<Longrightarrow> wp U (f (Inr s) w') Q"
    and "\<And>e w'. held w' = Some H \<Longrightarrow> files w' = files w \<Longrightarrow> err w' = err w \<Longrightarrow> out w' = out w \<Longrightarrow>
      reported e \<Longrightarrow> wp U (f (Inl e) w') Q"
  shows "wp U (exec_bind (ip_last_acquired E node w) (\<lambda>(r, w'). f r w')) Q"
proof -
  have short: "length (cidr_text a p) < 64" if "int_range p" for a p
    using cidr_text_len [OF that, of a] by simp
  have trim: "length (trim_end s) < 64" if "length s < CIDR_BUFFER_LEN - 1" for s
    using length_trim_end [of s] that by (simp add: CIDR_BUFFER_LEN_def)
  show ?thesis
    unfolding ip_last_acquired_def
    apply (rule wp_bind)
    by (rule wp_file_exists_let wp_read_file_let wp_get_first_allocable_ip walk assms(3,4)
        | simp (no_asm_simp) add: assms(1,2) short | fastforce simp: trim)+
qed

lemma wp_ip_container_acquire:
  assumes "held w = Some H"
    and "64 \<le> length (cstr node) \<Longrightarrow> U (Some BufferOverflow)"
    and "64 \<le> length (cstr cluster) \<Longrightarrow> U (Some BufferOverflow)"
    and ok: "\<And>a b p w'. int_range p \<Longrightarrow> util_cidr_parse cluster = ret (Inr (b, p)) \<Longrightarrow> held w' = Some H \<Longrightarrow> err w' = err w \<Longrightarrow> out w' = out w \<Longrightarrow>
      (\<And>q. q \<noteq> IP_INFO_FILE_PATH \<Longrightarrow> files w' q = files w q) \<Longrightarrow>
      files w' IP_INFO_FILE_PATH = Some (cidr_text a p) \<Longrightarrow> wp U (f 0 (cidr_text a p) w') Q"
    and fail: "\<And>s w'. held w' = Some H \<Longrightarrow> out w' = out w \<Longrightarrow> reported (err w') \<Longrightarrow>
      (\<And>q. q \<noteq> IP_INFO_FILE_PATH \<Longrightarrow> files w' q = files w q) \<Longrightarrow> wp U (f 1 s w') Q"
  shows "wp U (exec_bind (ip_container_acquire E node cluster w) (\<lambda>((rc, s), w'). f rc s w')) Q"
proof (rule wp_bind)
  show "wp U (ip_container_acquire E node cluster w) (\<lambda>a. wp U (case a of (x, w') \<Rightarrow> (case x of (rc, s) \<Rightarrow> f rc s) w') Q)"
    unfolding ip_container_acquire_def
    apply (rule wp_ip_last_acquired [OF assms(1)])
    by (rule walk wp_ip_next ok fail | simp (no_asm_simp) add: assms(1-3))+
qed


section \<open>The allocator as a counter\<close>

text \<open>
  What an allocator promises: it hands out the address after the last one and remembers it.
  \<open>counter\<close> reads the last address off the state, \<open>handed\<close> is the result that hands out an address.
\<close>

primrec repeat_op :: "nat \<Rightarrow> ('w \<Rightarrow> ('a \<times> 'w) exec) \<Rightarrow> 'w \<Rightarrow> ('a list \<times> 'w) exec" where
  "repeat_op 0 f w = ret ([], w)"
| "repeat_op (Suc k) f w =
     exec_bind (f w) (\<lambda>(a, w). exec_bind (repeat_op k f w) (\<lambda>(as, w). ret (a # as, w)))"

definition upto_word :: "32 word \<Rightarrow> nat \<Rightarrow> 32 word list" where
  "upto_word n k = map (\<lambda>i. n + 1 + word_of_nat i) [0..<k]"

lemma upto_word_simps: "upto_word n 0 = []" "upto_word n (Suc k) = (n + 1) # upto_word (n + 1) k"
  by (simp_all add: upto_word_def map_Suc_upt [symmetric] upt_conv_Cons ac_simps del: upt_Suc)

lemma upto_word_snoc: "upto_word n (Suc k) = upto_word n k @ [n + 1 + word_of_nat k]"
  by (simp add: upto_word_def)

lemma length_upto_word [simp]: "length (upto_word n k) = k"
  by (simp add: upto_word_def)

lemma distinct_upto_word: "k < 2 ^ 32 \<Longrightarrow> distinct (n # upto_word n k)"
proof -
  assume k: "k < 2 ^ 32"
  have inj: "inj_on (\<lambda>i. word_of_nat i :: 32 word) (set [0..<Suc k])"
    using k by (auto intro!: inj_onI simp: word_of_nat_inject_less)
  have "n # upto_word n k = map (\<lambda>i. n + word_of_nat i) [0..<Suc k]"
    by (simp add: upto_word_def upt_conv_Cons map_Suc_upt [symmetric] ac_simps del: upt_Suc)
  moreover have "distinct (map (\<lambda>i. n + word_of_nat i) [0..<Suc k])"
    using inj by (simp only: distinct_map distinct_upt inj_on_def add_left_cancel simp_thms)
  ultimately show ?thesis by simp
qed

locale counter_allocator =
  fixes lib :: bool and acquire :: "'w \<Rightarrow> ('a \<times> 'w) exec"
    and counter :: "'w \<Rightarrow> 32 word option" and handed :: "32 word \<Rightarrow> 'a"
  assumes step: "lib \<Longrightarrow> counter w = Some n \<Longrightarrow>
      \<exists>w'. acquire w = ret (handed (n + 1), w') \<and> counter w' = Some (n + 1)"
    and handed_inj: "handed m = handed n \<Longrightarrow> m = n"
begin

lemma many:
  "lib \<Longrightarrow> counter w = Some n \<Longrightarrow>
     \<exists>w'. repeat_op k acquire w = ret (map handed (upto_word n k), w') \<and> counter w' = Some (n + word_of_nat k)"
proof (induction k arbitrary: w n)
  case (Suc k)
  from step [OF Suc.prems] obtain w1
    where w1: "acquire w = ret (handed (n + 1), w1)" "counter w1 = Some (n + 1)" by blast
  from Suc.IH [OF Suc.prems(1) w1(2)] w1(1) show ?case
    by (auto simp: upto_word_simps ac_simps)
qed (simp add: upto_word_simps)

lemma many_distinct:
  assumes "lib" "counter w = Some n" "k < 2 ^ 32"
  shows "\<exists>as w'. repeat_op k acquire w = ret (as, w') \<and> length as = k \<and> distinct (handed n # as)"
proof -
  obtain w' where "repeat_op k acquire w = ret (map handed (upto_word n k), w')"
    using many [OF assms(1,2)] by blast
  moreover have "distinct (map handed (n # upto_word n k))"
    using distinct_upto_word [OF assms(3), of n] handed_inj
    by (simp only: distinct_map) (auto intro: inj_onI)
  ultimately show ?thesis by simp
qed

end


text \<open>The counter of \<open>ip.c\<close>: from the file, or the bridge's address when there is none.\<close>

definition parsed_host :: "string \<Rightarrow> 32 word option" where
  "parsed_host s =
     (case util_cidr_parse s of
        Some (Inr (Inr (a, p))) \<Rightarrow> Some (host_addr a)
      | _ \<Rightarrow> None)"

definition ip_counter :: "string \<Rightarrow> 'k world \<Rightarrow> 32 word option" where
  "ip_counter node_cidr w =
     (if held w = None then None
      else case files w IP_INFO_FILE_PATH of
             None \<Rightarrow> map_option (\<lambda>n. n + 1) (parsed_host node_cidr)
           | Some txt \<Rightarrow> if length txt < CIDR_BUFFER_LEN - 1 then parsed_host (trim_end txt) else None)"

definition ip_text :: "int \<Rightarrow> 32 word \<Rightarrow> string" where
  "ip_text prefix n = cidr_text (In_addr (htonl n)) prefix"

lemma parsed_host_Some:
  "parsed_host s = Some n \<longleftrightarrow> (\<exists>a p. util_cidr_parse s = ret (Inr (a, p)) \<and> host_addr a = n)"
  by (auto simp: parsed_host_def split: option.splits sum.splits)

lemma host_addr_htonl [simp]: "host_addr (In_addr (htonl n)) = n"
  by (simp add: host_addr_def)

lemma ip_text_of_host: "cidr_text a p = ip_text p (host_addr a)"
  by (cases a) (simp add: ip_text_def host_addr_def)

lemma parsed_host_ip_text [simp]: "int_range p \<Longrightarrow> parsed_host (ip_text p n) = Some n"
  by (auto simp: parsed_host_Some ip_text_def util_cidr_parse_text)

lemma ip_text_inject: "ip_text p m = ip_text p n \<longleftrightarrow> m = n"
  by (metis cidr_text_inject host_addr_htonl ip_text_def)


lemma ip_last_acquired_works:
  assumes "stdio_works E" "ip_counter node w = Some n" "held w = Some H"
  shows "\<exists>s w'. ip_last_acquired E node w = ret (Inr s, w') \<and> parsed_host s = Some n \<and>
    held w' = Some H \<and> files w' = files w \<and> quiet w w'"
proof -
  obtain b w1 where e: "io_file_exists E (Some IP_INFO_FILE_PATH) w = (b, w1)" by force
  note k = io_file_exists_keeps [OF e assms(3)] io_file_exists_works [OF assms(1) e]
  show ?thesis
  proof (cases "files w IP_INFO_FILE_PATH")
    case None
    with assms obtain a p where ap: "util_cidr_parse node = ret (Inr (a, p))" "n = host_addr a + 1"
      by (auto simp: ip_counter_def parsed_host_Some)
    have "int_range p" by (rule util_cidr_parse_range [OF ap(1)])
    then show ?thesis
      using e k None ap
      by (simp add: ip_last_acquired_def get_first_allocable_ip_eq ip_text_of_host)
  next
    case (Some s)
    with assms have t: "length s < CIDR_BUFFER_LEN - 1" "parsed_host (trim_end s) = Some n"
      by (auto simp: ip_counter_def split: if_splits)
    obtain rc got w2 where r: "io_read_file_into E (Some IP_INFO_FILE_PATH) (Some []) CIDR_BUFFER_LEN w1 = (rc, got, w2)"
      by (metis prod_cases3)
    have f1: "files w1 IP_INFO_FILE_PATH = Some s" and h1: "held w1 = Some H"
      using Some k by simp_all
    have "rc = 0" "got = s"
      using io_read_file_into_works [OF assms(1) f1 _ r] t(1) by (simp_all add: CIDR_BUFFER_LEN_def)
    then show ?thesis
      using e r k Some t io_read_file_into_keeps [OF r h1]
      by (auto simp: ip_last_acquired_def intro: quiet_trans)
  qed
qed

lemma ip_next_works:
  assumes "stdio_works E" "parsed_host s = Some n" "util_cidr_parse cluster = ret (Inr (b, cp))" "held w = Some H"
  shows "\<exists>w'. ip_next E cluster s w = ret ((0, ip_text cp (n + 1)), w') \<and>
    held w' = Some H \<and> quiet w w' \<and> files w' = (files w)(IP_INFO_FILE_PATH := Some (ip_text cp (n + 1)))"
proof -
  obtain a p where a: "util_cidr_parse s = ret (Inr (a, p))" "host_addr a = n"
    using assms(2) by (auto simp: parsed_host_Some)
  have cp: "int_range cp" by (rule util_cidr_parse_range [OF assms(3)])
  let ?t = "cidr_text (next_addr a) cp"
  have t: "?t = ip_text cp (n + 1)" by (simp add: ip_text_of_host a)
  obtain rc w' where wr: "io_write_text E (Some IP_INFO_FILE_PATH) (Some ?t) w = (rc, w')" by force
  have rc: "rc = 0" by (rule io_write_text_works [OF assms(1) is_proc_ip_info wr])
  note k = io_write_text_keeps [OF wr assms(4)]
  have "files w' = (files w)(IP_INFO_FILE_PATH := Some ?t)"
    using k(4,5) rc by (auto simp: fun_eq_iff cidr_text_no_nul)
  then show ?thesis
    using a assms(3) cp wr rc k(1,2) t by (simp add: ip_next_def util_cidr_serialize_in_range)
qed

lemma ip_text_short: "int_range p \<Longrightarrow> length (ip_text p n) < CIDR_BUFFER_LEN - Suc 0"
  using cidr_text_len [of p "In_addr (htonl n)"] by (simp add: ip_text_def CIDR_BUFFER_LEN_def)

lemma trim_end_ip_text [simp]: "trim_end (ip_text p n) = ip_text p n"
  by (simp add: ip_text_def)

lemma ip_counter_after:
  assumes "files w IP_INFO_FILE_PATH = Some (ip_text cp n)" "held w = Some H" "int_range cp"
  shows "ip_counter node w = Some n"
  using assms by (simp add: ip_counter_def ip_text_short)

lemma ip_container_acquire_works:
  assumes "stdio_works E" "ip_counter node w = Some n" "util_cidr_parse cluster = ret (Inr (b, cp))"
  shows "\<exists>w'. ip_container_acquire E node cluster w = ret ((0, ip_text cp (n + 1)), w') \<and>
    ip_counter node w' = Some (n + 1) \<and> held w' = held w \<and> quiet w w' \<and>
    files w' = (files w)(IP_INFO_FILE_PATH := Some (ip_text cp (n + 1)))"
proof -
  obtain H where H: "held w = Some H"
    using assms(2) by (auto simp: ip_counter_def split: if_splits)
  obtain s w1 where w1: "ip_last_acquired E node w = ret (Inr s, w1)" "parsed_host s = Some n"
    "held w1 = Some H" "files w1 = files w" "quiet w w1"
    using ip_last_acquired_works [OF assms(1,2) H] by blast
  obtain w2 where w2: "ip_next E cluster s w1 = ret ((0, ip_text cp (n + 1)), w2)"
    "held w2 = Some H" "quiet w1 w2" "files w2 = (files w1)(IP_INFO_FILE_PATH := Some (ip_text cp (n + 1)))"
    using ip_next_works [OF assms(1) w1(2) assms(3) w1(3)] by blast
  have "ip_counter node w2 = Some (n + 1)"
    by (rule ip_counter_after) (use w2 util_cidr_parse_range [OF assms(3)] in auto)
  with w1 w2 H show ?thesis
    by (auto simp: ip_container_acquire_def intro: quiet_trans)
qed

interpretation alloc: counter_allocator "stdio_works E \<and> (\<exists>b. util_cidr_parse cluster = ret (Inr (b, cp)))"
    "ip_container_acquire E node cluster" "ip_counter node" "\<lambda>n. (0 :: int, ip_text cp n)"
  for E :: "'k env" and node cluster cp
proof unfold_locales
  fix w :: "'k world" and n
  assume "stdio_works E \<and> (\<exists>b. util_cidr_parse cluster = ret (Inr (b, cp)))" "ip_counter node w = Some n"
  then show "\<exists>w'. ip_container_acquire E node cluster w = ret ((0, ip_text cp (n + 1)), w') \<and> ip_counter node w' = Some (n + 1)"
    using ip_container_acquire_works by metis
qed (simp add: ip_text_inject)



section \<open>Properties\<close>

text \<open>The texts handed out on the demo outside.\<close>

lemma ip_text_dotted:
  "ip_text p n = dec_nat (octet 3 n) @ ''.'' @ dec_nat (octet 2 n) @ ''.'' @
     dec_nat (octet 1 n) @ ''.'' @ dec_nat (octet 0 n) @ ''/'' @ dec_int p"
  by (simp add: ip_text_def cidr_text_def dotted_def htonl_def ntohl_octets del: One_nat_def)

lemma demo_texts:
  "ip_text 16 0x0AF40101 = ''10.244.1.1/16''" "ip_text 16 0x0AF40102 = ''10.244.1.2/16''"
  "ip_text 16 0x0AF40103 = ''10.244.1.3/16''"
  by (simp_all add: ip_text_dotted octet_div dec_int_def dec_nat.simps digit_chars del: One_nat_def)


text \<open>
  C12. Whatever the outside answers, \<open>ip_container_acquire\<close> gives back every object it acquired,
  touches no file but the allocator's, prints nothing to standard output, and either returns 0 with
  the file holding the CIDR it returns and \<open>*err\<close> untouched, or returns 1 with an error reported.
  Its only undefined behaviour is the overflow by a node or cluster CIDR of 64 characters or more:
  the text read from the file, however it got there, is always short enough.
\<close>

theorem container_acquire_contract:
  assumes "held w = Some H"
  shows "wp (too_long [node, cluster]) (ip_container_acquire E node cluster w)
    (\<lambda>((rc, s), w'). held w' = Some H \<and> out w' = out w \<and>
       (\<forall>q. q \<noteq> IP_INFO_FILE_PATH \<longrightarrow> files w' q = files w q) \<and>
       (rc = 0 \<and> err w' = err w \<and> files w' IP_INFO_FILE_PATH = Some s \<or> rc = 1 \<and> reported (err w')))"
proof -
  let ?Q = "\<lambda>((rc, s), w'). held w' = Some H \<and> out w' = out w \<and>
       (\<forall>q. q \<noteq> IP_INFO_FILE_PATH \<longrightarrow> files w' q = files w q) \<and>
       (rc = 0 \<and> err w' = err w \<and> files w' IP_INFO_FILE_PATH = Some s \<or> rc = 1 \<and> reported (err w'))"
  have "wp (too_long [node, cluster])
      (exec_bind (ip_container_acquire E node cluster w) (\<lambda>((rc, s), w'). ret ((rc, s), w'))) ?Q"
    by (rule wp_ip_container_acquire [OF assms]) (auto simp: too_long_def intro!: wp_ret)
  then show ?thesis by (simp add: exec_bind_def wp_def split: option.splits sum.splits prod.splits)
qed

lemma container_acquire_contract_witness:
  "wp (too_long [demo_node, demo_cluster]) (ip_container_acquire demo demo_node demo_cluster demo_world)
    (\<lambda>((rc, s), w'). held w' = Some {#} \<and> out w' = [] \<and>
       (\<forall>q. q \<noteq> IP_INFO_FILE_PATH \<longrightarrow> files w' q = None) \<and>
       (rc = 0 \<and> err w' = zero_err \<and> files w' IP_INFO_FILE_PATH = Some s \<or> rc = 1 \<and> reported (err w')))"
  using container_acquire_contract [of demo_world "{#}" demo_node demo_cluster demo] by simp

text \<open>
  C8. Without faults of stdio and from a fresh start, \<open>k\<close> runs of \<open>ip_container_acquire\<close> hand out the
  \<open>k\<close> addresses after the bridge's, the node address + 2, + 3, ..., in this order, each with the
  prefix length of the cluster CIDR.
\<close>

theorem container_acquire_sequence:
  assumes "stdio_works E" "held w = Some H" "files w IP_INFO_FILE_PATH = None"
    "util_cidr_parse node = ret (Inr (a, p))" "util_cidr_parse cluster = ret (Inr (b, cp))"
  shows "\<exists>w'. repeat_op k (ip_container_acquire E node cluster) w =
    ret (map (\<lambda>i. (0, ip_text cp (host_addr a + 2 + word_of_nat i))) [0..<k], w')"
proof -
  have "ip_counter node w = Some (host_addr a + 1)"
    using assms by (simp add: ip_counter_def parsed_host_def)
  from alloc.many [OF _ this, of E cluster cp k] assms show ?thesis
    by (auto simp: upto_word_def ac_simps)
qed

lemma container_acquire_sequence_witness:
  "\<exists>w'. repeat_op 2 (ip_container_acquire demo demo_node demo_cluster) demo_world =
     ret ([(0, ''10.244.1.2/16''), (0, ''10.244.1.3/16'')], w')"
  using container_acquire_sequence [OF demo_works(2) _ _ demo_cidrs, of demo_world "{#}" 2]
  by (simp add: demo_texts upt_rec [of 0 2] upt_rec [of "Suc 0" 2])



text \<open>
  C22. There is no check of the subnet: once the addresses of a node with prefix length \<open>p\<close> are used
  up, run number 2^(32 - p) - 2 (counted from 0) succeeds and hands out the first address of the
  next subnet.
\<close>

theorem container_acquire_leaves_subnet:
  assumes "stdio_works E" "held w = Some H" "files w IP_INFO_FILE_PATH = None"
    "util_cidr_parse node = ret (Inr (a, p))" "util_cidr_parse cluster = ret (Inr (b, cp))"
    "0 < p" "p < 31"
  shows "\<exists>as w'. repeat_op (2 ^ nat (32 - p) - 1) (ip_container_acquire E node cluster) w = ret (as, w') \<and>
    last as = (0, ip_text cp (host_addr a + 2 ^ nat (32 - p)))"
proof -
  let ?k = "2 ^ nat (32 - p) :: nat"
  have "2 ^ 2 \<le> ?k"
    by (rule power_increasing) (use assms(7) in simp_all)
  then have k: "?k - 1 = Suc (?k - 2)" "2 \<le> ?k" by simp_all
  have "2 + word_of_nat (?k - 2) = (2 ^ nat (32 - p) :: 32 word)"
    using k(2) by (simp add: of_nat_diff)
  moreover have "last (map f [0..<?k - 1]) = f (?k - 2)" for f :: "nat \<Rightarrow> int \<times> string"
    by (simp only: k(1)) simp
  ultimately show ?thesis
    using container_acquire_sequence [OF assms(1-5), of "?k - 1"] by (auto simp: add.assoc)
qed

lemma container_acquire_leaves_subnet_witness:
  "\<exists>as w'. repeat_op 255 (ip_container_acquire demo demo_node demo_cluster) demo_world = ret (as, w') \<and>
    last as = (0, ip_text 16 (0x0AF40100 + 256))"
  using container_acquire_leaves_subnet [OF demo_works(2) _ _ demo_cidrs, of demo_world "{#}"] by simp


lemma wedged_step:
  assumes "stdio_works E" "held w = Some H" "files w IP_INFO_FILE_PATH = Some s"
    "length s < CIDR_BUFFER_LEN - 1" "util_cidr_parse (trim_end s) = ret (Inl e)"
  shows "\<exists>w'. ip_container_acquire E node cluster w = ret ((1, []), w') \<and>
    held w' = Some H \<and> files w' = files w \<and> err w' = e"
proof -
  obtain b w1 where e: "io_file_exists E (Some IP_INFO_FILE_PATH) w = (b, w1)" by force
  note k = io_file_exists_keeps [OF e assms(2)] io_file_exists_works [OF assms(1) e]
  obtain rc got w2 where r: "io_read_file_into E (Some IP_INFO_FILE_PATH) (Some []) CIDR_BUFFER_LEN w1 = (rc, got, w2)"
    by (metis prod_cases3)
  have f1: "files w1 IP_INFO_FILE_PATH = Some s" and h1: "held w1 = Some H"
    using assms(3) k by simp_all
  have "rc = 0" "got = s"
    using io_read_file_into_works [OF assms(1) f1 _ r] assms(4) by (simp_all add: CIDR_BUFFER_LEN_def)
  then show ?thesis
    using e r k assms(3,5) io_read_file_into_keeps [OF r h1]
    by (simp add: ip_container_acquire_def ip_last_acquired_def ip_next_def)
qed

text \<open>
  C20. A file whose text does not parse, such as the empty one a failed write leaves behind, wedges
  the allocator: if the text has fewer than 63 characters (a longer one is a read error already) and stdio
  works, every later run fails, with the error of \<open>util_cidr_parse\<close> for the trimmed text in the error
  object, and leaves the file as it is.
\<close>

theorem wedged_allocator:
  assumes "stdio_works E" "held w = Some H" "files w IP_INFO_FILE_PATH = Some s"
    "length s < CIDR_BUFFER_LEN - 1" "util_cidr_parse (trim_end s) = ret (Inl e)"
  shows "\<exists>w'. repeat_op k (ip_container_acquire E node cluster) w = ret (replicate k (1, []), w') \<and>
    files w' = files w \<and> err w' = (if k = 0 then err w else e)"
  using assms(2,3)
proof (induction k arbitrary: w)
  case (Suc k)
  obtain w1 where w1: "ip_container_acquire E node cluster w = ret ((1, []), w1)"
    "held w1 = Some H" "files w1 = files w" "err w1 = e"
    using wedged_step [OF assms(1) Suc.prems assms(4,5)] by blast
  with Suc.IH [of w1] Suc.prems show ?case by (auto split: if_splits)
qed simp

lemma wedged_allocator_witness:
  "\<exists>w'. repeat_op 5 (ip_container_acquire demo demo_node demo_cluster)
      (demo_world\<lparr>files := [IP_INFO_FILE_PATH \<mapsto> []]\<rparr>) = ret (replicate 5 (1, []), w') \<and>
    files w' = [IP_INFO_FILE_PATH \<mapsto> []] \<and> reported (err w')"
proof -
  obtain e where "util_cidr_parse [] = ret (Inl e)" "reported e"
    by (simp add: util_cidr_parse_def strcpy_def CIDR_BUFFER_LEN_def Let_def cstr_def strchr_def)
  then have e: "util_cidr_parse (trim_end []) = ret (Inl e)" "reported e" by (simp_all add: trim_end_id)
  from wedged_allocator [OF demo_works(2) _ _ _ e(1), of "demo_world\<lparr>files := [IP_INFO_FILE_PATH \<mapsto> []]\<rparr>" "{#}" 5]
  obtain w' where "repeat_op 5 (ip_container_acquire demo demo_node demo_cluster)
      (demo_world\<lparr>files := [IP_INFO_FILE_PATH \<mapsto> []]\<rparr>) = ret (replicate 5 (1, []), w')"
    "files w' = [IP_INFO_FILE_PATH \<mapsto> []]" "err w' = e"
    by (auto simp: CIDR_BUFFER_LEN_def)
  with e(2) show ?thesis by blast
qed

lemma ip_next_result:
  assumes "util_cidr_parse t = ret (Inr (a, p))" "util_cidr_parse cluster = ret (Inr (b, cp))"
    "ip_next E cluster t w = ret ((0, s), w')"
  shows "s = ip_text cp (host_addr a + 1)"
proof -
  obtain rc w1 where wr: "io_write_text E (Some IP_INFO_FILE_PATH) (Some (cidr_text (next_addr a) cp)) w = (rc, w1)"
    by force
  with assms util_cidr_parse_range [OF assms(2)] show ?thesis
    by (simp add: ip_next_def util_cidr_serialize_in_range ip_text_of_host split: if_splits)
qed

text \<open>
  C21. \<open>io_file_exists\<close> takes every failure to open the file for its absence: when its \<open>fopen\<close> fails
  for another reason, the allocator starts over, and what it hands out is the first address again,
  whatever the file says.
\<close>

theorem probe_failure_starts_over:
  assumes "outp (fst (answer E (CFopen IP_INFO_FILE_PATH ''r'') (kern w))) = 0"
    "util_cidr_parse node = ret (Inr (a, p))" "util_cidr_parse cluster = ret (Inr (b, cp))"
    "ip_container_acquire E node cluster w = ret ((0, s), w')"
  shows "s = ip_text cp (host_addr a + 2)"
proof -
  obtain b w1 where e: "io_file_exists E (Some IP_INFO_FILE_PATH) w = (b, w1)" by force
  then have "\<not> b"
    using assms(1) by (auto simp: io_file_exists_def fopen_read_def Let_def split: prod.splits if_splits)
  with e have "ip_last_acquired E node w = ret (Inr (cidr_text (next_addr a) p), w1)"
    using assms(2) by (simp add: ip_last_acquired_def get_first_allocable_ip_eq)
  then have "ip_next E cluster (cidr_text (next_addr a) p) w1 = ret ((0, s), w')"
    using assms(4) by (simp add: ip_container_acquire_def)
  from ip_next_result [OF util_cidr_parse_text assms(3) this] util_cidr_parse_range [OF assms(2)]
  show ?thesis by (simp add: add.assoc)
qed


definition probe_fails :: "nat env" where
  "probe_fails = demo_but (\<lambda>c. c = CFopen IP_INFO_FILE_PATH ''r'') 0"

lemma probe_failure_starts_over_witness:
  "\<exists>s w'. ip_container_acquire probe_fails demo_node demo_cluster
      (demo_world\<lparr>files := [IP_INFO_FILE_PATH \<mapsto> ''10.244.1.77/16'']\<rparr>) = ret ((0, s), w') \<and>
    s = ''10.244.1.2/16''"
proof -
  let ?w = "demo_world\<lparr>files := [IP_INFO_FILE_PATH \<mapsto> ''10.244.1.77/16'']\<rparr>"
  have "\<exists>s w'. ip_container_acquire probe_fails demo_node demo_cluster ?w = ret ((0, s), w')"
    by (simp add: ip_container_acquire_def ip_last_acquired_def ip_next_def get_first_allocable_ip_eq
        io_file_exists_def fopen_read_def io_write_text_def fopen_write_def fwrite_def fclose_write_def
        util_cidr_serialize_in_range ext_def log_call_def demo_cidrs int_range_def cidr_text_no_nul
        probe_fails_def demo_but_def demo_def Let_def)
  then obtain s w' where run: "ip_container_acquire probe_fails demo_node demo_cluster ?w = ret ((0, s), w')"
    by blast
  have "s = ip_text 16 (host_addr demo_addr + 2)"
    by (rule probe_failure_starts_over [OF _ demo_cidrs run]) (simp add: probe_fails_def demo_but_def)
  with run show ?thesis by (simp add: demo_texts)
qed

end
