(* ===== verification/Sys.thy ===== *)
theory Sys
  imports Demo
begin

text \<open>
  \<open>sys.c\<close>: the bridge's traffic is made visible to netfilter by writing two sysctls.
\<close>


section \<open>The code\<close>

definition write_sysctl :: "'k env \<Rightarrow> string \<Rightarrow> string \<Rightarrow> 'k op" where
  "write_sysctl E path value w =
     (let (f, errn, w) = fopen_write E path ''w'' w in
      if f = 0 then
        ret (1, set_err (err_of ''failed to open %s: %s'' [AStr path, AStr (strerror E errn)]) w)
      else
        let (fine, errn, st, w) = fputs E value \<lparr>o_ptr = f, o_path = path, o_buf = []\<rparr> w in
        if \<not> fine then
          let w = set_err (err_of ''failed to write to %s: %s'' [AStr path, AStr (strerror E errn)]) w;
              (_, w) = fclose_write E st w
          in ret (1, w)
        else
          let (_, w) = fclose_write E st w in ret (0, w))"

definition sysctl_ip4 :: string where
  "sysctl_ip4 = ''/proc/sys/net/bridge/bridge-nf-call-iptables''"

definition sysctl_ip6 :: string where
  "sysctl_ip6 = ''/proc/sys/net/bridge/bridge-nf-call-ip6tables''"

definition sysctl_on :: string where
  "sysctl_on = ''1'' @ [CHR 0x0A]"

definition sys_enable_br_netfilter :: "'k env \<Rightarrow> 'k op" where
  "sys_enable_br_netfilter E w =
     (let (r, w) = ext E (CSystem ''modprobe br_netfilter 2>/dev/null'') w in
      exec_bind (write_sysctl E sysctl_ip4 sysctl_on w) (\<lambda>(rc, w).
        if rc \<noteq> 0 then ret (1, w)
        else
          exec_bind (write_sysctl E sysctl_ip6 sysctl_on w) (\<lambda>(rc, w).
            if rc \<noteq> 0 then ret (1, w) else ret (0, w))))"


section \<open>The contract\<close>

lemma sysctl_paths [simp]: "is_proc sysctl_ip4" "is_proc sysctl_ip6" "sysctl_ip4 \<noteq> sysctl_ip6" "sysctl_ip6 \<noteq> sysctl_ip4"
  by (simp_all add: is_proc_def sysctl_ip4_def sysctl_ip6_def)

lemma flush_proc:
  "is_proc p \<Longrightarrow> flush_file p k s fs = fs \<or> flush_file p k s fs = fs(p := Some s)"
  by (simp add: flush_file_def)

lemma wp_write_sysctl:
  assumes "held w = Some H" "is_proc path"
    and ok: "\<And>w'. held w' = Some H \<Longrightarrow> err w' = err w \<Longrightarrow> out w' = out w \<Longrightarrow>
      files w' = files w \<or> files w' = (files w)(path := Some value) \<Longrightarrow> wp U (f 0 w') Q"
    and fail: "\<And>w'. held w' = Some H \<Longrightarrow> reported (err w') \<Longrightarrow> out w' = out w \<Longrightarrow> files w' = files w \<Longrightarrow> wp U (f 1 w') Q"
  shows "wp U (exec_bind (write_sysctl E path value w) (\<lambda>(rc, w'). f rc w')) Q"
proof -
  obtain p e w1 where o: "fopen_write E path ''w'' w = (p, e, w1)" by (metis prod_cases3)
  note k1 = fopen_write_keeps [OF o]
  show ?thesis
  proof (cases "p = 0")
    case True
    then show ?thesis
      using k1 assms(1) o by (simp add: write_sysctl_def) (rule fail, simp_all add: quiet_def)
  next
    case False
    let ?st = "\<lparr>o_ptr = p, o_path = path, o_buf = []\<rparr>"
    have h1: "held w1 = Some (add_mset (RFile, p) H)" using k1(5) assms(1) False by simp
    obtain r w2 where x: "ext E (CFputs p value) w1 = (r, w2)" by force
    have h2: "held w2 = Some (add_mset (RFile, p) H)"
      using held_ext [OF x h1] by simp
    note k2 = ext_keeps [OF x]
    show ?thesis
    proof (cases "rv r < 0")
      case True
      let ?e = "err_of ''failed to write to %s: %s'' [AStr path, AStr (strerror E (errno r))]"
      obtain c w3 where cl: "fclose_write E ?st (set_err ?e w2) = (c, w3)" by force
      note k3 = fclose_write_keeps [OF cl, simplified, OF h2]
      have "files w3 = files w"
        using k3(4) k2 k1(4) assms(2) by (auto simp: flush_file_def)
      then show ?thesis
        using False True o x cl k1 k2 k3
        by (simp add: write_sysctl_def fputs_def) (rule fail, simp_all add: quiet_def)
    next
      case fine: False
      let ?st' = "?st\<lparr>o_buf := value\<rparr>"
      obtain c w3 where cl: "fclose_write E ?st' w2 = (c, w3)" by force
      note k3 = fclose_write_keeps [OF cl, simplified, OF h2]
      have "files w3 = files w \<or> files w3 = (files w)(path := Some value)"
        using k3(4) k2 k1(4) flush_proc [OF assms(2)] assms(2) by metis
      then show ?thesis
        using False fine o x cl k1 k2 k3
        by (simp add: write_sysctl_def fputs_def) (rule ok, simp_all add: quiet_def)
    qed
  qed
qed

text \<open>Whatever the outside does, only the two files change, to the value written.\<close>

definition sysctl_change :: "'k world \<Rightarrow> 'k world \<Rightarrow> bool" where
  "sysctl_change w w' \<longleftrightarrow>
     (\<forall>q. files w' q = files w q \<or> q \<in> {sysctl_ip4, sysctl_ip6} \<and> files w' q = Some sysctl_on)"

lemma wp_sys_enable_br_netfilter:
  assumes "held w = Some H"
    and ok: "\<And>w'. held w' = Some H \<Longrightarrow> err w' = err w \<Longrightarrow> out w' = out w \<Longrightarrow> sysctl_change w w' \<Longrightarrow> wp U (f 0 w') Q"
    and fail: "\<And>w'. held w' = Some H \<Longrightarrow> reported (err w') \<Longrightarrow> out w' = out w \<Longrightarrow> sysctl_change w w' \<Longrightarrow> wp U (f 1 w') Q"
  shows "wp U (exec_bind (sys_enable_br_netfilter E w) (\<lambda>(rc, w'). f rc w')) Q"
  apply (rule wp_bind)
  unfolding sys_enable_br_netfilter_def
  using assms(1)
  apply -
  by (rule walk wp_write_sysctl ok fail | simp (no_asm_simp) | fastforce simp: sysctl_change_def)+



section \<open>Properties\<close>

text \<open>
  The outcome of \<open>write_sysctl\<close> when opening and buffering succeed: it is decided by \<open>fclose\<close>, and the
  code does not look at it.
\<close>

definition sysctl_opens :: "'k env \<Rightarrow> bool" where
  "sysctl_opens E \<longleftrightarrow>
     (\<forall>k p m. outp (fst (answer E (CFopen p m) k)) \<noteq> 0) \<and> (\<forall>k p s. 0 \<le> rv (fst (answer E (CFputs p s) k)))"

lemma write_sysctl_opens:
  assumes "sysctl_opens E" "is_proc path" "files w path \<noteq> None" "value \<noteq> []"
  shows "\<exists>w' k p. write_sysctl E path value w = ret (0, w') \<and> err w' = err w \<and>
    files w' = (let r = fst (answer E (CFclose p) k) in
      if rv r = 0 \<or> length value \<le> outp r then (files w)(path := Some value) else files w)"
proof -
  obtain r k1 where a: "answer E (CFopen path ''w'') (kern w) = (r, k1)" by force
  with assms(1) have r: "outp r \<noteq> 0" by (metis fst_conv sysctl_opens_def)
  let ?w1 = "log_call (CFopen path ''w'') r k1 w"
  obtain r2 k2 where b: "answer E (CFputs (outp r) value) (kern ?w1) = (r2, k2)" by force
  with assms(1) have r2: "0 \<le> rv r2" by (metis fst_conv sysctl_opens_def)
  obtain r3 k3 where c: "answer E (CFclose (outp r)) k2 = (r3, k3)" by force
  have "\<exists>w'. write_sysctl E path value w = ret (0, w') \<and> err w' = err w \<and>
    files w' = (if rv r3 = 0 \<or> length value \<le> outp r3 then (files w)(path := Some value) else files w)"
    using a b c r r2 assms(2-4)
    by (simp add: write_sysctl_def fopen_write_def fputs_def fclose_write_def ext_def log_call_def flush_file_def)
  then obtain w' where "write_sysctl E path value w = ret (0, w')" "err w' = err w"
    "files w' = (if rv r3 = 0 \<or> length value \<le> outp r3 then (files w)(path := Some value) else files w)"
    by blast
  then show ?thesis
    by (intro exI [of _ w'] exI [of _ k2] exI [of _ "outp r"]) (simp add: c)
qed

lemma sys_enable_works:
  assumes "stdio_works E" "files w sysctl_ip4 \<noteq> None" "files w sysctl_ip6 \<noteq> None"
  shows "\<exists>w'. sys_enable_br_netfilter E w = ret (0, w') \<and> err w' = err w \<and>
    files w' = (files w)(sysctl_ip4 := Some sysctl_on, sysctl_ip6 := Some sysctl_on)"
proof -
  have o: "sysctl_opens E" and c: "rv (fst (answer E (CFclose p) k)) = 0" for p k
    using assms(1) by (simp_all add: sysctl_opens_def stdio_works_def)
  obtain r w1 where e: "ext E (CSystem ''modprobe br_netfilter 2>/dev/null'') w = (r, w1)" by force
  note k = ext_keeps [OF e]
  obtain w2 where 2: "write_sysctl E sysctl_ip4 sysctl_on w1 = ret (0, w2)" "err w2 = err w1"
    "files w2 = (files w1)(sysctl_ip4 := Some sysctl_on)"
    using write_sysctl_opens [OF o, of sysctl_ip4 w1 sysctl_on] k assms by (auto simp: c sysctl_on_def)
  obtain w3 where 3: "write_sysctl E sysctl_ip6 sysctl_on w2 = ret (0, w3)" "err w3 = err w2"
    "files w3 = (files w2)(sysctl_ip6 := Some sysctl_on)"
    using write_sysctl_opens [OF o, of sysctl_ip6 w2 sysctl_on] 2 k assms by (auto simp: c sysctl_on_def)
  show ?thesis using e 2 3 k by (simp add: sys_enable_br_netfilter_def quiet_def)
qed

text \<open>
  C31. Without faults, and with the bridge module's files in place, \<open>sys_enable_br_netfilter\<close> returns 0
  and both sysctls read 1.
\<close>

theorem br_netfilter_enabled:
  assumes "stdio_works E" "files w sysctl_ip4 \<noteq> None" "files w sysctl_ip6 \<noteq> None"
  shows "\<exists>w'. sys_enable_br_netfilter E w = ret (0, w') \<and> err w' = err w \<and>
    files w' = (files w)(sysctl_ip4 := Some sysctl_on, sysctl_ip6 := Some sysctl_on)"
  by (rule sys_enable_works [OF assms])

lemma br_netfilter_enabled_witness:
  "let w = demo_world\<lparr>files := [sysctl_ip4 \<mapsto> ''0'', sysctl_ip6 \<mapsto> ''0'']\<rparr> in
   \<exists>w'. sys_enable_br_netfilter demo w = ret (0, w') \<and> err w' = zero_err \<and>
     files w' = [sysctl_ip4 \<mapsto> sysctl_on, sysctl_ip6 \<mapsto> sysctl_on]"
  using br_netfilter_enabled [OF demo_works(2), of "demo_world\<lparr>files := [sysctl_ip4 \<mapsto> ''0'', sysctl_ip6 \<mapsto> ''0'']\<rparr>"]
  by (simp add: Let_def fun_upd_twist)

text \<open>
  C32. \<open>write_sysctl\<close> ignores the result of \<open>fclose\<close>, which is where a buffered write reaches the kernel:
  when the kernel refuses the values there, \<open>sys_enable_br_netfilter\<close> still returns 0, with no error
  reported and both sysctls as they were.
\<close>

theorem br_netfilter_silent_failure:
  assumes "sysctl_opens E" "\<And>p k. rv (fst (answer E (CFclose p) k)) \<noteq> 0 \<and> outp (fst (answer E (CFclose p) k)) = 0"
    "files w sysctl_ip4 \<noteq> None" "files w sysctl_ip6 \<noteq> None"
  shows "\<exists>w'. sys_enable_br_netfilter E w = ret (0, w') \<and> err w' = err w \<and> files w' = files w"
proof -
  obtain r w1 where e: "ext E (CSystem ''modprobe br_netfilter 2>/dev/null'') w = (r, w1)" by force
  note k = ext_keeps [OF e]
  obtain w2 where 2: "write_sysctl E sysctl_ip4 sysctl_on w1 = ret (0, w2)" "err w2 = err w1" "files w2 = files w1"
    using write_sysctl_opens [OF assms(1), of sysctl_ip4 w1 sysctl_on] k assms(2-) by (auto simp: sysctl_on_def)
  obtain w3 where 3: "write_sysctl E sysctl_ip6 sysctl_on w2 = ret (0, w3)" "err w3 = err w2" "files w3 = files w2"
    using write_sysctl_opens [OF assms(1), of sysctl_ip6 w2 sysctl_on] 2 k assms(2-) by (auto simp: sysctl_on_def)
  show ?thesis using e 2 3 k by (simp add: sys_enable_br_netfilter_def quiet_def)
qed

definition close_fails :: "nat env" where
  "close_fails = demo_but (\<lambda>c. case c of CFclose p \<Rightarrow> True | _ \<Rightarrow> False) (-1)"

lemma br_netfilter_silent_failure_witness:
  "let w = demo_world\<lparr>files := [sysctl_ip4 \<mapsto> ''0'', sysctl_ip6 \<mapsto> ''0'']\<rparr> in
   \<exists>w'. sys_enable_br_netfilter close_fails w = ret (0, w') \<and> err w' = zero_err \<and>
     files w' = [sysctl_ip4 \<mapsto> ''0'', sysctl_ip6 \<mapsto> ''0'']"
proof -
  have "sysctl_opens close_fails"
    "\<And>p k. rv (fst (answer close_fails (CFclose p) k)) \<noteq> 0 \<and> outp (fst (answer close_fails (CFclose p) k)) = 0"
    by (simp_all add: sysctl_opens_def close_fails_def demo_but_def demo_def)
  from br_netfilter_silent_failure [OF this, of "demo_world\<lparr>files := [sysctl_ip4 \<mapsto> ''0'', sysctl_ip6 \<mapsto> ''0'']\<rparr>"]
  show ?thesis by (simp add: Let_def)
qed

end
