(* ===== verification/Cmd.thy ===== *)
theory Cmd
  imports Demo_Json Ip Net Sys
begin

text \<open>
  \<open>cmd.c\<close> and \<open>main.c\<close>: one run of the plugin. A command prints at most one JSON object to standard
  output, the response for the container runtime, and its return value is the exit code.
\<close>


section \<open>The responses\<close>

text \<open>\<open>printf("%s\n", \<dots>)\<close> on standard output.\<close>

definition print_line :: "string \<Rightarrow> 'k world \<Rightarrow> 'k world" where
  "print_line s w = w\<lparr>out := out w @ [s]\<rparr>"

definition add_response :: "'j json_lib \<Rightarrow> 'j Args \<Rightarrow> string \<Rightarrow> 'j" where
  "add_response J args container_netif_cidr =
     (let json_response_obj = new_object J;
          json_response_obj = object_add J json_response_obj ''cniVersion'' (new_string J CNI_VERSION);
          iface_obj = object_add J (new_object J) ''name'' (new_string J ''eth0'');
          interfaces_arr = array_add J (new_array J) iface_obj;
          json_response_obj = object_add J json_response_obj ''interfaces'' interfaces_arr;
          ip_obj = new_object J;
          ip_obj = object_add J ip_obj ''version'' (new_string J ''4'');
          ip_obj = object_add J ip_obj ''address'' (new_string J container_netif_cidr);
          ip_obj = object_add J ip_obj ''interface'' (new_int J 0);
          ips_arr = array_add J (new_array J) ip_obj;
          json_response_obj = object_add J json_response_obj ''ips'' ips_arr
      in case prev_result args of
           None \<Rightarrow> json_response_obj
         | Some p \<Rightarrow> object_add J json_response_obj ''prevResult'' p)"

text \<open>
  The result of the previous plugin is handed over to the response as it is, without taking a reference
  to it first.
\<close>

definition emit_add_response :: "'j json_lib \<Rightarrow> 'j Args \<Rightarrow> string \<Rightarrow> 'k world \<Rightarrow> 'k world" where
  "emit_add_response J args container_netif_cidr w =
     (let w = json_owned Json_response w;
          w = (if prev_result args \<noteq> None then json_given Json_prev_result w else w);
          w = print_line (to_plain_string J (add_response J args container_netif_cidr)) w
      in json_given Json_response w)"

definition version_response :: "'j json_lib \<Rightarrow> 'j" where
  "version_response J =
     (let json_response_obj = new_object J;
          json_response_obj = object_add J json_response_obj ''cniVersion'' (new_string J CNI_VERSION);
          supported_versions_array = array_add J (new_array J) (new_string J CNI_VERSION)
      in object_add J json_response_obj ''supportedVersions'' supported_versions_array)"

definition emit_version_response :: "'j json_lib \<Rightarrow> 'j Args \<Rightarrow> 'k world \<Rightarrow> 'k world" where
  "emit_version_response J args w =
     (let w = json_owned Json_response w;
          w = print_line (to_plain_string J (version_response J)) w
      in json_given Json_response w)"

definition error_response :: "'j json_lib \<Rightarrow> Err \<Rightarrow> 'j" where
  "error_response J e =
     (let json_response_obj = new_object J;
          json_response_obj = object_add J json_response_obj ''cniVersion'' (new_string J CNI_VERSION);
          json_response_obj = object_add J json_response_obj ''code'' (new_int J (code e));
          json_response_obj = object_add J json_response_obj ''msg'' (new_string J (msg e))
      in object_add J json_response_obj ''details'' (new_string J (details e)))"

definition emit_error_response :: "'j json_lib \<Rightarrow> Err \<Rightarrow> 'k world \<Rightarrow> 'k world" where
  "emit_error_response J e w =
     (let w = json_owned Json_response w;
          e = (if initialized e = 0 then err_of ''An unknown error happened'' [] else e);
          w = print_line (to_plain_string J (error_response J e)) w
      in json_given Json_response w)"


section \<open>The commands\<close>

text \<open>
  \<open>ip_bridge\<close> returns its error as a value; it is stored in the caller's object here. The pointer
  arguments are read where they are passed on: \<open>args_parse\<close> has checked all of them for an ADD.
\<close>

definition cmd_add :: "'j json_lib \<Rightarrow> 'k env \<Rightarrow> 'j Args \<Rightarrow> 'k op" where
  "cmd_add J E args w =
     (let w = set_err zero_err w in
      exec_bind (sys_enable_br_netfilter E w) (\<lambda>(rc, w).
        if rc \<noteq> 0 then ret (1, emit_error_response J (err w) w)
        else
          exec_bind (deref (subnet args)) (\<lambda>node_cidr.
          exec_bind (deref (cluster_cidr args)) (\<lambda>cluster.
          exec_bind (ip_bridge node_cidr cluster) (\<lambda>bridge.
            case bridge of
              Inl e \<Rightarrow> let w = set_err e w in ret (1, emit_error_response J (err w) w)
            | Inr bridge_cidr \<Rightarrow>
                exec_bind (ip_container_acquire E node_cidr cluster w) (\<lambda>((rc, container_netif_cidr), w).
                  if rc \<noteq> 0 then ret (1, emit_error_response J (err w) w)
                  else
                    exec_bind (deref (cni_netns args)) (\<lambda>netns_name.
                    exec_bind (deref (cni_ifname args)) (\<lambda>ifname.
                    exec_bind (deref (cni_containerid args)) (\<lambda>containerid.
                    exec_bind (deref (host_physical_interface args)) (\<lambda>phys.
                    exec_bind (net_attach_container E netns_name ifname container_netif_cidr containerid
                                 bridge_cidr phys w) (\<lambda>(rc, w).
                      if rc \<noteq> 0 then ret (1, emit_error_response J (err w) w)
                      else ret (0, emit_add_response J args container_netif_cidr w))))))))))))"

definition cmd_del :: "'j json_lib \<Rightarrow> 'k env \<Rightarrow> 'j Args \<Rightarrow> 'k op" where
  "cmd_del J E args w =
     (let w = set_err zero_err w in
      exec_bind (net_detach_container E (cni_netns args) (cni_ifname args) (cni_containerid args) w)
        (\<lambda>(rc, w). if rc \<noteq> 0 then ret (1, emit_error_response J (err w) w) else ret (0, w)))"

definition cmd_status :: "'j Args \<Rightarrow> 'k op" where
  "cmd_status args w = ret (0, w)"

definition cmd_check :: "'j Args \<Rightarrow> 'k op" where
  "cmd_check args w = ret (0, w)"

definition cmd_version :: "'j json_lib \<Rightarrow> 'j Args \<Rightarrow> 'k op" where
  "cmd_version J args w = ret (0, emit_version_response J args w)"

definition cmd_gc :: "'j Args \<Rightarrow> 'k op" where
  "cmd_gc args w = ret (0, w)"

text \<open>
  \<open>main\<close>, in a process that owns no JSON object yet; seeding \<open>rand\<close>, which nothing uses, is left out.
\<close>

definition main :: "'j json_lib \<Rightarrow> 'k env \<Rightarrow> (string \<Rightarrow> string option) \<Rightarrow> string \<Rightarrow> 'k op" where
  "main J E environ input w =
     exec_bind (args_parse J environ input (w\<lparr>json_refs := Some {#}\<rparr>)) (\<lambda>(rc, args, w).
       if rc \<noteq> 0 then ret (1, w)
       else
         exec_bind (streq (cni_command args) CNI_CMD_ADD) (\<lambda>b. if b then cmd_add J E args w else
         exec_bind (streq (cni_command args) CNI_CMD_DEL) (\<lambda>b. if b then cmd_del J E args w else
         exec_bind (streq (cni_command args) CNI_CMD_STATUS) (\<lambda>b. if b then cmd_status args w else
         exec_bind (streq (cni_command args) CNI_CMD_VERSION) (\<lambda>b. if b then cmd_version J args w else
         exec_bind (streq (cni_command args) CNI_CMD_CHECK) (\<lambda>b. if b then cmd_check args w else
         exec_bind (streq (cni_command args) CNI_CMD_GC) (\<lambda>b. if b then cmd_gc args w else
           let (args, w) = args_free args w in ret (1, w))))))))"


section \<open>Facts about the commands\<close>

lemma print_line_simps [simp]:
  "held (print_line s w) = held w" "files (print_line s w) = files w" "out (print_line s w) = out w @ [s]"
  "err (print_line s w) = err w" "trace (print_line s w) = trace w" "json_refs (print_line s w) = json_refs w"
  by (simp_all add: print_line_def held_def)

lemma json_given_printed [simp]: "json_given x (print_line s (json_owned x w)) = print_line s w"
  by (simp add: json_owned_def json_given_def print_line_def split: option.split)

lemma emit_error_reported:
  "reported e \<Longrightarrow> emit_error_response J e w = print_line (to_plain_string J (error_response J e)) w"
  by (simp add: emit_error_response_def reported_def Let_def)

lemma emit_error_simps [simp]:
  "held (emit_error_response J e w) = held w" "files (emit_error_response J e w) = files w"
  "err (emit_error_response J e w) = err w" "trace (emit_error_response J e w) = trace w"
  "json_refs (emit_error_response J e w) = json_refs w"
  by (simp_all add: emit_error_response_def Let_def)

lemma emit_version [simp]:
  "emit_version_response J args w = print_line (to_plain_string J (version_response J)) w"
  by (simp add: emit_version_response_def)

lemma emit_add_simps [simp]:
  "held (emit_add_response J args s w) = held w" "files (emit_add_response J args s w) = files w"
  "err (emit_add_response J args s w) = err w" "trace (emit_add_response J args s w) = trace w"
  "out (emit_add_response J args s w) = out w @ [to_plain_string J (add_response J args s)]"
  "json_refs (emit_add_response J args s w) =
    (if prev_result args = None then json_refs w else json_refs (json_given Json_prev_result w))"
  by (simp_all add: emit_add_response_def Let_def split: option.split)

text \<open>
  What an ADD leaves behind: one line on standard output, the success response with the CIDR that is
  now in the allocator's file, or the response for the error in the error object, which is a reported
  one. The text for the case that no error is set is only put into the copy \<open>emit_error_response\<close> gets.
\<close>

definition answered :: "'j json_lib \<Rightarrow> 'j Args \<Rightarrow> 'k world \<Rightarrow> handle multiset \<Rightarrow> int \<times> 'k world \<Rightarrow> bool" where
  "answered J args w H res \<longleftrightarrow>
     held (snd res) = Some H \<and>
     (fst res = 0 \<and> (\<exists>s. files (snd res) IP_INFO_FILE_PATH = Some s \<and>
         out (snd res) = out w @ [to_plain_string J (add_response J args s)]) \<or>
      fst res = 1 \<and> reported (err (snd res)) \<and>
        out (snd res) = out w @ [to_plain_string J (error_response J (err (snd res)))])"

lemma answered_failed:
  "reported (err w') \<Longrightarrow> held w' = Some H \<Longrightarrow> out w' = out w \<Longrightarrow>
     answered J args w H (1, emit_error_response J (err w') w')"
  by (auto simp: answered_def emit_error_reported)

lemma answered_added:
  "files w' IP_INFO_FILE_PATH = Some s \<Longrightarrow> held w' = Some H \<Longrightarrow> out w' = out w \<Longrightarrow>
     answered J args w H (0, emit_add_response J args s w')"
  by (auto simp: answered_def)

text \<open>
  The undefined behaviour an ADD does not exclude: the two CIDRs of the configuration overflow an
  array, the cluster's prefix length is not one of 0 to 32, a library allocation whose NULL result
  is not checked, a variable tested before it has a value, and acknowledgements that never end.
\<close>

definition add_may :: "string \<Rightarrow> string \<Rightarrow> ub option \<Rightarrow> bool" where
  "add_may node cluster u \<longleftrightarrow>
     too_long [node, cluster] u \<or> u = Some UninitRead \<or> u = Some NullDeref \<or> u = None \<or>
     u = Some ShiftRange \<and> (\<exists>a p. util_cidr_parse cluster = ret (Inr (a, p)) \<and> (p < 0 \<or> 32 < p))"

lemma short_not_too_long: "int_range p \<Longrightarrow> \<not> too_long [cidr_text a p] u"
  using cidr_text_len [of p a] by (simp add: too_long_def cidr_text_no_nul cstr_def)

lemma attach_may_add_may:
  assumes "attach_may (cidr_text a p) (cidr_text b q) u" "int_range p" "int_range q"
    "util_cidr_parse cluster = ret (Inr (c, p))"
  shows "add_may node cluster u"
  using assms short_not_too_long [OF assms(2)] short_not_too_long [OF assms(3)]
  by (auto simp: attach_may_def add_may_def uninit_or_long_def nft_may_def)

lemma wp_deref: "p = Some a \<Longrightarrow> wp U (f a) Q \<Longrightarrow> wp U (exec_bind (deref p) f) Q"
  by simp

lemma long_add_may:
  "64 \<le> length (cstr node) \<Longrightarrow> add_may node cluster (Some BufferOverflow)"
  "64 \<le> length (cstr cluster) \<Longrightarrow> add_may node cluster (Some BufferOverflow)"
  by (simp_all add: add_may_def too_long_def)


section \<open>Properties\<close>

lemma cmd_add_answers:
  assumes "out_params_filled E" "held w = Some H" "add_ready args"
    "subnet args = Some node" "cluster_cidr args = Some cluster"
  shows "wp (add_may node cluster) (cmd_add J E args w) (answered J args w H)"
proof -
  obtain n i c p where f: "cni_netns args = Some n" "cni_ifname args = Some i"
    "cni_containerid args = Some c" "host_physical_interface args = Some p"
    using assms(3) by (auto simp: add_ready_def)
  note fields = assms(4,5) [THEN wp_deref] f [THEN wp_deref]
  show ?thesis
    unfolding cmd_add_def using assms(1,2)
    apply -
    by (rule fields walk wp_sys_enable_br_netfilter wp_ip_bridge wp_ip_container_acquire attach.call
          answered_failed answered_added long_add_may attach_may_add_may
        | simp (no_asm_simp) | assumption)+
qed

text \<open>
  C2. An ADD whose arguments were accepted, whatever the outside answers: every library object,
  descriptor and stream acquired is given back; exactly one line is printed, and it agrees with the exit
  code: the success response with the CIDR the allocator's file now holds and code 0, or code 1 and the
  response with what the error object holds, where one of the components has reported an error. The
  fallback of \<open>emit_error_response\<close>, for an error object without an error, is never used. The undefined
  behaviour that is not excluded is listed by \<open>add_may\<close>.
\<close>

theorem cmd_add_contract:
  assumes "out_params_filled E" "held w = Some H" "add_ready args"
    "subnet args = Some node" "cluster_cidr args = Some cluster"
  shows "wp (add_may node cluster) (cmd_add J E args w) (answered J args w H)"
  by (rule cmd_add_answers [OF assms])

lemma demo_args_eq: "args_fill demo_json (demo_environ cmd) ''conf'' = demo_args cmd"
  by (simp add: demo_args_def)

lemma cmd_add_contract_witness:
  "wp (add_may demo_node demo_cluster) (cmd_add demo_json demo (demo_args ''ADD'') demo_world)
     (answered demo_json (demo_args ''ADD'') demo_world {#})"
  by (rule cmd_add_contract) (simp_all add: demo_args_fields)

lemma cmd_del_clean:
  assumes "out_params_filled E" "held w = Some H"
  shows "wp (null_deref_if (cni_netns args = None \<or> cni_ifname args = None \<or> cni_containerid args = None))
    (cmd_del J E args w)
    (\<lambda>(rc, w'). held w' = Some H \<and> files w' = files w \<and>
       (rc = 0 \<and> out w' = out w \<or>
        rc = 1 \<and> reported (err w') \<and> out w' = out w @ [to_plain_string J (error_response J (err w'))]))"
  unfolding cmd_del_def using assms
  apply -
  by (rule walk detach.call | simp (no_asm_simp) add: emit_error_reported | blast)+

text \<open>
  C14. A DEL, whatever the outside answers: nothing is leaked and no file is touched; with exit code 0
  nothing is printed, with exit code 1 the response for the error in the error object, a reported one.
  Its only undefined behaviour is a missing identity of the container.
\<close>

theorem cmd_del_contract:
  assumes "out_params_filled E" "held w = Some H"
  shows "wp (null_deref_if (cni_netns args = None \<or> cni_ifname args = None \<or> cni_containerid args = None))
    (cmd_del J E args w)
    (\<lambda>(rc, w'). held w' = Some H \<and> files w' = files w \<and>
       (rc = 0 \<and> out w' = out w \<or>
        rc = 1 \<and> reported (err w') \<and> out w' = out w @ [to_plain_string J (error_response J (err w'))]))"
  by (rule cmd_del_clean [OF assms])

lemma cmd_del_contract_witness:
  "wp (null_deref_if False) (cmd_del demo_json demo (demo_args ''DEL'') demo_world)
    (\<lambda>(rc, w'). held w' = Some {#} \<and> files w' = (\<lambda>p. None) \<and>
       (rc = 0 \<and> out w' = [] \<or>
        rc = 1 \<and> reported (err w') \<and> out w' = [to_plain_string demo_json (error_response demo_json (err w'))]))"
  using cmd_del_contract [OF demo_works(1), of demo_world "{#}" "demo_args ''DEL''" demo_json]
  by (simp add: demo_args_fields)

text \<open>
  C15. An ADD is accepted exactly when the configuration names the supported version and none of the
  eleven fields is missing: then the arguments are the ones read, and the plugin owns the JSON input. If
  the version is there but not the supported one, or another field is missing, the run is rejected and
  the reference to the JSON input given back: nothing is left of it. Without a version the comparison
  reads through NULL.
\<close>

theorem add_accepted_iff:
  assumes "environ ''CNI_COMMAND'' = Some CNI_CMD_ADD" "args = args_fill J environ input"
  shows "args_parse J environ input w =
    (case cni_version args of
       None \<Rightarrow> stuck NullDeref
     | Some v \<Rightarrow>
         if cstr v = CNI_VERSION \<and> add_ready args then ret (0, args, input_owned args w)
         else ret (1, args\<lparr>json_input := None\<rparr>, w))"
proof -
  have c: "cstr CNI_CMD_ADD = CNI_CMD_ADD" by (simp add: CNI_CMD_ADD_def cstr_def)
  have f: "cni_command args = Some CNI_CMD_ADD"
    using assms by (simp add: args_fill_def Let_def)
  show ?thesis
  proof (cases "cni_version args")
    case None
    then show ?thesis using f by (simp add: args_parse_def Let_def flip: assms(2))
  next
    case (Some v)
    then show ?thesis using args_parse_Some [OF assms(2) f Some, of w] c by simp
  qed
qed

lemma add_accepted_iff_witness:
  "args_parse demo_json (demo_environ ''ADD'') ''conf'' demo_world =
     ret (0, demo_args ''ADD'', json_owned Json_input demo_world) \<and>
   args_parse demo_json ((demo_environ ''ADD'') (''CNI_IFNAME'' := None)) ''conf'' demo_world =
     ret (1, (args_fill demo_json ((demo_environ ''ADD'') (''CNI_IFNAME'' := None)) ''conf'')\<lparr>json_input := None\<rparr>, demo_world) \<and>
   args_parse demo_json (demo_environ ''ADD'') ''old'' demo_world = stuck NullDeref"
proof -
  have v: "cni_version (args_fill demo_json e ''conf'') = Some ''0.4.0''" "cni_version (args_fill demo_json e ''old'') = None" for e
    by (simp_all add: args_fill_def Let_def demo_json_def demo_conf_def jget_def text_field_def
        INPUT_BUFFER_SIZE_def cstr_def)
  have c: "cstr ''0.4.0'' = CNI_VERSION" by (simp add: cstr_def CNI_VERSION_def)
  have no: "\<not> add_ready (args_fill demo_json ((demo_environ ''ADD'') (''CNI_IFNAME'' := None)) ''conf'')"
    by (simp add: add_ready_def args_fill_def Let_def)
  have e: "demo_environ ''ADD'' ''CNI_COMMAND'' = Some CNI_CMD_ADD"
    by (simp add: demo_environ_def CNI_CMD_ADD_def)
  have i: "input_owned (demo_args ''ADD'') demo_world = json_owned Json_input demo_world"
    by (simp add: input_owned_def demo_args_fields)
  show ?thesis
    using add_accepted_iff [where environ = "demo_environ ''ADD''", OF e refl, of demo_json "''conf''" demo_world]
      add_accepted_iff [where environ = "demo_environ ''ADD''", OF e refl, of demo_json "''old''" demo_world]
      add_accepted_iff [where environ = "(demo_environ ''ADD'') (''CNI_IFNAME'' := None)", OF _ refl, of demo_json "''conf''" demo_world] v c no
    by (simp add: demo_args_eq demo_args_fields e i)
qed

text \<open>
  C16. With a command but without a \<open>cniVersion\<close>, which is the case for every input that is not JSON,
  the plugin compares a NULL version.
\<close>

theorem missing_version_undefined:
  assumes "environ ''CNI_COMMAND'' = Some cmd" "get_ex J None ''cniVersion'' = None"
    "tokener_parse J (cstr (take (INPUT_BUFFER_SIZE - 1) input)) = None \<or>
     get_ex J (tokener_parse J (cstr (take (INPUT_BUFFER_SIZE - 1) input))) ''cniVersion'' = None"
  shows "main J E environ input w = stuck NullDeref"
proof -
  have "cni_version (args_fill J environ input) = None"
    using assms(2,3) by (auto simp: args_fill_def Let_def text_field_def)
  moreover have "cni_command (args_fill J environ input) = Some cmd"
    using assms(1) by (simp add: args_fill_def Let_def)
  ultimately show ?thesis by (simp add: main_def args_parse_def Let_def)
qed

lemma missing_version_undefined_witness:
  "main demo_json demo (demo_environ ''VERSION'') ''this is not JSON'' demo_world = stuck NullDeref \<and>
   main demo_json demo (demo_environ ''ADD'') ''old'' demo_world = stuck NullDeref"
  by (intro conjI missing_version_undefined)
    (simp_all add: demo_environ_def demo_json_def jget_def INPUT_BUFFER_SIZE_def cstr_def)

text \<open>
  C17. A DEL without \<open>CNI_NETNS\<close> (or another part of the container's identity) is accepted, since nothing
  is validated for DEL, and hashes a NULL text once the netlink socket is connected.
\<close>

theorem del_without_identity_undefined:
  assumes "environ ''CNI_COMMAND'' = Some CNI_CMD_DEL"
    "cni_version (args_fill J environ input) = Some CNI_VERSION"
    "environ ''CNI_NETNS'' = None \<or> environ ''CNI_IFNAME'' = None \<or> environ ''CNI_CONTAINERID'' = None"
    "\<And>k. outp (fst (answer E (CAlloc RSock ''nl_socket_alloc'') k)) \<noteq> 0"
    "\<And>sk k. 0 \<le> rv (fst (answer E (CNlConnect sk NETLINK_ROUTE) k))"
  shows "main J E environ input w = stuck NullDeref"
proof -
  let ?args = "args_fill J environ input"
  have c: "cstr CNI_CMD_DEL = CNI_CMD_DEL" "cstr CNI_VERSION = CNI_VERSION"
    by (simp_all add: CNI_CMD_DEL_def CNI_VERSION_def cstr_def)
  have f: "cni_command ?args = Some CNI_CMD_DEL" "cni_netns ?args = environ ''CNI_NETNS''"
    "cni_ifname ?args = environ ''CNI_IFNAME''" "cni_containerid ?args = environ ''CNI_CONTAINERID''"
    using assms(1) by (simp_all add: args_fill_def Let_def)
  let ?w = "w\<lparr>json_refs := Some {#}\<rparr>"
  have p: "args_parse J environ input ?w = ret (0, ?args, input_owned ?args ?w)"
    using args_parse_Some [OF refl f(1) assms(2)] by (simp add: c)
  have ok: "outp (fst (ext E (CAlloc RSock ''nl_socket_alloc'') v)) \<noteq> 0"
    "\<not> rv (fst (ext E (CNlConnect sk NETLINK_ROUTE) v)) < 0" for v sk
    using assms(4,5) by (simp_all add: ext_def case_prod_beta not_less)
  have "generate_deterministic_host_if_name (cni_netns ?args) (cni_ifname ?args) (cni_containerid ?args)
      = stuck NullDeref"
    unfolding f(2-4) using assms(3)
    by (cases "environ ''CNI_NETNS''"; cases "environ ''CNI_IFNAME''"; cases "environ ''CNI_CONTAINERID''")
      (simp_all add: generate_deterministic_host_if_name_def hash_of_def Let_def)
  then have "net_detach_container E (cni_netns ?args) (cni_ifname ?args) (cni_containerid ?args) v
      = stuck NullDeref" for v
    by (simp add: net_detach_container_def case_prod_beta Let_def ok)
  then show ?thesis by (simp add: main_def p f(1) c cmd_del_def)
qed

lemma del_without_identity_undefined_witness:
  "main demo_json demo ((demo_environ ''DEL'') (''CNI_NETNS'' := None)) ''conf'' demo_world = stuck NullDeref"
  by (rule del_without_identity_undefined)
    (simp_all add: demo_environ_def CNI_CMD_DEL_def args_fill_def Let_def demo_json_def demo_conf_def jget_def
      text_field_def INPUT_BUFFER_SIZE_def cstr_def demo_def CNI_VERSION_def)

lemma main_accepted:
  assumes "environ ''CNI_COMMAND'' = Some cmd" "args = args_fill J environ input"
    "cni_version args = Some ver" "cstr ver = CNI_VERSION" "cstr cmd = CNI_CMD_ADD \<longrightarrow> add_ready args"
    "v = input_owned args (w\<lparr>json_refs := Some {#}\<rparr>)"
  shows "main J E environ input w =
    (if cstr cmd = CNI_CMD_ADD then cmd_add J E args v
     else if cstr cmd = CNI_CMD_DEL then cmd_del J E args v
     else if cstr cmd = CNI_CMD_VERSION then ret (0, print_line (to_plain_string J (version_response J)) v)
     else if cstr cmd \<in> {CNI_CMD_STATUS, CNI_CMD_CHECK, CNI_CMD_GC} then ret (0, v)
     else ret (1, w\<lparr>json_refs := Some {#}\<rparr>))"
proof -
  have f: "cni_command args = Some cmd"
    using assms(1,2) by (simp add: args_fill_def Let_def)
  have p: "args_parse J environ input (w\<lparr>json_refs := Some {#}\<rparr>) = ret (0, args, v)"
    using args_parse_Some [OF assms(2) f assms(3)] assms(4-6) by simp
  have free: "args_free args v = (args\<lparr>json_input := None\<rparr>, w\<lparr>json_refs := Some {#}\<rparr>)"
    by (simp add: assms(6))
  show ?thesis
    by (simp add: main_def p f free cmd_status_def cmd_check_def cmd_gc_def cmd_version_def)
      (auto simp: CNI_CMD_STATUS_def CNI_CMD_VERSION_def)
qed

text \<open>
  C27. A DEL is not idempotent: when the interface is gone already, because an earlier DEL removed it or
  the ADD failed before creating it, and the kernel therefore does not find it, DEL prints an error
  response and ends with exit code 1.
\<close>

theorem del_of_missing_fails:
  assumes "out_params_filled E" "held w = Some H"
    "cni_netns args = Some n" "cni_ifname args = Some i" "cni_containerid args = Some c"
    "\<And>sk k. rv (fst (answer E (CLinkGetKernel sk 0 (Some (''sknf'' @ hex8 (if_hash n i c)))) k)) < 0"
  shows "\<exists>w' e. cmd_del J E args w = ret (1, w') \<and> reported e \<and>
    out w' = out w @ [to_plain_string J (error_response J e)]"
proof -
  have "wp never (cmd_del J E args w)
    (\<lambda>(rc, w'). held w' = Some H \<and> files w' = files w \<and>
       (rc = 0 \<and> out w' = out w \<or>
        rc = 1 \<and> reported (err w') \<and> out w' = out w @ [to_plain_string J (error_response J (err w'))]))"
    using cmd_del_clean [OF assms(1,2), of args J] by (rule wp_mono_ub) (simp add: null_deref_if_def assms(3-5))
  then obtain rc w' where r: "cmd_del J E args w = ret (rc, w')"
    "rc = 0 \<or> rc = 1 \<and> reported (err w') \<and> out w' = out w @ [to_plain_string J (error_response J (err w'))]"
    by (auto simp: wp_never)
  have "ext E (CLinkGetKernel sk 0 (Some (''sknf'' @ hex8 (if_hash n i c)))) v = (q, v') \<Longrightarrow> rv q < 0" for sk q v v'
    using assms(6) [of sk "kern v"] by (auto simp: ext_def split: prod.splits)
  then have "rc \<noteq> 0"
    using r(1) by (auto simp: cmd_del_def Let_def assms(3-5) net_detach_container_def net_detach_container_out_def
        nu_delete_if_def nu_delete_if_out_def exec_bind_eq_ret split: prod.split_asm if_split_asm)
  with r show ?thesis by auto
qed

definition link_missing :: "nat env" where
  "link_missing = demo_but (\<lambda>c. case c of CLinkGetKernel sk i s \<Rightarrow> True | _ \<Rightarrow> False) (-21)"

lemma del_of_missing_fails_witness:
  "\<exists>w' e. cmd_del demo_json link_missing (demo_args ''DEL'') demo_world = ret (1, w') \<and> reported e \<and>
     out w' = [to_plain_string demo_json (error_response demo_json e)]"
proof -
  have "rv (fst (answer link_missing (CLinkGetKernel sk 0 s) k)) < 0" for sk s k
    by (simp add: link_missing_def demo_but_def)
  moreover have "out_params_filled link_missing"
    by (simp add: link_missing_def out_params_filled_demo_but)
  ultimately show ?thesis
    using del_of_missing_fails [of link_missing demo_world "{#}" "demo_args ''DEL''" "''/var/run/netns/a''" "''eth0''" "''c1''" demo_json]
    by (simp add: demo_args_fields)
qed

end
