(* ===== verification/Success.thy ===== *)
theory Success
  imports Cmd
begin

text \<open>
  The other side of the contracts: on an outside where every call succeeds, whether the bridge and the
  VXLAN interface exist or have to be created, every operation returns 0, and an ADD hands out the next
  address.
\<close>


section \<open>A granting outside\<close>

text \<open>
  Every call is answered with what its documentation calls success: no negative result, an object
  where one is asked for, 0 from \<open>setns\<close> and \<open>fclose\<close>, an index for every interface name other than
  the bridge's and the VXLAN interface's (which may not exist yet), all bytes accepted by \<open>fwrite\<close>, one
  datagram of acknowledgements that ends with the last one. The bridge has an index right after the
  creation of an interface was accepted.
\<close>

definition own_names :: "string set" where
  "own_names = {HOST_BRIDGE_NAME, HOST_VXLAN_NAME}"

definition granted :: "call \<Rightarrow> reply \<Rightarrow> bool" where
  "granted c r \<longleftrightarrow> 0 \<le> rv r \<and> outp r \<noteq> 0 \<and>
     (case c of
        CSetns fd \<Rightarrow> rv r = 0
      | CFclose p \<Rightarrow> rv r = 0
      | CMnlCbRun n q p \<Rightarrow> rv r = 0
      | CIfNameToIndex s \<Rightarrow> s \<notin> own_names \<longrightarrow> rv r \<noteq> 0
      | CMnlRecvfrom p \<Rightarrow> rv r \<noteq> 0
      | CFwrite p s \<Rightarrow> int (length s) \<le> rv r
      | _ \<Rightarrow> True)"

definition granting :: "'k env \<Rightarrow> bool" where
  "granting E \<longleftrightarrow> (\<forall>c k. granted c (fst (answer E c k))) \<and>
     (\<forall>sk l fl k. rv (fst (answer E (CIfNameToIndex HOST_BRIDGE_NAME) (snd (answer E (CLinkAdd sk l fl) k)))) \<noteq> 0)"

lemma granting_ext: "granting E \<Longrightarrow> ext E c w = (r, w') \<Longrightarrow> granted c r"
  by (auto simp: ext_def granting_def split: prod.splits) (metis fst_conv)

lemma granting_stdio: "granting E \<Longrightarrow> stdio_works E"
proof -
  assume "granting E"
  then have g: "granted c (fst (answer E c k))" for c k by (simp add: granting_def)
  show ?thesis
    unfolding stdio_works_def
  proof (intro conjI allI)
    fix k p m n s
    show "outp (fst (answer E (CFopen p m) k)) \<noteq> 0" using g [of "CFopen p m" k] by (simp add: granted_def)
    show "0 \<le> rv (fst (answer E (CFread f n) k))" for f using g [of "CFread f n" k] by (simp add: granted_def)
    show "int (length s) \<le> rv (fst (answer E (CFwrite f s) k))" for f using g [of "CFwrite f s" k] by (simp add: granted_def)
    show "0 \<le> rv (fst (answer E (CFputs f s) k))" for f using g [of "CFputs f s" k] by (simp add: granted_def)
    show "rv (fst (answer E (CFclose f) k)) = 0" for f using g [of "CFclose f" k] by (simp add: granted_def)
  qed
qed

lemma granting_filled: "granting E \<Longrightarrow> out_params_filled E"
  by (simp add: granting_def granted_def out_params_filled_def)


section \<open>Walking through granted calls\<close>

text \<open>What an operation that succeeds leaves alone.\<close>

definition seen :: "'k world \<Rightarrow> (string \<Rightarrow> string option) \<times> Err \<times> string list" where
  "seen w = (files w, err w, out w)"

lemma granted_call:
  assumes "granting E"
    and "\<And>r w'. granted c r \<Longrightarrow> seen w' = seen w \<Longrightarrow> wp U (f r w') Q"
  shows "wp U (let (r, w') = ext E c w in f r w') Q"
proof (cases "ext E c w")
  case (Pair r w')
  have "seen w' = seen w" using after_ext [OF Pair] by (simp add: after_def seen_def)
  from assms(2) [OF granting_ext [OF assms(1) Pair] this] show ?thesis by (simp add: Pair)
qed

lemma granted_alloc:
  assumes "granting E" "\<And>r p w'. 0 < p \<Longrightarrow> seen w' = seen w \<Longrightarrow> wp U (z r p w') Q"
  shows "wp U (let (r, w') = ext E (CAlloc t g) w; p = outp r in if p = 0 then y r p w' else z r p w') Q"
  by (rule granted_call [OF assms(1)]) (simp add: granted_def assms(2))

lemma granted_nonneg:
  assumes "granting E" "\<And>r w'. seen w' = seen w \<Longrightarrow> wp U (z r w') Q"
  shows "wp U (let (r, w') = ext E c w in if rv r < 0 then y r w' else z r w') Q"
  by (rule granted_call [OF assms(1)]) (simp add: granted_def assms(2) not_less [symmetric])

lemma granted_open:
  assumes "granting E" "\<And>r fd w'. 0 \<le> fd \<Longrightarrow> seen w' = seen w \<Longrightarrow> wp U (z r fd w') Q"
  shows "wp U (let (r, w') = ext E c w; fd = rv r in if fd < 0 then y r fd w' else z r fd w') Q"
  by (rule granted_call [OF assms(1)]) (simp add: granted_def assms(2) not_less [symmetric])

lemma granted_setns:
  assumes "granting E" "\<And>r w'. seen w' = seen w \<Longrightarrow> wp U (z r w') Q"
  shows "wp U (let (r, w') = ext E (CSetns fd) w in if rv r \<noteq> 0 then y r w' else z r w') Q"
  by (rule granted_call [OF assms(1)]) (simp add: granted_def assms(2))

lemma granted_ifindex:
  assumes "granting E" "n \<notin> own_names" "\<And>r i w'. i \<noteq> 0 \<Longrightarrow> seen w' = seen w \<Longrightarrow> wp U (z r i w') Q"
  shows "wp U (let (r, w') = ext E (CIfNameToIndex n) w; i = rv r in if i = 0 then y r i w' else z r i w') Q"
  by (rule granted_call [OF assms(1)]) (use assms(2) in \<open>simp add: granted_def assms(3)\<close>)

lemma granted_exists:
  assumes "granting E" "\<And>r i w'. seen w' = seen w \<Longrightarrow> wp U (y r i w') Q" "\<And>r i w'. seen w' = seen w \<Longrightarrow> wp U (z r i w') Q"
  shows "wp U (let (r, w') = ext E (CIfNameToIndex n) w; i = rv r in if i \<noteq> 0 then y r i w' else z r i w') Q"
  by (rule granted_call [OF assms(1)]) (simp add: assms(2,3) Let_def)

lemma granted_created:
  assumes "granting E" "\<And>r i w'. i \<noteq> 0 \<Longrightarrow> seen w' = seen w \<Longrightarrow> wp U (z r i w') Q"
  shows "wp U (let (r, w') = ext E (CLinkAdd sk l fl) w in if rv r < 0 then x r w'
      else let (r, w') = ext E (CIfNameToIndex HOST_BRIDGE_NAME) w'; i = rv r in if i = 0 then y r i w' else z r i w') Q"
proof -
  obtain r1 w1 where 1: "ext E (CLinkAdd sk l fl) w = (r1, w1)" by force
  obtain r2 w2 where 2: "ext E (CIfNameToIndex HOST_BRIDGE_NAME) w1 = (r2, w2)" by force
  have "rv (fst (answer E (CIfNameToIndex HOST_BRIDGE_NAME) (snd (answer E (CLinkAdd sk l fl) (kern w))))) \<noteq> 0"
    using assms(1) by (simp add: granting_def)
  then have "rv r2 \<noteq> 0" using 1 2 by (auto simp: ext_def split: prod.splits)
  moreover have "seen w2 = seen w" using after_ext [OF 1] after_ext [OF 2] by (simp add: after_def seen_def)
  moreover have "0 \<le> rv r1" using granting_ext [OF assms(1) 1] by (simp add: granted_def)
  ultimately show ?thesis using assms(2) by (simp add: 1 2)
qed

lemma granted_run:
  assumes "\<And>w'. seen w' = seen w \<Longrightarrow> wp U (f w') Q"
  shows "wp U (let w' = run E c w in f w') Q"
  using assms after_ext [of E c w "fst (ext E c w)" "snd (ext E c w)"]
  by (simp add: run_def after_def seen_def)

lemma granted_release:
  assumes "\<And>w'. seen w' = seen w \<Longrightarrow> wp U (f w') Q"
  shows "wp U (let w' = release_if E t p w in f w') Q"
  using assms granted_run [of w U f Q E "CRelease t p"] by (simp add: release_if_def)

lemma seen_run [simp]: "seen (run E c w) = seen w"
  using after_ext [of E c w "fst (ext E c w)" "snd (ext E c w)"] by (simp add: run_def after_def seen_def)

lemma seen_release_if [simp]: "seen (release_if E t p w) = seen w"
  by (simp add: release_if_def)

lemmas granted = granted_created granted_alloc granted_nonneg granted_open granted_setns granted_ifindex granted_exists
  granted_call granted_run granted_release wp_let


section \<open>Operations that succeed\<close>

definition done_with :: "'k world \<Rightarrow> int \<times> 'k world \<Rightarrow> bool" where
  "done_with w res \<longleftrightarrow> fst res = 0 \<and> seen (snd res) = seen w"

lemma done_with_Pair [simp]: "done_with w (rc, w') \<longleftrightarrow> rc = 0 \<and> seen w' = seen w"
  by (simp add: done_with_def)

locale succeeding =
  fixes oper :: "'k op" and lib :: bool
  assumes succeeds: "lib \<Longrightarrow> wp never (oper w) (done_with w)"
begin

lemma call_succeeds:
  assumes "lib" "\<And>w'. seen w' = seen w \<Longrightarrow> wp U (f 0 w') Q"
  shows "wp U (exec_bind (oper w) (\<lambda>(rc, w'). f rc w')) Q"
  by (rule wp_bind, rule wp_mono, rule wp_mono_ub, rule succeeds [OF assms(1)])
     (use assms(2) in \<open>auto simp: done_with_def never_def\<close>)

lemma returns_0: "lib \<Longrightarrow> \<exists>w'. oper w = ret (0, w') \<and> seen w' = seen w"
  using succeeds by (fastforce simp: wp_never)

end

text \<open>The address object.\<close>

lemma granted_addr_build:
  assumes "granting E" "util_cidr_parse cidr = ret (Inr (a, p))"
    and "\<And>q w'. 0 < q \<Longrightarrow> seen w' = seen w \<Longrightarrow> wp U (f 0 q w') Q"
  shows "wp U (exec_bind (nu_rtnl_addr_build E cidr idx w) (\<lambda>(rc, q, w'). f rc q w')) Q"
proof (rule wp_bind)
  have n: "inet_ntop INET_ADDRSTRLEN a = Some (dotted a)"
    by (rule inet_ntop_fits) (simp add: INET_ADDRSTRLEN_def)
  show "wp U (nu_rtnl_addr_build E cidr idx w) (\<lambda>x. wp U (case x of (rc, q, w') \<Rightarrow> f rc q w') Q)"
    unfolding nu_rtnl_addr_build_def nu_rtnl_addr_build_out_def assms(2) exec_bind_simps sum.case prod.case n option.case
    using assms(1) apply -
    by (rule granted wp_ret assms(3) | simp (no_asm_simp))+
qed

interpretation ok_bridge: succeeding "nu_create_bridge E sk (cidr_text a p) HOST_BRIDGE_NAME" "granting E \<and> int_range p" for E sk a p
proof
  fix w :: "'a world"
  assume p: "granting E \<and> int_range p"
  then have parse: "util_cidr_parse (cidr_text a p) = ret (Inr (a, p))" by simp
  show "wp never (nu_create_bridge E sk (cidr_text a p) HOST_BRIDGE_NAME w) (done_with w)"
    unfolding nu_create_bridge_def nu_create_bridge_out_def
    using p [THEN conjunct1]
    apply -
    by (rule granted_addr_build [OF _ parse] wp_if_ok granted wp_ret | simp (no_asm_simp))+
qed

interpretation ok_vxlan: succeeding "nu_create_vxlan E sk und vx gr vni" "granting E \<and> und \<notin> own_names" for E sk und vx gr vni
  by unfold_locales (unfold nu_create_vxlan_def nu_create_vxlan_out_def, (rule granted wp_ret | simp (no_asm_simp))+)

interpretation ok_veth: succeeding "nu_create_veth E sk fd cv tmp host" "granting E \<and> tmp \<notin> own_names" for E sk fd cv tmp host
  by unfold_locales (unfold nu_create_veth_def nu_create_veth_out_def, (rule granted wp_ret | simp (no_asm_simp))+)

interpretation ok_enable: succeeding "nu_enable_veth E sk ifname" "granting E" for E sk ifname
  by unfold_locales (unfold nu_enable_veth_def nu_enable_veth_out_def, (rule granted wp_ret | simp (no_asm_simp))+)

interpretation ok_delete: succeeding "nu_delete_if E sk ifname" "granting E" for E sk ifname
  by unfold_locales (unfold nu_delete_if_def nu_delete_if_out_def, (rule granted wp_ret | simp (no_asm_simp))+)

interpretation ok_route: succeeding "nu_add_routing_rule E sk cidr nxt idx" "granting E" for E sk cidr nxt idx
  by unfold_locales (unfold nu_add_routing_rule_def nu_add_routing_rule_out_def, (rule granted wp_ret | simp (no_asm_simp))+)

interpretation ok_attach_ifs: succeeding "attach_ifs_to_bridge E sk host" "granting E" for E sk host
  by unfold_locales (unfold attach_ifs_to_bridge_def attach_ifs_to_bridge_out_def, (rule granted wp_ret | simp (no_asm_simp))+)

text \<open>The rule message.\<close>

lemma granted_set_attrs: "seen (nft_set_attrs E e as w) = seen w"
proof (induction as arbitrary: w)
  case (Cons av as)
  obtain a v where av: "av = (a, v)" by force
  with Cons show ?case by (simp add: av)
qed simp

lemma granted_add_exprs:
  assumes "granting E" "\<And>w'. seen w' = seen w \<Longrightarrow> wp U (f w') Q"
  shows "wp U (exec_bind (nft_add_exprs E r xs w) f) Q"
  using assms(2)
proof (induction xs arbitrary: w)
  case (Cons x xs)
  have "wp U (nft_add_expr E r x w) (\<lambda>w'. seen w' = seen w)"
    unfolding nft_add_expr_def
    using assms(1) apply -
    by (rule granted wp_ret | simp (no_asm_simp) add: granted_set_attrs)+
  then have "wp U (nft_add_expr E r x w) (\<lambda>w'. wp U (exec_bind (nft_add_exprs E r xs w') f) Q)"
    by (rule wp_mono) (rule Cons.IH, simp add: Cons.prems)
  then show ?case by (simp add: exec_bind_assoc wp_bind)
qed simp

lemma granted_acks:
  assumes "granting E" "0 < rv r" "\<And>r' w'. rv r' = 0 \<Longrightarrow> seen w' = seen w \<Longrightarrow> wp U (f r' w') Q"
  shows "wp U (exec_bind (nft_acks E sk q p r w) (\<lambda>(r', w'). f r' w')) Q"
proof -
  obtain r' w' where e: "ext E (CMnlCbRun (rv r) q p) w = (r', w')" by force
  have "rv r' = 0" using granting_ext [OF assms(1) e] by (simp add: granted_def)
  moreover have "seen w' = seen w" using after_ext [OF e] by (simp add: after_def seen_def)
  ultimately show ?thesis
    using e assms(2,3) by (simp add: nft_acks.simps [of E sk q p r w])
qed

lemma granted_recv:
  assumes "granting E" "\<And>r w'. 0 < rv r \<Longrightarrow> seen w' = seen w \<Longrightarrow> wp U (f r w') Q"
  shows "wp U (let (r, w') = ext E (CMnlRecvfrom sk) w in f r w') Q"
  by (rule granted_call [OF assms(1)]) (rule assms(2), simp_all add: granted_def)

lemma granted_keep_batch:
  "wp U (f w) Q \<Longrightarrow> wp U (let w' = (if b \<noteq> 0 \<and> \<not> True then x else w) in f w') Q"
  by simp

interpretation ok_nft: succeeding "nft_nat_rule E ifname (cidr_text a p)" "granting E \<and> 0 \<le> p \<and> p \<le> 32"
  for E ifname a p
proof
  fix w :: "'a world"
  assume p: "granting E \<and> 0 \<le> p \<and> p \<le> 32"
  then have parse: "util_cidr_parse (cidr_text a p) = ret (Inr (a, p))" by (simp add: int_range_def)
  obtain m where m: "nft_mask p = ret m" using p by (cases "p = 0") (auto simp: nft_mask_def)
  show "wp never (nft_nat_rule E ifname (cidr_text a p) w) (done_with w)"
    unfolding nft_nat_rule_def nft_rule_def nft_send_def nft_nat_rule_out_def parse m exec_bind_simps sum.case prod.case
    using p [THEN conjunct1]
    apply -
    by (rule granted_keep_batch granted_add_exprs granted_acks granted_recv granted wp_ret | simp (no_asm_simp))+
qed

lemma granted_if_run:
  assumes "\<And>w'. seen w' = seen w \<Longrightarrow> wp U (f w') Q"
  shows "wp U (let w' = (if b then run E c w else w) in f w') Q"
  using assms granted_run [of w U f Q E c] by simp

interpretation ok_configure: succeeding "configure_container_veth E fd ifname (cidr_text a p) bridge"
  "granting E \<and> int_range p \<and> ifname \<notin> own_names" for E fd ifname a p bridge
proof
  fix w :: "'a world"
  assume p: "granting E \<and> int_range p \<and> ifname \<notin> own_names"
  then have parse: "util_cidr_parse (cidr_text a p) = ret (Inr (a, p))" by simp
  show "wp never (configure_container_veth E fd ifname (cidr_text a p) bridge w) (done_with w)"
    unfolding configure_container_veth_def configure_container_veth_out_def
    using p [THEN conjunct1] p [THEN conjunct2, THEN conjunct2]
    apply -
    by (rule wp_init_var(1) granted_addr_build [OF _ parse] wp_if_ok ok_route.call_succeeds granted_if_run granted wp_ret
       | simp (no_asm_simp))+
qed

interpretation ok_setup: succeeding "setup_veth E sk fd cv tmp host (cidr_text a p) bridge"
  "granting E \<and> int_range p \<and> cv \<notin> own_names \<and> tmp \<notin> own_names" for E sk fd cv tmp host a p bridge
  by unfold_locales (unfold setup_veth_def,
    (rule ok_veth.call_succeeds ok_configure.call_succeeds ok_enable.call_succeeds wp_if_ok wp_ret | simp (no_asm_simp))+)

interpretation ok_net_attach: succeeding "net_attach_container E n i (cidr_text a p) c (cidr_text b q) phys"
  "granting E \<and> 0 \<le> p \<and> p \<le> 32 \<and> int_range q \<and> i \<notin> own_names \<and> phys \<notin> own_names" for E n i a p c b q phys
proof
  fix w :: "'a world"
  assume p: "granting E \<and> 0 \<le> p \<and> p \<le> 32 \<and> int_range q \<and> i \<notin> own_names \<and> phys \<notin> own_names"
  then have r: "granting E \<and> int_range p \<and> i \<notin> own_names \<and> ''tmp'' @ hex8 (if_hash n i c) \<notin> own_names" "granting E \<and> 0 \<le> p \<and> p \<le> 32"
    "granting E \<and> int_range q" "granting E \<and> phys \<notin> own_names"
    by (simp_all add: int_range_def own_names_def HOST_BRIDGE_NAME_def HOST_VXLAN_NAME_def)
  show "wp never (net_attach_container E n i (cidr_text a p) c (cidr_text b q) phys w) (done_with w)"
    unfolding net_attach_container_def net_attach_container_out_def if_names exec_bind_simps
    using p [THEN conjunct1]
    apply -
    by (rule ok_setup.call_succeeds [OF r(1)] ok_nft.call_succeeds [OF r(2)] ok_bridge.call_succeeds [OF r(3)]
         ok_vxlan.call_succeeds [OF r(4)] ok_attach_ifs.call_succeeds wp_if_ok granted_if_run granted wp_ret
       | simp (no_asm_simp))+
qed

interpretation ok_net_detach: succeeding "net_detach_container E (Some n) (Some i) (Some c)" "granting E" for E n i c
  by unfold_locales (unfold net_detach_container_def net_detach_container_out_def if_names exec_bind_simps,
    (rule ok_delete.call_succeeds wp_if_ok granted wp_ret | simp (no_asm_simp))+)

section \<open>Properties\<close>

text \<open>With stdio working, an ADD gets as far as the attach, with the next address stored in the file.\<close>

lemma add_until_attach:
  assumes "stdio_works E" "held w = Some H" "files w sysctl_ip4 \<noteq> None" "files w sysctl_ip6 \<noteq> None"
    "cni_netns args = Some ns" "cni_ifname args = Some i" "cni_containerid args = Some c"
    "host_physical_interface args = Some ph" "subnet args = Some node" "cluster_cidr args = Some cluster"
    "util_cidr_parse node = ret (Inr (a, p))" "util_cidr_parse cluster = ret (Inr (b, cp))"
    "ip_counter node w = Some n"
  shows "\<exists>v. cmd_add J E args w =
      exec_bind (net_attach_container E ns i (ip_text cp (n + 1)) c (cidr_text (next_addr a) cp) ph v) (\<lambda>(rc, w').
        if rc \<noteq> 0 then ret (1, emit_error_response J (err w') w')
        else ret (0, emit_add_response J args (ip_text cp (n + 1)) w')) \<and>
    held v = Some H \<and> out v = out w \<and>
    files v = (files w)(sysctl_ip4 := Some sysctl_on, sysctl_ip6 := Some sysctl_on,
      IP_INFO_FILE_PATH := Some (ip_text cp (n + 1)))"
proof -
  let ?w = "set_err zero_err w"
  obtain w1 where 1: "sys_enable_br_netfilter E ?w = ret (0, w1)"
    "files w1 = (files w)(sysctl_ip4 := Some sysctl_on, sysctl_ip6 := Some sysctl_on)"
    using sys_enable_works [OF assms(1), of ?w] assms(3,4) by auto
  have "wp (\<lambda>u. True) (exec_bind (sys_enable_br_netfilter E ?w) (\<lambda>(rc, w'). ret (rc, w')))
      (\<lambda>(rc, w'). held w' = Some H \<and> out w' = out w)"
    by (rule wp_sys_enable_br_netfilter) (use assms(2) in \<open>auto intro!: wp_ret\<close>)
  then have h1: "held w1 = Some H" "out w1 = out w" by (simp_all add: 1 wp_def)
  have p: "IP_INFO_FILE_PATH \<noteq> sysctl_ip4" "IP_INFO_FILE_PATH \<noteq> sysctl_ip6"
    by (metis is_proc_ip_info sysctl_paths(1,2))+
  have "ip_counter node w1 = Some n"
    using assms(2,13) 1(2) h1 p by (simp add: ip_counter_def)
  then obtain w2 where 2: "ip_container_acquire E node cluster w1 = ret ((0, ip_text cp (n + 1)), w2)"
    "files w2 = (files w1)(IP_INFO_FILE_PATH := Some (ip_text cp (n + 1)))" "out w2 = out w1" "held w2 = held w1"
    using ip_container_acquire_works [OF assms(1) _ assms(12), of node w1 n] unfolding quiet_def by blast
  show ?thesis
    using 1 2 h1 assms(5-10) ip_bridge_eq [OF assms(11,12)]
    by (intro exI [of _ w2]) (simp add: cmd_add_def)
qed

lemma add_works:
  assumes "granting E" "held w = Some H" "files w sysctl_ip4 \<noteq> None" "files w sysctl_ip6 \<noteq> None"
    "add_ready args" "subnet args = Some node" "cluster_cidr args = Some cluster"
    "util_cidr_parse node = ret (Inr (a, p))" "util_cidr_parse cluster = ret (Inr (b, cp))" "0 \<le> cp" "cp \<le> 32"
    "ip_counter node w = Some n"
    "cni_ifname args = Some i" "i \<notin> own_names" "host_physical_interface args = Some ph" "ph \<notin> own_names"
  shows "\<exists>w'. cmd_add J E args w = ret (0, w') \<and>
    out w' = out w @ [to_plain_string J (add_response J args (ip_text cp (n + 1)))] \<and>
    files w' = (files w)(sysctl_ip4 := Some sysctl_on, sysctl_ip6 := Some sysctl_on,
      IP_INFO_FILE_PATH := Some (ip_text cp (n + 1))) \<and>
    held w' = Some H \<and> ip_counter node w' = Some (n + 1)"
proof -
  obtain ns c where f: "cni_netns args = Some ns" "cni_containerid args = Some c"
    using assms(5) by (auto simp: add_ready_def)
  obtain v where v: "cmd_add J E args w =
      exec_bind (net_attach_container E ns i (ip_text cp (n + 1)) c (cidr_text (next_addr a) cp) ph v) (\<lambda>(rc, w').
        if rc \<noteq> 0 then ret (1, emit_error_response J (err w') w')
        else ret (0, emit_add_response J args (ip_text cp (n + 1)) w'))"
    "held v = Some H" "out v = out w"
    "files v = (files w)(sysctl_ip4 := Some sysctl_on, sysctl_ip6 := Some sysctl_on,
      IP_INFO_FILE_PATH := Some (ip_text cp (n + 1)))"
    using add_until_attach [OF granting_stdio [OF assms(1)] assms(2-4) f(1) assms(13) f(2) assms(15,6-9,12), of J] by blast
  obtain w3 where 3: "net_attach_container E ns i (ip_text cp (n + 1)) c (cidr_text (next_addr a) cp) ph v = ret (0, w3)"
    "seen w3 = seen v"
    using ok_net_attach.returns_0 [where E = E and p = cp and n = ns and i = i and a = "In_addr (htonl (n + 1))"
        and c = c and b = "next_addr a" and q = cp and phys = ph and w = v] assms(1,10,11,14,16) util_cidr_parse_range [OF assms(9)]
    unfolding ip_text_def by blast
  have r: "cmd_add J E args w = ret (0, emit_add_response J args (ip_text cp (n + 1)) w3)"
    using v(1) 3(1) by simp
  moreover have h3: "held (emit_add_response J args (ip_text cp (n + 1)) w3) = Some H"
    using wp_retD [OF cmd_add_answers [OF granting_filled [OF assms(1)] assms(2,5-7)] r] by (simp add: answered_def)
  moreover have "ip_counter node (emit_add_response J args (ip_text cp (n + 1)) w3) = Some (n + 1)"
    by (rule ip_counter_after [OF _ h3]) (use v 3 util_cidr_parse_range [OF assms(9)] in \<open>simp_all add: seen_def\<close>)
  ultimately show ?thesis
    using v 3 by (simp add: seen_def)
qed

text \<open>Whatever comes of the attach, the address is used up; a DEL does not give one back.\<close>

lemma add_counts:
  assumes "stdio_works E" "out_params_filled E" "held w = Some H" "files w sysctl_ip4 \<noteq> None" "files w sysctl_ip6 \<noteq> None"
    "add_ready args" "subnet args = Some node" "cluster_cidr args = Some cluster"
    "util_cidr_parse node = ret (Inr (a, p))" "util_cidr_parse cluster = ret (Inr (b, cp))"
    "ip_counter node w = Some n" "cmd_add J E args w = ret (rc, w')"
  shows "ip_counter node w' = Some (n + 1)" "held w' = Some H" "files w' sysctl_ip4 \<noteq> None" "files w' sysctl_ip6 \<noteq> None"
    "rc = 0 \<Longrightarrow> out w' = out w @ [to_plain_string J (add_response J args (ip_text cp (n + 1)))]"
proof -
  obtain ns i c ph where f: "cni_netns args = Some ns" "cni_ifname args = Some i" "cni_containerid args = Some c"
    "host_physical_interface args = Some ph"
    using assms(6) by (auto simp: add_ready_def)
  obtain v where v: "cmd_add J E args w =
      exec_bind (net_attach_container E ns i (ip_text cp (n + 1)) c (cidr_text (next_addr a) cp) ph v) (\<lambda>(rc, w').
        if rc \<noteq> 0 then ret (1, emit_error_response J (err w') w')
        else ret (0, emit_add_response J args (ip_text cp (n + 1)) w'))"
    "held v = Some H" "out v = out w"
    "files v = (files w)(sysctl_ip4 := Some sysctl_on, sysctl_ip6 := Some sysctl_on,
      IP_INFO_FILE_PATH := Some (ip_text cp (n + 1)))"
    using add_until_attach [OF assms(1,3-5) f assms(7-11), of J] by blast
  obtain rc' u where u: "net_attach_container E ns i (ip_text cp (n + 1)) c (cidr_text (next_addr a) cp) ph v = ret (rc', u)"
    "rc' = 0 \<and> rc = 0 \<and> w' = emit_add_response J args (ip_text cp (n + 1)) u \<or>
     rc' \<noteq> 0 \<and> rc = 1 \<and> w' = emit_error_response J (err u) u"
    using assms(12) by (auto simp: v(1) exec_bind_eq_ret split: if_splits)
  have clean: "files u = files v" "out u = out v" using attach.returned [OF assms(2) v(2) _ u(1)] by simp_all
  then have files: "files w' = files v" using u(2) by auto
  show h: "held w' = Some H"
    using wp_retD [OF cmd_add_answers [OF assms(2,3,6-8)] assms(12)] by (auto simp: answered_def)
  show "ip_counter node w' = Some (n + 1)"
    by (rule ip_counter_after [OF _ h]) (use files v util_cidr_parse_range [OF assms(10)] in simp_all)
  show "files w' sysctl_ip4 \<noteq> None" "files w' sysctl_ip6 \<noteq> None" by (simp_all add: files v(4))
  show "out w' = out w @ [to_plain_string J (add_response J args (ip_text cp (n + 1)))]" if "rc = 0"
    using u(2) that clean v(3) by auto
qed

lemma del_counts:
  assumes "out_params_filled E" "held w = Some H" "ip_counter node w = Some n" "cmd_del J E args w = ret (rc, w')"
  shows "ip_counter node w' = Some n" "held w' = Some H" "files w' = files w"
proof -
  show "held w' = Some H" "files w' = files w"
    using wp_retD [OF cmd_del_clean [OF assms(1,2)] assms(4)] by auto
  then show "ip_counter node w' = Some n" using assms(2,3) by (simp add: ip_counter_def)
qed

text \<open>
  C3. On a granting outside an accepted ADD returns 0 if the bridge module's sysctls exist, the node CIDR
  and the cluster CIDR parse, the cluster's prefix length is 0 to 32, the allocator's file is absent or
  holds a CIDR that parses, and the two interfaces do not bear the bridge's or the VXLAN interface's
  name. This holds also on a node where these two have to be created first. It prints the success
  response with the address after the last one handed out, and leaves both sysctls set and that address
  in the allocator's file.
\<close>

theorem add_succeeds:
  assumes "granting E" "held w = Some H" "files w sysctl_ip4 \<noteq> None" "files w sysctl_ip6 \<noteq> None"
    "add_ready args" "subnet args = Some node" "cluster_cidr args = Some cluster"
    "util_cidr_parse node = ret (Inr (a, p))" "util_cidr_parse cluster = ret (Inr (b, cp))" "0 \<le> cp" "cp \<le> 32"
    "ip_counter node w = Some n"
    "cni_ifname args = Some i" "i \<notin> own_names" "host_physical_interface args = Some ph" "ph \<notin> own_names"
  shows "\<exists>w'. cmd_add J E args w = ret (0, w') \<and>
    out w' = out w @ [to_plain_string J (add_response J args (ip_text cp (n + 1)))] \<and>
    files w' = (files w)(sysctl_ip4 := Some sysctl_on, sysctl_ip6 := Some sysctl_on,
      IP_INFO_FILE_PATH := Some (ip_text cp (n + 1)))"
  using add_works [OF assms] by blast

lemma demo_rv_nonneg: "0 \<le> demo_rv c k"
  by (cases c) simp_all

lemma demo_own_names: "''eth0'' \<notin> own_names" "''enp1s0'' \<notin> own_names"
  by (simp_all add: own_names_def HOST_BRIDGE_NAME_def HOST_VXLAN_NAME_def)

lemma granting_demo: "granting demo"
  by (simp add: granting_def granted_def demo_def demo_rv_nonneg split: call.split)

text \<open>An outside without the bridge and the VXLAN interface, until one and two links are added.\<close>

definition fresh_node :: "nat env" where
  "fresh_node = demo\<lparr>answer := (\<lambda>c k. case answer demo c k of (r, k') \<Rightarrow>
     (case c of
        CIfNameToIndex s \<Rightarrow> (if s = HOST_BRIDGE_NAME \<and> k < 1000 \<or> s = HOST_VXLAN_NAME \<and> k < 2000 then r\<lparr>rv := 0\<rparr> else r, k')
      | CLinkAdd sk l fl \<Rightarrow> (r, k' + 1000)
      | _ \<Rightarrow> (r, k')))\<rparr>"

lemma granting_fresh_node: "granting fresh_node"
proof -
  have "granted c (fst (answer fresh_node c k))" for c k
    by (cases c) (auto simp: granted_def fresh_node_def demo_def own_names_def)
  moreover have "HOST_BRIDGE_NAME \<noteq> HOST_VXLAN_NAME" by (simp add: HOST_BRIDGE_NAME_def HOST_VXLAN_NAME_def)
  ultimately show ?thesis by (auto simp: granting_def fresh_node_def demo_def)
qed

definition node_world :: "nat world" where
  "node_world = demo_world\<lparr>files := [sysctl_ip4 \<mapsto> ''0'', sysctl_ip6 \<mapsto> ''0'']\<rparr>"

lemma add_succeeds_witness:
  "\<exists>w'. cmd_add demo_json fresh_node (demo_args ''ADD'') node_world = ret (0, w') \<and>
    out w' = [to_plain_string demo_json (add_response demo_json (demo_args ''ADD'') ''10.244.1.2/16'')] \<and>
    files w' IP_INFO_FILE_PATH = Some ''10.244.1.2/16''"
proof -
  have "ip_counter demo_node node_world = Some 0x0AF40101"
    by (simp add: ip_counter_def parsed_host_def demo_cidrs node_world_def IP_INFO_FILE_PATH_def
        sysctl_ip4_def sysctl_ip6_def)
  then show ?thesis
    using add_succeeds [OF granting_fresh_node, of node_world "{#}" "demo_args ''ADD''" demo_node demo_cluster demo_addr 24
        "In_addr (word_of_octets 10 244 0 0)" 16 "0x0AF40101" "''eth0''" "''enp1s0''" demo_json] demo_own_names
    by (auto simp: node_world_def demo_args_fields demo_cidrs demo_texts)
qed

text \<open>
  C18. On a granting outside every DEL with a complete identity returns 0 and prints nothing.
\<close>

theorem del_succeeds:
  assumes "granting E" "cni_netns args = Some n" "cni_ifname args = Some i" "cni_containerid args = Some c"
  shows "\<exists>w'. cmd_del J E args w = ret (0, w') \<and> out w' = out w \<and> files w' = files w"
  using ok_net_detach.returns_0 [OF assms(1), of n i c "set_err zero_err w"] assms(2-4)
  by (auto simp: cmd_del_def seen_def)

lemma del_succeeds_witness:
  "\<exists>w'. cmd_del demo_json demo (demo_args ''DEL'') demo_world = ret (0, w') \<and> out w' = [] \<and> files w' = (\<lambda>p. None)"
  using del_succeeds [OF granting_demo, of "demo_args ''DEL''" "''/var/run/netns/a''" "''eth0''" "''c1''" demo_json demo_world]
  by (simp add: demo_args_fields)

end
