(* ===== verification/Add_Node.thy ===== *)
theory Add_Node
  imports Node Success
begin

text \<open>
  A whole ADD and a whole DEL on the node, and whole runs. The components that allocate the address and
  set the sysctls only use files, so the kernel's requests are those of the attach; with what \<open>Ip\<close> and
  \<open>Node\<close> show, a response of success means that the container is connected with the address in it. Then
  what a run leaves behind, JSON objects included.
\<close>


section \<open>Components that only use files\<close>

fun file_call :: "call \<Rightarrow> bool" where
  "file_call (CSystem s) = True"
| "file_call (CFopen p m) = True"
| "file_call (CFread p n) = True"
| "file_call (CFwrite p s) = True"
| "file_call (CFputs p s) = True"
| "file_call (CFclose p) = True"
| "file_call c = False"

definition by_files :: "'k world \<Rightarrow> 'k world \<Rightarrow> bool" where
  "by_files w w' \<longleftrightarrow> json_refs w' = json_refs w \<and>
     (\<exists>es. trace w' = trace w @ es \<and> (\<forall>e \<in> set es. file_call (fst e)))"

lemma by_files_refl [simp]: "by_files w w"
  by (simp add: by_files_def)

lemma by_files_trans [trans]: "by_files w w' \<Longrightarrow> by_files w' w'' \<Longrightarrow> by_files w w''"
  by (auto simp: by_files_def)

lemma by_files_update [simp]:
  "by_files w (w'\<lparr>files := f\<rparr>) \<longleftrightarrow> by_files w w'" "by_files w (set_err e w') \<longleftrightarrow> by_files w w'"
  "by_files (set_err e w) w' \<longleftrightarrow> by_files w w'"
  by (simp_all add: by_files_def)

lemma by_files_log_call: "by_files w (log_call c r k w) \<longleftrightarrow> file_call c"
  by (auto simp: by_files_def log_call_def)

lemma by_files_ext: "ext E c w = (r, w') \<Longrightarrow> file_call c \<Longrightarrow> by_files w w'"
  using after_ext [of E c w r w'] by (auto simp: by_files_def after_def)

lemma by_files_run: "file_call c \<Longrightarrow> by_files w (run E c w)"
  using by_files_ext [of E c w] by (simp add: run_def prod_eq_iff)

lemma by_files_stdio:
  "fopen_read E path m w = (f, w') \<Longrightarrow> by_files w w'"
  "fopen_write E path m w = (f, n, w') \<Longrightarrow> by_files w w'"
  "fread E k ist w = (bs, ist', w') \<Longrightarrow> by_files w w'"
  "fwrite E s ost w = (l, ost', w') \<Longrightarrow> by_files w w'"
  "fputs E s ost w = (b, n, ost', w') \<Longrightarrow> by_files w w'"
  "fclose_write E ost w = (i, w') \<Longrightarrow> by_files w w'"
  by (auto simp: fopen_read_def fopen_write_def fread_def fwrite_def fputs_def fclose_write_def Let_def by_files_log_call
      split: prod.splits if_splits dest: by_files_ext)

lemma by_files_read_loop: "read_loop E cap st buf w = (b, txt, st', w') \<Longrightarrow> by_files w w'"
proof (induction E cap st buf w rule: read_loop.induct)
  case (1 E cap st buf w)
  show ?case
  proof (cases "length buf < cap")
    case True
    obtain bs st1 w1 where f: "fread E (cap - length buf) st w = (bs, st1, w1)" by (metis prod_cases3)
    note again = 1(1) [OF True f [symmetric] refl] 1(2) [OF True f [symmetric] refl]
    show ?thesis
      using 1(3) True by_files_stdio(3) [OF f] unfolding read_loop.simps [of E cap st buf w]
      by (auto simp: f split: if_splits dest!: again intro: by_files_trans)
  next
    case False
    with 1(3) show ?thesis by (simp add: read_loop.simps [of E cap st buf w])
  qed
qed

lemma by_files_io:
  "io_file_exists E p w = (b, w') \<Longrightarrow> by_files w w'"
  "io_read_file_into E p buf n w = (rc, txt, w') \<Longrightarrow> by_files w w'"
  "io_write_text E p txt' w = (rc, w') \<Longrightarrow> by_files w w'"
  by (auto simp: io_file_exists_def io_read_file_into_def io_write_text_def Let_def by_files_run
      split: option.splits prod.splits if_splits dest!: by_files_stdio by_files_read_loop
      intro: by_files_trans by_files_run)

lemma by_files_sysctl: "write_sysctl E p s w = ret (rc, w') \<Longrightarrow> by_files w w'"
  by (auto simp: write_sysctl_def Let_def split: prod.splits if_splits dest!: by_files_stdio intro: by_files_trans)

lemma by_files_sys_enable: "sys_enable_br_netfilter E w = ret (rc, w') \<Longrightarrow> by_files w w'"
  by (auto simp: sys_enable_br_netfilter_def exec_bind_eq_ret Let_def split: prod.splits if_splits
      dest!: by_files_sysctl by_files_ext intro: by_files_trans)

lemma case_sum_retE:
  assumes "(case x of Inl a \<Rightarrow> f a | Inr b \<Rightarrow> g b) = ret y"
  obtains a where "x = Inl a" "f a = ret y" | b where "x = Inr b" "g b = ret y"
  using assms by (cases x) auto

lemma by_files_last_acquired: "ip_last_acquired E node w = ret (x, w') \<Longrightarrow> by_files w w'"
  by (auto simp: ip_last_acquired_def exec_bind_eq_ret Let_def split: prod.splits if_splits
      dest!: by_files_io intro: by_files_trans)

lemma by_files_next: "ip_next E cluster lst w = ret (x, w') \<Longrightarrow> by_files w w'"
  by (auto simp: ip_next_def exec_bind_eq_ret Let_def split: prod.split_asm if_split_asm
      elim!: case_sum_retE dest!: by_files_io)

lemma by_files_acquire: "ip_container_acquire E node cluster w = ret (x, w') \<Longrightarrow> by_files w w'"
  by (auto simp: ip_container_acquire_def exec_bind_eq_ret split: prod.split_asm
      elim!: case_sum_retE dest!: by_files_last_acquired by_files_next intro: by_files_trans)

lemma kstep_file_call: "file_call c \<Longrightarrow> kstep v (c, r) = v"
  by (cases c) simp_all

lemma view_by_files:
  assumes "by_files w w'"
  shows "view_of (trace w') = view_of (trace w)"
proof -
  obtain es where es: "trace w' = trace w @ es" "\<forall>e \<in> set es. file_call (fst e)"
    using assms by (auto simp: by_files_def)
  have "foldl kstep v es = v" for v
    using es(2) by (induction es) (auto simp: kstep_file_call)
  then show ?thesis by (simp add: es(1) view_of_def)
qed

lemma by_files_node:
  assumes "by_files w w'"
  shows "requests w' = requests w" "refusals w' = refusals w" "netns w' = netns w"
  using view_by_files [OF assms] by (simp_all add: requests_def refusals_def flip: here_world)


section \<open>No deletions\<close>

text \<open>The requests from \<open>w\<close> to \<open>w'\<close> delete no interface.\<close>

definition no_deletions :: "'k world \<Rightarrow> 'k world \<Rightarrow> bool" where
  "no_deletions w w' \<longleftrightarrow> (\<exists>qs. requests w' = requests w @ qs \<and> (\<forall>m d. Del_link m d \<notin> set qs))"

lemma no_deletions_trans: "no_deletions w w' \<Longrightarrow> no_deletions w' w'' \<Longrightarrow> no_deletions w w''"
  by (auto simp: no_deletions_def)

lemma no_deletions_by_files: "by_files w w' \<Longrightarrow> no_deletions w w'"
  by (simp add: by_files_node no_deletions_def)

lemma kstep_reqs:
  assumes "adding_call c"
  shows "\<exists>qs. v_reqs (kstep v (c, r)) = v_reqs v @ qs \<and> (\<forall>m d. Del_link m d \<notin> set qs)"
  using assms by (cases c) (simp_all add: ask_def refusal_def Let_def split: list.split nft_msg.split val.split)

lemma no_deletions_kept: "kept_by_calls adding_call E (no_deletions w0)"
  unfolding kept_by_calls_def
proof (intro conjI allI impI)
  fix c and w :: "'a world"
  assume c: "adding_call c" and w: "no_deletions w0 w"
  obtain r w' where e: "ext E c w = (r, w')" by force
  have "v_reqs (view_of (trace w')) = v_reqs (kstep (view_of (trace w)) (c, r))"
    using after_ext [OF e] by (simp add: after_def view_of_def)
  then have "no_deletions w w'" using kstep_reqs [OF c] by (simp add: no_deletions_def requests_def)
  with no_deletions_trans [OF w] show "no_deletions w0 (snd (ext E c w))" by (simp add: e)
qed (simp add: no_deletions_def requests_def)

lemma no_deletions_attach: "net_attach_container E n i cidr c gw phys w = ret (rc, w') \<Longrightarrow> no_deletions w w'"
  by (rule touches_attach.kept [OF no_deletions_kept]) (simp_all add: no_deletions_def)

lemma no_deletions_simps [simp]:
  "no_deletions w (set_err e w') \<longleftrightarrow> no_deletions w w'" "no_deletions (set_err e w) w' \<longleftrightarrow> no_deletions w w'"
  "no_deletions w (emit_error_response J e w') \<longleftrightarrow> no_deletions w w'"
  "no_deletions w (emit_add_response J args s w') \<longleftrightarrow> no_deletions w w'"
  by (simp_all add: no_deletions_def requests_def)

lemma deref_eq_ret: "deref p = ret x \<longleftrightarrow> p = Some x"
  by (cases p) simp_all


section \<open>ADD and DEL\<close>

lemma ip_next_text:
  assumes "ip_next E cluster lst w = ret ((0, s), w')" "util_cidr_parse cluster = ret (Inr (b, cp))"
  obtains a where "s = cidr_text a cp"
  using assms util_cidr_parse_range [OF assms(2)]
  by (auto simp: ip_next_def Let_def exec_bind_eq_ret util_cidr_serialize_in_range split: prod.split_asm if_split_asm
      elim!: case_sum_retE)

lemma acquire_text:
  assumes "ip_container_acquire E node cluster w = ret ((0, s), w')" "util_cidr_parse cluster = ret (Inr (b, cp))"
  obtains a where "s = cidr_text a cp"
  using assms by (auto simp: ip_container_acquire_def exec_bind_eq_ret split: prod.split_asm
      elim!: case_sum_retE intro: ip_next_text)

lemma add_attaches:
  assumes "cmd_add J E args w = ret (0, w')" "cni_netns args = Some n" "cni_ifname args = Some i"
    "cni_containerid args = Some c" "host_physical_interface args = Some phys"
    "subnet args = Some node" "cluster_cidr args = Some cluster"
    "util_cidr_parse node = ret (Inr (na, np))" "util_cidr_parse cluster = ret (Inr (b, cp))"
  obtains a v v' where "by_files w v" "w' = emit_add_response J args (cidr_text a cp) v'"
    "net_attach_container E n i (cidr_text a cp) c (cidr_text (next_addr na) cp) phys v = ret (0, v')"
proof -
  obtain w1 w2 s v' where r: "sys_enable_br_netfilter E (set_err zero_err w) = ret (0, w1)"
    "ip_container_acquire E node cluster w1 = ret ((0, s), w2)"
    "net_attach_container E n i s c (cidr_text (next_addr na) cp) phys w2 = ret (0, v')"
    "w' = emit_add_response J args s v'"
    using assms(1) by (auto simp: cmd_add_def Let_def assms(2-7) ip_bridge_eq [OF assms(8,9)] exec_bind_eq_ret
        split: prod.split_asm if_split_asm)
  obtain a where "s = cidr_text a cp" using acquire_text [OF r(2) assms(9)] .
  moreover have "by_files w w2"
    using by_files_trans [OF by_files_sys_enable [OF r(1)] by_files_acquire [OF r(2)]] by simp
  ultimately show ?thesis using that r(3,4) by blast
qed

lemma del_detaches:
  assumes "cmd_del J E args w = ret (0, w')" "cni_netns args = Some n" "cni_ifname args = Some i"
    "cni_containerid args = Some c"
  shows "net_detach_container E (Some n) (Some i) (Some c) (set_err zero_err w) = ret (0, w')"
  using assms(1) by (auto simp: cmd_del_def Let_def assms(2-4) exec_bind_eq_ret split: prod.split_asm if_split_asm)

lemma requests_by_trace:
  "trace v = trace w \<Longrightarrow> requests v = requests w" "trace v = trace w \<Longrightarrow> refusals v = refusals w"
  by (simp_all add: requests_def refusals_def)

lemma node_after_by_files:
  "by_files w v \<Longrightarrow> trace w' = trace v' \<Longrightarrow> node_after K w w' N = node_after K v v' N"
  using by_files_node(1) [of w v] requests_by_trace [of w' v'] by (simp add: node_after_def)

text \<open>
  C1. End to end, whatever the outside answers: when an ADD ends with exit code 0, it printed the
  response with some address in the cluster's prefix length, and by the documented meaning of the
  kernel's requests the container is now connected with that very address, its default route by the
  first address of the node's subnet. No refusal was read: neither receiving nor processing an
  acknowledgement of the NAT batch failed. The rules of the NAT chain are those from before, or those and
  the rule for that address: the code does not wait for the verdict on the rule itself. (The container's
  interface and the host's names must not have been in use.)
\<close>

theorem add_connects:
  fixes n i c
  defines "host \<equiv> ''sknf'' @ hex8 (if_hash n i c)" and "tmp \<equiv> ''tmp'' @ hex8 (if_hash n i c)"
  assumes "rtnl_documented K" "out_params_filled E" "allocates E live" "held w = Some H"
    "add_ready args" "cni_netns args = Some n" "cni_ifname args = Some i"
    "cni_containerid args = Some c" "host_physical_interface args = Some phys"
    "subnet args = Some node" "cluster_cidr args = Some cluster"
    "util_cidr_parse node = ret (Inr (na, np))" "util_cidr_parse cluster = ret (Inr (b, cp))" "nft_mask cp = ret mk"
    "cmd_add J E args w = ret (0, w')"
    "n \<noteq> ''/proc/self/ns/net''" "netns w \<noteq> Ns_at n"
    "ifaces N (netns w, host) = None" "ifaces N (netns w, tmp) = None" "ifaces N (Ns_at n, i) = None"
  shows "\<exists>a. out w' = out w @ [to_plain_string J (add_response J args (cidr_text a cp))] \<and>
    connected (netns w) n i host (cidr_text (next_addr na) cp) a cp (node_after K w w' N) \<and>
    refusals w' = refusals w \<and> tried (masq_rule phys a mk) (rules N) (rules (node_after K w w' N))"
proof -
  obtain a v v' where v: "by_files w v" "w' = emit_add_response J args (cidr_text a cp) v'"
    "net_attach_container E n i (cidr_text a cp) c (cidr_text (next_addr na) cp) phys v = ret (0, v')"
    using add_attaches [OF assms(17,8-15)] .
  have "answered J args w H (0, w')"
    using wp_retD [OF cmd_add_answers [OF assms(4,6,7,12,13)] assms(17)] .
  then have "out w' = out w @ [to_plain_string J (add_response J args (cidr_text a cp))]"
    using v(2) by (auto simp: answered_def)
  moreover have "util_cidr_parse (cidr_text a cp) = ret (Inr (a, cp))"
    using util_cidr_parse_range [OF assms(15)] by simp
  moreover have "node_after K w w' N = node_after K v v' N"
    by (rule node_after_by_files [OF v(1)]) (simp add: v(2))
  moreover have "refusals w' = refusals v'" by (rule requests_by_trace) (simp add: v(2))
  ultimately show ?thesis
    using attach_connects [OF assms(3-5) v(3) assms(18) _ assms(16), of a N] assms(19-22) by_files_node(2,3) [OF v(1)]
    unfolding host_def tmp_def by auto
qed

text \<open>
  C6. A DEL takes back what an ADD of the same identity did, but for the NAT rule: on a node without the
  identity's interfaces, without routes over them, and without a default route in the container's
  namespace (ADD replaces one, and DEL does not restore it), after an ADD and a later DEL that both end
  with exit code 0, every interface but the bridge and the VXLAN interface and every route is as before
  the ADD. DEL leaves the rules as the ADD left them: those from before, with or without one more.
\<close>

theorem del_undoes_add:
  fixes n i c
  defines "host \<equiv> ''sknf'' @ hex8 (if_hash n i c)" and "tmp \<equiv> ''tmp'' @ hex8 (if_hash n i c)"
  assumes "rtnl_documented K" "out_params_filled E" "allocates E live" "netns w = m" "netns v = m"
    "cni_netns args = Some n" "cni_ifname args = Some i"
    "cni_containerid args = Some c" "host_physical_interface args = Some phys"
    "subnet args = Some node" "cluster_cidr args = Some cluster"
    "util_cidr_parse node = ret (Inr (na, np))" "util_cidr_parse cluster = ret (Inr (b, cp))" "nft_mask cp = ret mk"
    "cni_netns dargs = Some n" "cni_ifname dargs = Some i" "cni_containerid dargs = Some c"
    "cmd_add J E args w = ret (0, w')" "cmd_del J E dargs v = ret (0, v')"
    "n \<noteq> ''/proc/self/ns/net''" "m \<noteq> Ns_at n"
    "ifaces N (m, host) = None" "ifaces N (m, tmp) = None" "ifaces N (Ns_at n, i) = None"
    "\<And>k. pair_at N k \<noteq> Some host"
    "\<And>k g d. routes N k = Some (g, d) \<Longrightarrow> (fst k, d) \<notin> {(m, host), (m, tmp), (Ns_at n, i)}"
    "routes N (Ns_at n, ''0.0.0.0/0'') = None"
  shows "\<exists>a. (\<forall>k. k \<notin> {(m, HOST_BRIDGE_NAME), (m, HOST_VXLAN_NAME)} \<longrightarrow>
      ifaces (node_after K v v' (node_after K w w' N)) k = ifaces N k) \<and>
    routes (node_after K v v' (node_after K w w' N)) = routes N \<and>
    rules (node_after K v v' (node_after K w w' N)) = rules (node_after K w w' N) \<and>
    tried (masq_rule phys a mk) (rules N) (rules (node_after K w w' N))"
proof -
  obtain a u u' where u: "by_files w u" "w' = emit_add_response J args (cidr_text a cp) u'"
    "net_attach_container E n i (cidr_text a cp) c (cidr_text (next_addr na) cp) phys u = ret (0, u')"
    using add_attaches [OF assms(20,8-15)] .
  have a: "util_cidr_parse (cidr_text a cp) = ret (Inr (a, cp))"
    using util_cidr_parse_range [OF assms(15)] by simp
  have m: "netns u = m" "netns (set_err zero_err v) = m"
    using by_files_node(3) [OF u(1)] assms(6,7) by simp_all
  have "node_after K w w' N = node_after K u u' N"
    by (rule node_after_by_files [OF u(1)]) (simp add: u(2))
  moreover have "node_after K v v' N' = node_after K (set_err zero_err v) v' N'" for N'
    by (rule node_after_by_files) simp_all
  moreover have "(\<forall>k. k \<notin> {(m, HOST_BRIDGE_NAME), (m, HOST_VXLAN_NAME)} \<longrightarrow>
      ifaces (node_after K (set_err zero_err v) v' (node_after K u u' N)) k = ifaces N k) \<and>
    routes (node_after K (set_err zero_err v) v' (node_after K u u' N)) = routes N \<and>
    rules (node_after K (set_err zero_err v) v' (node_after K u u' N)) = rules (node_after K u u' N) \<and>
    tried (masq_rule phys a mk) (rules N) (rules (node_after K u u' N))"
    by (rule detach_undoes_attach [OF assms(3-5) u(3) assms(22) a assms(16) m(1) assms(23-26) [unfolded host_def tmp_def]
        del_detaches [OF assms(21,17-19)] m(2) assms(27) [unfolded host_def]])
      (use assms(28,29) in \<open>unfold host_def tmp_def, blast+\<close>)
  ultimately show ?thesis by metis
qed

text \<open>
  C26. An ADD takes nothing back, whether it succeeds or fails: it asks for no deletion of an interface,
  and once stdio works, the sysctls are there, the CIDRs parse and the allocator's state is valid, the
  next address is used up, whatever the netlink calls answer.
\<close>

theorem add_never_deletes:
  assumes "stdio_works E" "out_params_filled E" "held w = Some H" "files w sysctl_ip4 \<noteq> None" "files w sysctl_ip6 \<noteq> None"
    "add_ready args" "subnet args = Some node" "cluster_cidr args = Some cluster"
    "util_cidr_parse node = ret (Inr (a, p))" "util_cidr_parse cluster = ret (Inr (b, cp))"
    "ip_counter node w = Some n" "cmd_add J E args w = ret (rc, w')"
  shows "no_deletions w w' \<and> ip_counter node w' = Some (n + 1)"
proof
  note steps = by_files_sys_enable [THEN no_deletions_by_files] by_files_acquire [THEN no_deletions_by_files]
    no_deletions_attach
  show "no_deletions w w'"
    using assms(12) by (auto simp: cmd_add_def Let_def exec_bind_eq_ret deref_eq_ret split: prod.split_asm if_split_asm
        elim!: case_sum_retE dest!: steps) (metis no_deletions_trans no_deletions_simps(3))+
  show "ip_counter node w' = Some (n + 1)" by (rule add_counts [OF assms])
qed


section \<open>What a run leaves behind\<close>

text \<open>The commands own no JSON object of their own in the end, but an ADD may give away one of the input.\<close>

lemma attach_json: "net_attach_container E n i cidr c gw phys w = ret (rc, w') \<Longrightarrow> json_refs w' = json_refs w"
  by (rule touches_attach.kept [where I = "\<lambda>v. json_refs v = json_refs w"])
    (auto simp: kept_by_calls_def ext_def split: prod.splits)

lemma detach_json: "net_detach_container E n i c w = ret (rc, w') \<Longrightarrow> json_refs w' = json_refs w"
  by (rule touches_detach.kept [where I = "\<lambda>v. json_refs v = json_refs w"])
    (auto simp: kept_by_calls_def ext_def split: prod.splits)

lemma by_files_json: "by_files w w' \<Longrightarrow> json_refs w' = json_refs w"
  by (simp add: by_files_def)

lemma cmd_add_json:
  assumes "cmd_add J E args w = ret (rc, w')"
  shows "json_refs w' = (if rc = 0 \<and> prev_result args \<noteq> None then json_refs (json_given Json_prev_result w) else json_refs w)"
  using assms by (auto simp: cmd_add_def Let_def exec_bind_eq_ret deref_eq_ret split: prod.split_asm if_split_asm
      elim!: case_sum_retE dest!: by_files_sys_enable [THEN by_files_json] by_files_acquire [THEN by_files_json] attach_json)

lemma cmd_del_json: "cmd_del J E args w = ret (rc, w') \<Longrightarrow> json_refs w' = json_refs w"
  by (auto simp: cmd_del_def Let_def exec_bind_eq_ret split: prod.split_asm if_split_asm dest!: detach_json)

text \<open>The runs that reach a command.\<close>

definition dispatched :: "'j Args \<Rightarrow> bool" where
  "dispatched args \<longleftrightarrow> (\<exists>cmd v. cni_command args = Some cmd \<and> cni_version args = Some v \<and> cstr v = CNI_VERSION \<and>
     cstr cmd \<in> {CNI_CMD_ADD, CNI_CMD_DEL, CNI_CMD_STATUS, CNI_CMD_VERSION, CNI_CMD_CHECK, CNI_CMD_GC} \<and>
     (cstr cmd = CNI_CMD_ADD \<longrightarrow> add_ready args))"

definition adds :: "'j Args \<Rightarrow> bool" where
  "adds args \<longleftrightarrow> (\<exists>cmd. cni_command args = Some cmd \<and> cstr cmd = CNI_CMD_ADD)"

text \<open>
  The references to JSON objects at the end: the input is only released on the paths without a
  command, and a successful ADD has given away a reference to \<open>prevResult\<close> that it does not own.
\<close>

definition json_left :: "'j Args \<Rightarrow> int \<Rightarrow> json_ref multiset option" where
  "json_left args rc =
     (if \<not> dispatched args then Some {#}
      else if adds args \<and> rc = 0 \<and> prev_result args \<noteq> None then None
      else if json_input args = None then Some {#} else Some {#Json_input#})"

text \<open>What a run may leave undefined, and how it ends otherwise.\<close>

definition main_may :: "'j Args \<Rightarrow> ub option \<Rightarrow> bool" where
  "main_may args u \<longleftrightarrow>
     u = Some NullDeref \<and> cni_command args \<noteq> None \<and> cni_version args = None \<or>
     (\<exists>cmd. cni_command args = Some cmd \<and> cstr cmd = CNI_CMD_DEL) \<and>
       null_deref_if (cni_netns args = None \<or> cni_ifname args = None \<or> cni_containerid args = None) u \<or>
     (\<exists>cmd node cluster. cni_command args = Some cmd \<and> cstr cmd = CNI_CMD_ADD \<and> add_ready args \<and>
       subnet args = Some node \<and> cluster_cidr args = Some cluster \<and> add_may node cluster u)"

definition main_ends :: "'j Args \<Rightarrow> 'k world \<Rightarrow> handle multiset \<Rightarrow> int \<times> 'k world \<Rightarrow> bool" where
  "main_ends args w H res \<longleftrightarrow> held (snd res) = Some H \<and> fst res \<in> {0, 1} \<and>
     (if dispatched args then out (snd res) = out w \<or> (\<exists>s. out (snd res) = out w @ [s])
      else fst res = 1 \<and> out (snd res) = out w) \<and>
     json_refs (snd res) = json_left args (fst res)"

lemma wp_and_ret: "wp U m Q \<Longrightarrow> (\<And>x. m = ret x \<Longrightarrow> P x) \<Longrightarrow> wp U m (\<lambda>x. Q x \<and> P x)"
  by (auto simp: wp_def split: option.splits sum.splits)

lemma cmd_names_unequal:
  "CNI_CMD_DEL \<notin> {CNI_CMD_ADD, CNI_CMD_STATUS, CNI_CMD_VERSION, CNI_CMD_CHECK, CNI_CMD_GC}"
  "CNI_CMD_ADD \<notin> {CNI_CMD_STATUS, CNI_CMD_VERSION, CNI_CMD_CHECK, CNI_CMD_GC}"
  by (simp_all add: CNI_CMD_ADD_def CNI_CMD_DEL_def CNI_CMD_STATUS_def CNI_CMD_CHECK_def CNI_CMD_GC_def
      CNI_CMD_VERSION_def)

lemma main_dispatched:
  assumes "out_params_filled E" "held w = Some H" "args = args_fill J environ input" "dispatched args"
  shows "wp (main_may args) (main J E environ input w) (main_ends args w H)"
proof -
  obtain cmd v where d: "cni_command args = Some cmd" "cni_version args = Some v" "cstr v = CNI_VERSION"
    "cstr cmd \<in> {CNI_CMD_ADD, CNI_CMD_DEL, CNI_CMD_STATUS, CNI_CMD_VERSION, CNI_CMD_CHECK, CNI_CMD_GC}"
    "cstr cmd = CNI_CMD_ADD \<longrightarrow> add_ready args"
    using assms(4) by (auto simp: dispatched_def)
  define u where "u = input_owned args (w\<lparr>json_refs := Some {#}\<rparr>)"
  have e: "environ ''CNI_COMMAND'' = Some cmd" using d(1) by (simp add: assms(3) args_fill_def Let_def)
  have u: "held u = Some H" "out u = out w"
    "json_refs u = (if json_input args = None then Some {#} else Some {#Json_input#})"
    using assms(2) by (simp_all add: u_def)
  have no_prev: "json_refs (json_given Json_prev_result u) = None" using u(3) by simp
  have add: "wp (main_may args) (cmd_add J E args u) (main_ends args w H)" if "cstr cmd = CNI_CMD_ADD"
  proof -
    have r: "add_ready args" using d(5) that by simp
    then obtain node cluster where f: "subnet args = Some node" "cluster_cidr args = Some cluster"
      by (auto simp: add_ready_def)
    have "adds args" using d(1) that by (simp add: adds_def)
    then have j: "json_refs w' = json_left args rc" if "cmd_add J E args u = ret (rc, w')" for rc w'
      using cmd_add_json [OF that] no_prev u(3) assms(4) by (auto simp: json_left_def)
    show ?thesis
      by (rule wp_mono [OF wp_and_ret [OF wp_mono_ub [OF cmd_add_answers [OF assms(1) u(1) r f]],
              where P = "\<lambda>(rc, w'). json_refs w' = json_left args rc"]])
        (use d(1) that r f j u(2) assms(4) in \<open>auto simp: main_may_def main_ends_def answered_def\<close>)
  qed
  have "\<not> adds args" if "cstr cmd \<noteq> CNI_CMD_ADD" using d(1) that by (simp add: adds_def)
  then have left: "json_left args rc = json_refs u" if "cstr cmd \<noteq> CNI_CMD_ADD" for rc
    using that u(3) assms(4) by (simp add: json_left_def)
  have del: "wp (main_may args) (cmd_del J E args u) (main_ends args w H)" if "cstr cmd = CNI_CMD_DEL"
  proof -
    have l: "json_left args rc = json_refs u" for rc using left cmd_names_unequal(1) that by simp
    show ?thesis
      by (rule wp_mono [OF wp_and_ret [OF wp_mono_ub [OF cmd_del_clean [OF assms(1) u(1)]],
              where P = "\<lambda>(rc, w'). json_refs w' = json_left args rc"]])
        (use d(1) that u(2) l assms(4) in \<open>auto simp: main_may_def main_ends_def dest: cmd_del_json\<close>)
  qed
  have ends: "main_ends args w H (0, u)" "main_ends args w H (0, print_line s u)" if "cstr cmd \<noteq> CNI_CMD_ADD" for s
    using u left [OF that] assms(4) by (simp_all add: main_ends_def)
  have run: "main J E environ input w =
      (if cstr cmd = CNI_CMD_ADD then cmd_add J E args u
       else if cstr cmd = CNI_CMD_DEL then cmd_del J E args u
       else if cstr cmd = CNI_CMD_VERSION then ret (0, print_line (to_plain_string J (version_response J)) u)
       else if cstr cmd \<in> {CNI_CMD_STATUS, CNI_CMD_CHECK, CNI_CMD_GC} then ret (0, u)
       else ret (1, w\<lparr>json_refs := Some {#}\<rparr>))"
    by (rule main_accepted [OF e assms(3) d(2,3,5) u_def])
  show ?thesis
    unfolding run using add del d(4) ends by (auto simp: wp_ret)
qed

text \<open>
  C5. Every run of the plugin, for any environment, any input and whatever the outside answers (as long
  as a function that succeeds sets its out parameter): every library object, descriptor and stream
  acquired in the run is given back, the exit code is 0 or 1, and at most one line is printed; a run that
  is rejected or asks for an unknown command prints nothing and exits with 1. JSON objects are accounted
  for exactly: only a run that is rejected or asks for an unknown command gives its input back, after each
  of the six commands the plugin still owns it, and a successful ADD with a \<open>prevResult\<close> has given away a
  reference it does not own. Undefined behaviour is left only where \<open>main_may\<close> says so: a command without
  a version, a DEL without the whole identity, and what \<open>add_may\<close> lists for an ADD that was accepted.
\<close>

theorem main_contract:
  assumes "out_params_filled E" "held w = Some H" "args = args_fill J environ input"
  shows "wp (main_may args) (main J E environ input w) (main_ends args w H)"
proof -
  have c: "cni_command args = environ ''CNI_COMMAND''" by (simp add: assms(3) args_fill_def Let_def)
  have left: "main_ends args w H (1, w\<lparr>json_refs := Some {#}\<rparr>)" if "\<not> dispatched args"
    using assms(2) that by (simp add: main_ends_def json_left_def)
  consider "cni_command args = None" | cmd where "cni_command args = Some cmd" "cni_version args = None"
    | cmd v where "cni_command args = Some cmd" "cni_version args = Some v"
    by (cases "cni_command args"; cases "cni_version args") auto
  then show ?thesis
  proof cases
    case 1
    then have "\<not> dispatched args" by (simp add: dispatched_def)
    then show ?thesis using 1 left by (auto simp: main_def args_parse_def Let_def wp_ret simp flip: assms(3))
  next
    case 2
    then show ?thesis by (auto simp: main_def args_parse_def Let_def main_may_def simp flip: assms(3) intro!: wp_stuck)
  next
    case (3 cmd v)
    note parse = args_parse_Some [OF assms(3) 3]
    show ?thesis
    proof (cases "cstr v = CNI_VERSION \<and> (cstr cmd = CNI_CMD_ADD \<longrightarrow> add_ready args)")
      case False
      then have "args_parse J environ input (w\<lparr>json_refs := Some {#}\<rparr>) =
          ret (1, args\<lparr>json_input := None\<rparr>, w\<lparr>json_refs := Some {#}\<rparr>)"
        by (simp only: parse if_False)
      moreover have "\<not> dispatched args" using False 3 by (auto simp: dispatched_def)
      ultimately show ?thesis using left by (simp add: main_def wp_ret)
    next
      case True
      show ?thesis
      proof (cases "dispatched args")
        case True
        from main_dispatched [OF assms this] show ?thesis .
      next
        case other: False
        then have "cstr cmd \<notin> {CNI_CMD_ADD, CNI_CMD_DEL, CNI_CMD_STATUS, CNI_CMD_VERSION, CNI_CMD_CHECK, CNI_CMD_GC}"
          using True 3 by (simp add: dispatched_def)
        then have "main J E environ input w = ret (1, w\<lparr>json_refs := Some {#}\<rparr>)"
          using main_accepted [OF _ assms(3) 3(2) _ _ refl, of cmd E w] True 3(1) c by simp
        then show ?thesis using left [OF other] by (simp add: wp_ret)
      qed
    qed
  qed
qed

lemma main_contract_witness:
  "wp (main_may (chained_args ''ADD'')) (main demo_json demo (demo_environ ''ADD'') ''chained'' demo_world)
     (main_ends (chained_args ''ADD'') demo_world {#}) \<and>
   json_left (chained_args ''ADD'') 0 = None \<and> json_left (chained_args ''ADD'') 1 = Some {#Json_input#}"
proof -
  have "dispatched (chained_args ''ADD'')" "adds (chained_args ''ADD'')"
    by (simp_all add: dispatched_def adds_def chained_args_fields CNI_VERSION_def CNI_CMD_ADD_def cstr_def)
  moreover have "wp (main_may (chained_args ''ADD'')) (main demo_json demo (demo_environ ''ADD'') ''chained'' demo_world)
     (main_ends (chained_args ''ADD'') demo_world {#})"
    by (rule main_contract) (simp_all add: chained_args_def)
  ultimately show ?thesis by (simp add: json_left_def chained_args_fields)
qed

end
