(* ===== verification/Runs.thy ===== *)
theory Runs
  imports Add_Node "HOL-Library.Sublist"
begin

text \<open>
  The life of a node: runs of the plugin one after the other, ADDs and DELs for any containers. Every run
  is a process of its own; what they share is the node and its files.
\<close>


section \<open>Runs\<close>

text \<open>A run is given by its environment and its input.\<close>

type_synonym request_for_run = "(string \<Rightarrow> string option) \<times> string"

definition run_args :: "'j json_lib \<Rightarrow> request_for_run \<Rightarrow> 'j Args" where
  "run_args J q = args_fill J (fst q) (snd q)"

primrec runs :: "'j json_lib \<Rightarrow> 'k env \<Rightarrow> request_for_run list \<Rightarrow> 'k world \<Rightarrow> (int list \<times> 'k world) exec" where
  "runs J E [] w = ret ([], w)"
| "runs J E (q # qs) w =
     exec_bind (main J E (fst q) (snd q) w) (\<lambda>(rc, w).
       exec_bind (runs J E qs w) (\<lambda>(rcs, w). ret (rc # rcs, w)))"

text \<open>An ADD on the node with the given CIDRs, and a DEL of some container.\<close>

definition asks_add :: "string \<Rightarrow> string \<Rightarrow> 'j Args \<Rightarrow> bool" where
  "asks_add node cluster args \<longleftrightarrow>
     dispatched args \<and> adds args \<and> subnet args = Some node \<and> cluster_cidr args = Some cluster"

definition asks_del :: "'j Args \<Rightarrow> bool" where
  "asks_del args \<longleftrightarrow> dispatched args \<and> (\<exists>cmd. cni_command args = Some cmd \<and> cstr cmd = CNI_CMD_DEL) \<and>
     cni_netns args \<noteq> None \<and> cni_ifname args \<noteq> None \<and> cni_containerid args \<noteq> None"

text \<open>Neither interface of an ADD bears the name of one of the plugin's own.\<close>

definition names_free :: "'j Args \<Rightarrow> bool" where
  "names_free args \<longleftrightarrow> cni_ifname args \<notin> Some ` own_names \<and> host_physical_interface args \<notin> Some ` own_names"

lemma asks_add_not_del: "asks_add node cluster args \<Longrightarrow> \<not> asks_del args"
  by (auto simp: asks_add_def asks_del_def adds_def)

definition started :: "'j Args \<Rightarrow> 'k world \<Rightarrow> 'k world" where
  "started args w = input_owned args (w\<lparr>json_refs := Some {#}\<rparr>)"

lemma started_simps [simp]:
  "held (started args w) = held w" "files (started args w) = files w" "out (started args w) = out w"
  "ip_counter node (started args w) = ip_counter node w"
  by (simp_all add: started_def ip_counter_def)

lemma main_add:
  assumes "asks_add node cluster (run_args J q)"
  shows "main J E (fst q) (snd q) w = cmd_add J E (run_args J q) (started (run_args J q) w)" "add_ready (run_args J q)"
proof -
  obtain cmd v where d: "cni_command (run_args J q) = Some cmd" "cni_version (run_args J q) = Some v"
    "cstr v = CNI_VERSION" "cstr cmd = CNI_CMD_ADD" "add_ready (run_args J q)"
    using assms by (auto simp: asks_add_def dispatched_def adds_def)
  then have "fst q ''CNI_COMMAND'' = Some cmd" by (simp add: run_args_def args_fill_def Let_def)
  from main_accepted [OF this run_args_def d(2,3) _ started_def, of E] d(4,5)
  show "main J E (fst q) (snd q) w = cmd_add J E (run_args J q) (started (run_args J q) w)" by simp
  show "add_ready (run_args J q)" by (fact d(5))
qed

lemma main_del:
  assumes "asks_del (run_args J q)"
  shows "main J E (fst q) (snd q) w = cmd_del J E (run_args J q) (started (run_args J q) w)"
proof -
  obtain cmd v where d: "cni_command (run_args J q) = Some cmd" "cni_version (run_args J q) = Some v"
    "cstr v = CNI_VERSION" "cstr cmd = CNI_CMD_DEL"
    using assms by (auto simp: asks_del_def dispatched_def)
  then have "fst q ''CNI_COMMAND'' = Some cmd" by (simp add: run_args_def args_fill_def Let_def)
  from main_accepted [OF this run_args_def d(2,3) _ started_def, of E] d(4)
  show ?thesis using cmd_names(1) by simp
qed


section \<open>What the runs print\<close>

definition add_line :: "'j json_lib \<Rightarrow> int \<Rightarrow> 'j Args \<Rightarrow> 32 word \<Rightarrow> string" where
  "add_line J cp args m = to_plain_string J (add_response J args (ip_text cp m))"

definition error_line :: "'j json_lib \<Rightarrow> Err \<Rightarrow> string" where
  "error_line J e = to_plain_string J (error_response J e)"

text \<open>The lines of runs that all succeed, after \<open>n\<close> was handed out.\<close>

fun responses :: "'j json_lib \<Rightarrow> int \<Rightarrow> 32 word \<Rightarrow> 'j Args list \<Rightarrow> string list" where
  "responses J cp n [] = []"
| "responses J cp n (args # rest) =
     (if asks_del args then responses J cp n rest
      else add_line J cp args (n + 1) # responses J cp (n + 1) rest)"

text \<open>
  The lines and the exit codes of any runs, with the addresses of the successful ADDs. An ADD that fails
  uses its address up.
\<close>

inductive history :: "'j json_lib \<Rightarrow> string \<Rightarrow> string \<Rightarrow> int \<Rightarrow> 32 word \<Rightarrow> 'j Args list \<Rightarrow> int list \<Rightarrow>
    string list \<Rightarrow> 32 word list \<Rightarrow> bool" for J node cluster cp where
  over: "history J node cluster cp n [] [] [] []"
| added: "asks_add node cluster args \<Longrightarrow> history J node cluster cp (n + 1) rest rcs ls gs \<Longrightarrow>
    history J node cluster cp n (args # rest) (0 # rcs) (add_line J cp args (n + 1) # ls) ((n + 1) # gs)"
| not_added: "asks_add node cluster args \<Longrightarrow> reported e \<Longrightarrow> history J node cluster cp (n + 1) rest rcs ls gs \<Longrightarrow>
    history J node cluster cp n (args # rest) (1 # rcs) (error_line J e # ls) gs"
| removed: "asks_del args \<Longrightarrow> history J node cluster cp n rest rcs ls gs \<Longrightarrow>
    history J node cluster cp n (args # rest) (0 # rcs) ls gs"
| not_removed: "asks_del args \<Longrightarrow> reported e \<Longrightarrow> history J node cluster cp n rest rcs ls gs \<Longrightarrow>
    history J node cluster cp n (args # rest) (1 # rcs) (error_line J e # ls) gs"

lemma subseq_upto_word_Suc: "subseq gs (upto_word n k) \<Longrightarrow> subseq gs (upto_word n (Suc k))"
  by (metis upto_word_snoc list_emb_append2 subseq_rev_drop_many)

lemma history_subseq: "history J node cluster cp n as rcs ls gs \<Longrightarrow> subseq gs (upto_word n (length as))"
proof (induction rule: history.induct)
  case (removed args n rest rcs ls gs)
  then show ?case using subseq_upto_word_Suc by simp
next
  case (not_removed args e n rest rcs ls gs)
  then show ?case using subseq_upto_word_Suc by simp
next
  case (not_added args e n rest rcs ls gs)
  then show ?case by (simp add: upto_word_simps list_emb_Cons)
qed (simp_all add: upto_word_simps)

lemma history_distinct:
  assumes "history J node cluster cp n as rcs ls gs" "length as < 2 ^ 32"
  shows "distinct (n # gs)"
proof -
  have "subseq (n # gs) (n # upto_word n (length as))" using history_subseq [OF assms(1)] by simp
  moreover have "distinct (n # upto_word n (length as))" using distinct_upto_word [OF assms(2)] by simp
  ultimately show ?thesis by (metis distinct_nthsI subseq_conv_nths)
qed

section \<open>Sequences of runs\<close>

lemma fails_reported:
  assumes "out_params_filled E" "held w = Some H" "add_ready args" "subnet args = Some node"
    "cluster_cidr args = Some cluster" "cmd_add J E args w = ret (rc, w')" "rc \<noteq> 0"
  shows "rc = 1 \<and> reported (err w') \<and> out w' = out w @ [error_line J (err w')]"
  using wp_retD [OF cmd_add_answers [OF assms(1-5)] assms(6)] assms(7) by (auto simp: answered_def error_line_def)

lemma any_runs:
  assumes "stdio_works E" "out_params_filled E" "util_cidr_parse node = ret (Inr (a, p))"
    "util_cidr_parse cluster = ret (Inr (b, cp))"
    "held w = Some H" "files w sysctl_ip4 \<noteq> None" "files w sysctl_ip6 \<noteq> None" "ip_counter node w = Some n"
    "\<forall>q \<in> set qs. asks_add node cluster (run_args J q) \<or> asks_del (run_args J q)"
    "runs J E qs w = ret (rcs, w')"
  shows "\<exists>ls gs. history J node cluster cp n (map (run_args J) qs) rcs ls gs \<and> out w' = out w @ ls"
  using assms(5-10)
proof (induction qs arbitrary: w n rcs)
  case Nil
  then show ?case using history.over by force
next
  case (Cons q qs)
  obtain rc w1 rcs1 where r: "main J E (fst q) (snd q) w = ret (rc, w1)" "runs J E qs w1 = ret (rcs1, w')" "rcs = rc # rcs1"
    using Cons.prems(6) by (auto simp: exec_bind_eq_ret)
  define v where "v = started (run_args J q) w"
  have v: "held v = Some H" "files v = files w" "out v = out w" "ip_counter node v = Some n"
    using Cons.prems(1,4) by (simp_all add: v_def)
  have rest: "\<forall>q \<in> set qs. asks_add node cluster (run_args J q) \<or> asks_del (run_args J q)" using Cons.prems(5) by simp
  show ?case
  proof (cases "asks_del (run_args J q)")
    case True
    then have m: "cmd_del J E (run_args J q) v = ret (rc, w1)" using r(1) by (simp add: main_del v_def)
    note c = del_counts [OF assms(2) v(1,4) m]
    have o: "rc = 0 \<and> out w1 = out w \<or> rc = 1 \<and> reported (err w1) \<and> out w1 = out w @ [error_line J (err w1)]"
      using wp_retD [OF cmd_del_clean [OF assms(2) v(1)] m] v(3) by (simp add: error_line_def)
    obtain ls gs where "history J node cluster cp n (map (run_args J) qs) rcs1 ls gs" "out w' = out w1 @ ls"
      using Cons.IH [OF c(2) _ _ c(1) rest r(2)] Cons.prems(2,3) c(3) v(2) by auto
    then show ?thesis using o history.removed [OF True] history.not_removed [OF True] by (fastforce simp: r(3))
  next
    case False
    then have q: "asks_add node cluster (run_args J q)" using Cons.prems(5) by simp
    then have f: "subnet (run_args J q) = Some node" "cluster_cidr (run_args J q) = Some cluster" by (simp_all add: asks_add_def)
    have m: "cmd_add J E (run_args J q) v = ret (rc, w1)" using r(1) by (simp add: main_add(1) [OF q] v_def)
    note c = add_counts [OF assms(1,2) v(1) _ _ main_add(2) [OF q] f assms(3,4) v(4) m]
    have s: "files v sysctl_ip4 \<noteq> None" "files v sysctl_ip6 \<noteq> None" using Cons.prems(2,3) v(2) by simp_all
    obtain ls gs where h: "history J node cluster cp (n + 1) (map (run_args J) qs) rcs1 ls gs" "out w' = out w1 @ ls"
      using Cons.IH [OF c(2) c(3) c(4) c(1) rest r(2)] s by auto
    show ?thesis
    proof (cases "rc = 0")
      case True
      have "out w1 = out w @ [add_line J cp (run_args J q) (n + 1)]" using c(5) [OF s True] v(3) by (simp add: add_line_def)
      with h True q show ?thesis by (auto simp: r(3) intro: history.intros)
    next
      case False
      with fails_reported [OF assms(2) v(1) main_add(2) [OF q] f m] h q v(3) show ?thesis
        by (auto simp: r(3) intro: history.intros)
    qed
  qed
qed

lemma granted_runs:
  assumes "granting E" "util_cidr_parse node = ret (Inr (a, p))" "util_cidr_parse cluster = ret (Inr (b, cp))" "0 \<le> cp" "cp \<le> 32"
    "held w = Some H" "files w sysctl_ip4 \<noteq> None" "files w sysctl_ip6 \<noteq> None" "ip_counter node w = Some n"
    "\<forall>q \<in> set qs. asks_add node cluster (run_args J q) \<and> names_free (run_args J q) \<or> asks_del (run_args J q)"
  shows "\<exists>w'. runs J E qs w = ret (replicate (length qs) 0, w') \<and> out w' = out w @ responses J cp n (map (run_args J) qs)"
  using assms(6-10)
proof (induction qs arbitrary: w n)
  case (Cons q qs)
  define v where "v = started (run_args J q) w"
  have v: "held v = Some H" "files v sysctl_ip4 \<noteq> None" "files v sysctl_ip6 \<noteq> None" "ip_counter node v = Some n" "out v = out w"
    using Cons.prems(1-4) by (simp_all add: v_def)
  have rest: "\<forall>q \<in> set qs. asks_add node cluster (run_args J q) \<and> names_free (run_args J q) \<or> asks_del (run_args J q)"
    using Cons.prems(5) by simp
  show ?case
  proof (cases "asks_del (run_args J q)")
    case True
    then obtain ns i c where i: "cni_netns (run_args J q) = Some ns" "cni_ifname (run_args J q) = Some i" "cni_containerid (run_args J q) = Some c"
      by (auto simp: asks_del_def)
    obtain w1 where w1: "cmd_del J E (run_args J q) v = ret (0, w1)" "seen w1 = seen (set_err zero_err v)"
      using ok_net_detach.returns_0 [OF assms(1), of ns i c "set_err zero_err v"] i by (auto simp: cmd_del_def)
    note c = del_counts [OF granting_filled [OF assms(1)] v(1,4) w1(1)]
    obtain w' where "runs J E qs w1 = ret (replicate (length qs) 0, w')" "out w' = out w1 @ responses J cp n (map (run_args J) qs)"
      using Cons.IH [OF c(2) _ _ c(1) rest] v(2,3) c(3) by auto
    moreover have "main J E (fst q) (snd q) w = ret (0, w1)" using w1(1) True by (simp add: main_del v_def)
    ultimately show ?thesis using w1(2) True v(5) by (simp add: seen_def)
  next
    case False
    then have q: "asks_add node cluster (run_args J q)" "names_free (run_args J q)" using Cons.prems(5) by simp_all
    then have f: "subnet (run_args J q) = Some node" "cluster_cidr (run_args J q) = Some cluster" by (simp_all add: asks_add_def)
    obtain i ph where n: "cni_ifname (run_args J q) = Some i" "host_physical_interface (run_args J q) = Some ph"
      using main_add(2) [OF q(1)] by (auto simp: add_ready_def)
    then have own: "i \<notin> own_names" "ph \<notin> own_names" using q(2) by (auto simp: names_free_def)
    obtain w1 where w1: "cmd_add J E (run_args J q) v = ret (0, w1)"
      "out w1 = out v @ [to_plain_string J (add_response J (run_args J q) (ip_text cp (n + 1)))]"
      "files w1 = (files v)(sysctl_ip4 := Some sysctl_on, sysctl_ip6 := Some sysctl_on, IP_INFO_FILE_PATH := Some (ip_text cp (n + 1)))"
      "held w1 = Some H" "ip_counter node w1 = Some (n + 1)"
      using add_works [OF assms(1) v(1-3) main_add(2) [OF q(1)] f assms(2-5) v(4) n(1) own(1) n(2) own(2)] by blast
    have "files w1 sysctl_ip4 \<noteq> None" "files w1 sysctl_ip6 \<noteq> None" by (simp_all add: w1(3))
    from Cons.IH [OF w1(4) this w1(5) rest]
    obtain w' where "runs J E qs w1 = ret (replicate (length qs) 0, w')" "out w' = out w1 @ responses J cp (n + 1) (map (run_args J) qs)"
      by blast
    moreover have "main J E (fst q) (snd q) w = ret (0, w1)" using w1(1) by (simp add: main_add(1) [OF q(1)] v_def)
    ultimately show ?thesis using w1(2) False v(5) by (simp add: add_line_def)
  qed
qed simp

end
