(* ===== verification/Demo_Node.thy ===== *)
theory Demo_Node
  imports Add_Node Success
begin

text \<open>
  A kernel that carries out the requests on the abstract node as documented, and runs on it: the
  hypotheses of the theorems of \<open>Node\<close> and \<open>Add_Node\<close> hold together.
\<close>

fun demo_kernel :: "request \<Rightarrow> node \<Rightarrow> node" where
  "demo_kernel (New_link m ty s) N =
     (case map_of s ''rtnl_link_set_name'' of
        Some (Plain (VStr d)) \<Rightarrow> with_iface (m, d) (new_iface True (pair_at N (m, d))) N
      | _ \<Rightarrow> N)"
| "demo_kernel (New_veth m h t) N =
     with_iface (m, t) (new_iface False (Some h)) (with_iface (m, h) (new_iface False (Some h)) N)"
| "demo_kernel (Change_link m d s) N =
     (case ifaces N (m, d) of
        None \<Rightarrow> N
      | Some x \<Rightarrow>
          (case (map_of s ''rtnl_link_set_ns_fd'', map_of s ''rtnl_link_set_name'', map_of s ''rtnl_link_set_master'') of
             (Some (Namespace t), Some (Plain (VStr d')), _) \<Rightarrow>
               with_iface (t, d') (new_iface True (pair x)) (drop_ifaces (\<lambda>k. k = (m, d)) N)
           | (_, _, Some (Iface br)) \<Rightarrow> with_iface (m, d) (x\<lparr>enslaved_to := Some br\<rparr>) N
           | _ \<Rightarrow> with_iface (m, d) (x\<lparr>running := True\<rparr>) N))"
| "demo_kernel (Del_link m d) N =
     (case pair_at N (m, d) of
        None \<Rightarrow> drop_ifaces (\<lambda>k. k = (m, d)) N
      | Some h \<Rightarrow> drop_ifaces (of_pair h N) N)"
| "demo_kernel (New_addr m s) N =
     (case (map_of s ''rtnl_addr_set_ifindex'', map_of s ''rtnl_addr_set_local'') of
        (Some (Iface d), Some (Address t pl)) \<Rightarrow>
          (case ifaces N (m, d) of
             None \<Rightarrow> N
           | Some x \<Rightarrow> with_iface (m, d) (x\<lparr>addresses := addresses x @ [(t, pl)]\<rparr>) N)
      | _ \<Rightarrow> N)"
| "demo_kernel (New_route m s hops) N =
     (case (map_of s ''rtnl_route_set_dst'', hops) of
        (Some (Address t _), [(_, h)]) \<Rightarrow>
          (case (map_of h ''rtnl_route_nh_set_gateway'', map_of h ''rtnl_route_nh_set_ifindex'') of
             (Some (Address gw _), Some (Iface d)) \<Rightarrow> N\<lparr>routes := (routes N)((m, t) \<mapsto> (gw, d))\<rparr>
           | _ \<Rightarrow> N)
      | _ \<Rightarrow> N)"
| "demo_kernel (Nft_batch ms) N =
     N\<lparr>rules := rules N + mset (concat (map (\<lambda>m. case m of Nft_msg ty fl s xs \<Rightarrow> if ty = NFT_MSG_NEWRULE then [xs] else []) ms))\<rparr>"

lemma demo_kernel_documented: "rtnl_documented demo_kernel"
  unfolding rtnl_documented_def
proof (intro conjI allI impI)
  fix N m br
  show "\<exists>x. pair x = pair_at N (m, br) \<and> demo_kernel (bridge_request m br) N = with_iface (m, br) x N"
    by (intro exI [of _ "new_iface True (pair_at N (m, br))"]) (simp add: bridge_request_def new_iface_def)
next
  fix N m und vx gr vni
  show "\<exists>x. pair x = pair_at N (m, vx) \<and> demo_kernel (vxlan_request m und vx gr vni) N = with_iface (m, vx) x N"
    by (intro exI [of _ "new_iface True (pair_at N (m, vx))"]) (simp add: vxlan_request_def new_iface_def)
qed (auto simp: move_request_def address_attrs_def route_request_def up_request_def enslave_request_def
    nat_request_def masq_rule_def tried_def split: option.split)

definition bare_node :: node where
  "bare_node = \<lparr>ifaces = (\<lambda>k. None), routes = (\<lambda>k. None), rules = {#}\<rparr>"

lemma netns_demo_world: "netns demo_world = Initial_ns"
  by simp

lemma requests_demo_world: "requests demo_world = []" "refusals demo_world = 0"
  by (simp_all add: requests_def refusals_def view_of_def view0_def)

lemma demo_mask: "\<exists>mk. nft_mask 16 = ret mk"
  by (simp add: nft_mask_def)

text \<open>An attach on the demo outside, and a detach after it.\<close>

definition demo_attach :: "nat world \<Rightarrow> (int \<times> nat world) exec" where
  "demo_attach = net_attach_container demo ''/var/run/netns/a'' ''eth0'' (cidr_text demo_addr 16) ''c1''
      (cidr_text (next_addr demo_addr) 16) ''enp1s0''"

definition demo_detach :: "nat world \<Rightarrow> (int \<times> nat world) exec" where
  "demo_detach = net_detach_container demo (Some ''/var/run/netns/a'') (Some ''eth0'') (Some ''c1'')"

lemma demo_attached: "\<exists>w'. demo_attach demo_world = ret (0, w') \<and> netns w' = Initial_ns"
proof -
  obtain w' where w': "demo_attach demo_world = ret (0, w')"
    unfolding demo_attach_def
    using ok_net_attach.returns_0 [where E = demo and p = 16 and n = "''/var/run/netns/a''" and i = "''eth0''"
        and a = demo_addr and c = "''c1''" and b = "next_addr demo_addr" and q = 16 and phys = "''enp1s0''" and w = demo_world]
      granting_demo demo_own_names by (auto simp: int_range_def)
  with wp_retD [OF attach.homing [OF demo_works(1)] this [unfolded demo_attach_def]] show ?thesis
    by (simp add: netns_demo_world)
qed

lemma demo_detached: "\<exists>w'. demo_detach w = ret (0, w')"
  unfolding demo_detach_def
  using ok_net_detach.returns_0 [OF granting_demo, of "''/var/run/netns/a''" "''eth0''" "''c1''" w] by blast

lemma net_attach_requests_witness:
  "\<exists>w' mk bs vs. demo_attach demo_world = ret (0, w') \<and>
     requests w' = bs @ vs @ attach_requests Initial_ns ''/var/run/netns/a'' ''eth0'' ''c1'' (cidr_text (next_addr demo_addr) 16)
       demo_addr 16 mk ''enp1s0'' \<and> refusals w' = 0"
proof -
  obtain w' where w': "demo_attach demo_world = ret (0, w')" using demo_attached by blast
  obtain mk where mk: "nft_mask 16 = ret mk" using demo_mask by blast
  have "util_cidr_parse (cidr_text demo_addr 16) = ret (Inr (demo_addr, 16))" by (simp add: int_range_def)
  from net_attach_requests [OF demo_works(1) allocates_demo w' [unfolded demo_attach_def] _ this mk,
      unfolded netns_demo_world requests_demo_world append_Nil]
  obtain bs vs where "requests w' = bs @ vs @ attach_requests Initial_ns ''/var/run/netns/a'' ''eth0'' ''c1''
      (cidr_text (next_addr demo_addr) 16) demo_addr 16 mk ''enp1s0''" "refusals w' = 0"
    by auto
  with w' show ?thesis by blast
qed

lemma net_detach_requests_witness:
  "\<exists>w'. demo_detach demo_world = ret (0, w') \<and>
     requests w' = [Del_link Initial_ns (''sknf'' @ hex8 (if_hash ''/var/run/netns/a'' ''eth0'' ''c1''))]"
proof -
  obtain w' where w': "demo_detach demo_world = ret (0, w')" using demo_detached by blast
  from net_detach_requests [OF demo_works(1) allocates_demo w' [unfolded demo_detach_def]] w' show ?thesis
    unfolding netns_demo_world requests_demo_world append_Nil by blast
qed

text \<open>An ADD on the demo outside, and a DEL on any state after it.\<close>

lemma demo_added:
  "\<exists>w'. cmd_add demo_json demo (demo_args ''ADD'') node_world = ret (0, w')"
proof -
  have "ip_counter demo_node node_world = Some 0x0AF40101"
    by (simp add: ip_counter_def parsed_host_def demo_cidrs node_world_def IP_INFO_FILE_PATH_def
        sysctl_ip4_def sysctl_ip6_def)
  then show ?thesis
    using add_works [OF granting_demo, of node_world "{#}" "demo_args ''ADD''" demo_node demo_cluster demo_addr 24
        "In_addr (word_of_octets 10 244 0 0)" 16 "0x0AF40101" "''eth0''" "''enp1s0''" demo_json] demo_own_names
    by (auto simp: node_world_def demo_args_fields demo_cidrs)
qed

lemma demo_deleted:
  "\<exists>v'. cmd_del demo_json demo (demo_args ''DEL'') v = ret (0, v')"
  using ok_net_detach.returns_0 [OF granting_demo, of "''/var/run/netns/a''" "''eth0''" "''c1''" "set_err zero_err v"]
  by (auto simp: cmd_del_def demo_args_fields)

lemma node_world_start: "netns node_world = Initial_ns" "held node_world = Some {#}" "out node_world = []"
  "refusals node_world = 0"
  by (simp_all add: node_world_def refusals_def view_of_def view0_def)

lemma add_connects_witness:
  "\<exists>w' a. cmd_add demo_json demo (demo_args ''ADD'') node_world = ret (0, w') \<and>
     out w' = [to_plain_string demo_json (add_response demo_json (demo_args ''ADD'') (cidr_text a 16))] \<and>
     connected Initial_ns ''/var/run/netns/a'' ''eth0'' (''sknf'' @ hex8 (if_hash ''/var/run/netns/a'' ''eth0'' ''c1''))
       (cidr_text (next_addr demo_addr) 16) a 16 (node_after demo_kernel node_world w' bare_node) \<and>
     refusals w' = 0"
proof -
  obtain w' where w': "cmd_add demo_json demo (demo_args ''ADD'') node_world = ret (0, w')" using demo_added by blast
  obtain mk where mk: "nft_mask 16 = ret mk" using demo_mask by blast
  have "\<exists>a. out w' = out node_world @ [to_plain_string demo_json (add_response demo_json (demo_args ''ADD'') (cidr_text a 16))] \<and>
    connected (netns node_world) ''/var/run/netns/a'' ''eth0'' (''sknf'' @ hex8 (if_hash ''/var/run/netns/a'' ''eth0'' ''c1''))
      (cidr_text (next_addr demo_addr) 16) a 16 (node_after demo_kernel node_world w' bare_node) \<and>
    refusals w' = refusals node_world \<and>
    tried (masq_rule ''enp1s0'' a mk) (rules bare_node) (rules (node_after demo_kernel node_world w' bare_node))"
    by (rule add_connects [OF demo_kernel_documented demo_works(1) allocates_demo node_world_start(2) _ _ _ _ _ _ _
        demo_cidrs mk w']) (simp_all add: demo_args_fields bare_node_def node_world_start(1))
  with w' show ?thesis unfolding node_world_start append_Nil by blast
qed

lemma del_undoes_add_witness:
  "\<exists>w' v' a mk. cmd_add demo_json demo (demo_args ''ADD'') node_world = ret (0, w') \<and>
     cmd_del demo_json demo (demo_args ''DEL'') node_world = ret (0, v') \<and>
     routes (node_after demo_kernel node_world v' (node_after demo_kernel node_world w' bare_node)) = routes bare_node \<and>
     tried (masq_rule ''enp1s0'' a mk) {#} (rules (node_after demo_kernel node_world v' (node_after demo_kernel node_world w' bare_node)))"
proof -
  obtain w' where w': "cmd_add demo_json demo (demo_args ''ADD'') node_world = ret (0, w')" using demo_added by blast
  obtain v' where v': "cmd_del demo_json demo (demo_args ''DEL'') node_world = ret (0, v')" using demo_deleted by blast
  obtain mk where mk: "nft_mask 16 = ret mk" using demo_mask by blast
  have "\<exists>a. (\<forall>k. k \<notin> {(Initial_ns, HOST_BRIDGE_NAME), (Initial_ns, HOST_VXLAN_NAME)} \<longrightarrow>
      ifaces (node_after demo_kernel node_world v' (node_after demo_kernel node_world w' bare_node)) k = ifaces bare_node k) \<and>
    routes (node_after demo_kernel node_world v' (node_after demo_kernel node_world w' bare_node)) = routes bare_node \<and>
    rules (node_after demo_kernel node_world v' (node_after demo_kernel node_world w' bare_node)) =
      rules (node_after demo_kernel node_world w' bare_node) \<and>
    tried (masq_rule ''enp1s0'' a mk) (rules bare_node) (rules (node_after demo_kernel node_world w' bare_node))"
    by (rule del_undoes_add [where n = "''/var/run/netns/a''" and i = "''eth0''" and c = "''c1''", OF demo_kernel_documented demo_works(1) allocates_demo node_world_start(1,1) _ _ _ _ _ _
        demo_cidrs mk _ _ _ w' v']) (simp_all add: demo_args_fields bare_node_def pair_at_def)
  with w' v' show ?thesis by (auto simp: bare_node_def)
qed

text \<open>An ADD that fails, on an outside that has no netlink socket for it.\<close>

definition no_socket :: "nat env" where
  "no_socket = demo_but (\<lambda>c. c = CAlloc RSock ''nl_socket_alloc'') 0"

lemma no_socket_works: "stdio_works no_socket" "out_params_filled no_socket"
  by (auto simp: no_socket_def demo_but_def stdio_works_def out_params_filled_def demo_def)

lemma no_socket_attach: "\<exists>v'. net_attach_container no_socket n i cidr c gw phys v = ret (1, v')"
  by (simp add: net_attach_container_def net_attach_container_out_def ext_def no_socket_def demo_but_def Let_def)

lemma node_world_counter: "ip_counter demo_node node_world = Some 0x0AF40101"
  by (simp add: ip_counter_def parsed_host_def demo_cidrs node_world_def IP_INFO_FILE_PATH_def
      sysctl_ip4_def sysctl_ip6_def)

lemma node_world_sysctls: "files node_world sysctl_ip4 \<noteq> None" "files node_world sysctl_ip6 \<noteq> None"
  by (simp_all add: node_world_def)

lemma add_never_deletes_witness:
  "\<exists>w'. cmd_add demo_json no_socket (demo_args ''ADD'') node_world = ret (1, w') \<and>
     no_deletions node_world w' \<and> ip_counter demo_node w' = Some 0x0AF40102"
proof -
  note demo_args_fields = demo_args_fields [of "''ADD''"]
  have "\<exists>w'. cmd_add demo_json no_socket (demo_args ''ADD'') node_world = ret (1, w')"
    using add_until_attach [OF no_socket_works(1) node_world_start(2) node_world_sysctls demo_args_fields(7,8,6,4,2,3)
        demo_cidrs node_world_counter, of demo_json]
  proof (elim exE conjE)
    fix v assume run: "cmd_add demo_json no_socket (demo_args ''ADD'') node_world =
      exec_bind (net_attach_container no_socket ''/var/run/netns/a'' ''eth0'' (ip_text 16 (0x0AF40101 + 1)) ''c1''
          (cidr_text (next_addr demo_addr) 16) ''enp1s0'' v)
        (\<lambda>(rc, w'). if rc \<noteq> 0 then ret (1, emit_error_response demo_json (err w') w')
          else ret (0, emit_add_response demo_json (demo_args ''ADD'') (ip_text 16 (0x0AF40101 + 1)) w'))"
    obtain v' where "net_attach_container no_socket ''/var/run/netns/a'' ''eth0'' (ip_text 16 (0x0AF40101 + 1)) ''c1''
        (cidr_text (next_addr demo_addr) 16) ''enp1s0'' v = ret (1, v')"
      using no_socket_attach by blast
    with run show ?thesis by simp
  qed
  then obtain w' where w': "cmd_add demo_json no_socket (demo_args ''ADD'') node_world = ret (1, w')" by blast
  with add_never_deletes [OF no_socket_works node_world_start(2) node_world_sysctls demo_args_fields(9,2,3)
      demo_cidrs node_world_counter w'] show ?thesis by auto
qed

end
