(* ===== verification/Ip_Race.thy ===== *)
theory Ip_Race
  imports Ip Demo
begin

text \<open>
  Concurrent runs of the allocator. The plugin is a process per container, and \<open>ip.c\<close> remarks that
  it does not lock the file between reading and writing it. A run is split at that point:
  \<open>ip_last_acquired\<close> is one step, \<open>ip_next\<close> the other, and the steps of different processes interleave.
\<close>

datatype phase = Idle | Last string | Got string

record 'k race =
  shared :: "'k world"
  phase_of :: "nat \<Rightarrow> phase"

text \<open>Process \<open>i\<close> makes a step.\<close>

inductive race_step :: "'k env \<Rightarrow> string \<Rightarrow> string \<Rightarrow> 'k race \<Rightarrow> 'k race \<Rightarrow> bool"
  for E :: "'k env" and node cluster :: string where
  reads: "phase_of s i = Idle \<Longrightarrow> ip_last_acquired E node (shared s) = ret (Inr t, w') \<Longrightarrow>
    race_step E node cluster s (s\<lparr>shared := w', phase_of := (phase_of s)(i := Last t)\<rparr>)"
| stores: "phase_of s i = Last t \<Longrightarrow> ip_next E cluster t (shared s) = ret ((0, u), w') \<Longrightarrow>
    race_step E node cluster s (s\<lparr>shared := w', phase_of := (phase_of s)(i := Got u)\<rparr>)"

inductive race_reach :: "'k env \<Rightarrow> string \<Rightarrow> string \<Rightarrow> 'k race \<Rightarrow> 'k race \<Rightarrow> bool"
  for E :: "'k env" and node cluster :: string and s0 :: "'k race" where
  start: "race_reach E node cluster s0 s0"
| further: "race_reach E node cluster s0 s \<Longrightarrow> race_step E node cluster s s' \<Longrightarrow>
    race_reach E node cluster s0 s'"

text \<open>Both steps one after the other are a successful run of \<open>ip_container_acquire\<close>.\<close>

lemma acquire_in_steps:
  "ip_container_acquire E node cluster w = ret ((0, u), w'') \<longleftrightarrow>
     (\<exists>t w'. ip_last_acquired E node w = ret (Inr t, w') \<and> ip_next E cluster t w' = ret ((0, u), w''))"
proof (cases "ip_last_acquired E node w")
  case (Some r)
  then show ?thesis
  proof (cases r)
    case (Inr p)
    obtain x w' where "p = (x, w')" by force
    with Some Inr show ?thesis by (cases x) (auto simp: ip_container_acquire_def)
  qed (auto simp: ip_container_acquire_def)
qed (simp add: ip_container_acquire_def)

definition race_init :: "'k world \<Rightarrow> 'k race" where
  "race_init w = \<lparr>shared = w, phase_of = (\<lambda>i. Idle)\<rparr>"

text \<open>
  C24. As the code is written, without a lock, two runs that both read the file before either writes
  it end with the same address, from every state of the allocator.
\<close>

theorem unlocked_runs_collide:
  assumes "stdio_works E" "util_cidr_parse cluster = ret (Inr (b, cp))" "ip_counter node w = Some n" "i \<noteq> j"
  shows "\<exists>s t. race_reach E node cluster (race_init w) s \<and> phase_of s i = Got t \<and> phase_of s j = Got t"
proof -
  obtain H where H: "held w = Some H"
    using assms(3) by (auto simp: ip_counter_def split: if_splits)
  obtain t1 w1 where 1: "ip_last_acquired E node w = ret (Inr t1, w1)" "parsed_host t1 = Some n"
    "held w1 = Some H" "files w1 = files w"
    using ip_last_acquired_works [OF assms(1,3) H] by blast
  have c1: "ip_counter node w1 = Some n" using 1 assms(3) H by (simp add: ip_counter_def)
  obtain t2 w2 where 2: "ip_last_acquired E node w1 = ret (Inr t2, w2)" "parsed_host t2 = Some n" "held w2 = Some H"
    using ip_last_acquired_works [OF assms(1) c1 1(3)] by blast
  obtain w3 where 3: "ip_next E cluster t1 w2 = ret ((0, ip_text cp (n + 1)), w3)" "held w3 = Some H"
    using ip_next_works [OF assms(1) 1(2) assms(2) 2(3)] by blast
  obtain w4 where 4: "ip_next E cluster t2 w3 = ret ((0, ip_text cp (n + 1)), w4)"
    using ip_next_works [OF assms(1) 2(2) assms(2) 3(2)] by blast
  let ?u = "ip_text cp (n + 1)"
  let ?s1 = "(race_init w)\<lparr>shared := w1, phase_of := (phase_of (race_init w))(i := Last t1)\<rparr>"
  let ?s2 = "?s1\<lparr>shared := w2, phase_of := (phase_of ?s1)(j := Last t2)\<rparr>"
  let ?s3 = "?s2\<lparr>shared := w3, phase_of := (phase_of ?s2)(i := Got ?u)\<rparr>"
  let ?s4 = "?s3\<lparr>shared := w4, phase_of := (phase_of ?s3)(j := Got ?u)\<rparr>"
  have "race_step E node cluster (race_init w) ?s1"
    by (rule race_step.reads) (use 1 in \<open>simp_all add: race_init_def\<close>)
  moreover have "race_step E node cluster ?s1 ?s2"
    by (rule race_step.reads) (use 2 assms(4) in \<open>simp_all add: race_init_def\<close>)
  moreover have "race_step E node cluster ?s2 ?s3"
    by (rule race_step.stores) (use 3 assms(4) in \<open>simp_all add: race_init_def\<close>)
  moreover have "race_step E node cluster ?s3 ?s4"
    by (rule race_step.stores) (use 4 assms(4) in \<open>simp_all add: race_init_def\<close>)
  ultimately have "race_reach E node cluster (race_init w) ?s4"
    by (meson race_reach.intros)
  moreover have "phase_of ?s4 i = Got ?u" "phase_of ?s4 j = Got ?u"
    using assms(4) by simp_all
  ultimately show ?thesis by blast
qed

lemma unlocked_runs_collide_witness:
  "\<exists>s t. race_reach demo demo_node demo_cluster (race_init demo_world) s \<and>
     phase_of s 0 = Got t \<and> phase_of s 1 = Got t"
proof (rule unlocked_runs_collide [OF demo_works(2) demo_cidrs(2)])
  show "ip_counter demo_node demo_world = Some 0x0AF40101"
    by (simp add: ip_counter_def parsed_host_def demo_cidrs)
qed simp

end
