(* ===== verification/Nft_Spec.thy ===== *)
theory Nft_Spec
  imports Requests Demo
begin

text \<open>
  What the rule of \<open>nft.c\<close> means: the arithmetic of the mask and the bytes, and, from the documented
  meaning of each expression, the packets the rule masquerades. Then what becomes of the kernel's
  verdict on the batch.
\<close>


section \<open>Bits and bytes\<close>

lemma bit_octet: "k < 8 \<Longrightarrow> bit (octet i w) k = bit w (8 * i + k)"
  by (simp add: octet_def bit_unsigned_iff bit_take_bit_iff bit_drop_bit_eq ac_simps)

lemma bit_by_octet: "bit w n = bit (octet (n div 8) w) (n mod 8)" for w :: "32 word"
  by (simp add: bit_octet)

lemma octets_eqI: "(\<And>i. i < 4 \<Longrightarrow> octet i v = octet i w) \<Longrightarrow> v = w" for v w :: "32 word"
proof (rule bit_word_eqI)
  fix n assume "\<And>i. i < 4 \<Longrightarrow> octet i v = octet i w" "n < LENGTH(32)"
  then show "bit v n = bit w n"
    using bit_by_octet [of v n] bit_by_octet [of w n] by (simp add: less_mult_imp_div_less)
qed

lemma octet_and: "octet i (v AND w) = octet i v AND octet i w"
  by (simp add: octet_def take_bit_and drop_bit_and unsigned_and_eq)

lemma octet_ntohl: "i < 4 \<Longrightarrow> octet i (ntohl w) = octet (3 - i) w"
proof -
  assume "i < 4"
  then consider "i = 0" | "i = 1" | "i = 2" | "i = 3" by linarith
  then show ?thesis by cases (simp_all add: ntohl_octets del: One_nat_def, simp_all add: ntohl_octets)
qed

lemma ntohl_and: "ntohl (v AND w) = ntohl v AND ntohl w"
  by (rule octets_eqI) (simp add: octet_and octet_ntohl)

lemma ntohl_inject: "ntohl v = ntohl w \<longleftrightarrow> v = w"
  by (metis ntohl_ntohl)

lemma and_mask_eq: "v AND NOT (mask s) = w AND NOT (mask s) \<longleftrightarrow> drop_bit s v = drop_bit s w"
  for v w :: "32 word"
proof
  assume eq: "v AND NOT (mask s) = w AND NOT (mask s)"
  show "drop_bit s v = drop_bit s w"
  proof (rule bit_word_eqI)
    fix n
    have "bit (v AND NOT (mask s)) (s + n) = bit (w AND NOT (mask s)) (s + n)" by (simp only: eq)
    then show "bit (drop_bit s v) n = bit (drop_bit s w) n"
      by (auto simp: bit_simps dest: bit_imp_le_length)
  qed
next
  assume eq: "drop_bit s v = drop_bit s w"
  show "v AND NOT (mask s) = w AND NOT (mask s)"
  proof (rule bit_word_eqI)
    fix n
    have "bit (drop_bit s v) (n - s) = bit (drop_bit s w) (n - s)" by (simp only: eq)
    then show "bit (v AND NOT (mask s)) n = bit (w AND NOT (mask s)) n"
      by (auto simp: bit_simps not_less)
  qed
qed

lemma nft_mask_matches:
  assumes "0 \<le> p" "p \<le> 32" "nft_mask p = ret m"
  shows "v AND m = w AND m \<longleftrightarrow> drop_bit (nat (32 - p)) (ntohl v) = drop_bit (nat (32 - p)) (ntohl w)"
proof (cases "p = 0")
  case True
  then have "m = 0" using assms(3) by (simp add: nft_mask_def)
  moreover have "drop_bit 32 x = 0" for x :: "32 word"
    by (rule bit_word_eqI) (auto simp: bit_drop_bit_eq dest: bit_imp_le_length)
  ultimately show ?thesis using True by simp
next
  case False
  have "(0xFFFFFFFF :: 32 word) = - 1" by simp
  then have m: "ntohl m = NOT (mask (nat (32 - p)))"
    using assms False by (auto simp only: nft_mask_def push_bit_minus_one_eq_not_mask htonl_ntohl
        if_False option.inject sum.inject split: if_splits)
  have "v AND m = w AND m \<longleftrightarrow> ntohl v AND ntohl m = ntohl w AND ntohl m"
    by (simp flip: ntohl_and add: ntohl_inject)
  then show ?thesis by (simp add: m and_mask_eq)
qed

lemma mem_bytes_inject: "mem_bytes v = mem_bytes w \<longleftrightarrow> v = w"
proof
  assume "mem_bytes v = mem_bytes w"
  then have "(word_of_nat (octet i v) :: 8 word) = word_of_nat (octet i w)" if "i \<in> {0, 1, 2, 3}" for i
    using that by (auto simp: mem_bytes_def)
  then have "octet i v = octet i w" if "i \<in> {0, 1, 2, 3}" for i
    using that by (force simp: word_of_nat_eq_iff take_bit_eq_mod)
  then show "v = w"
    by (intro octets_eqI) (auto simp: numeral_eq_Suc less_Suc_eq)
qed simp

lemma length_mem_bytes [simp]: "length (mem_bytes w) = 4"
  by (simp add: mem_bytes_def)

lemma mem_bytes_and: "map2 (AND) (mem_bytes v) (mem_bytes w) = mem_bytes (v AND w)"
  by (simp add: mem_bytes_def octet_and of_nat_and_eq)

lemma mem_bytes_xor_0: "map2 (XOR) (mem_bytes v) (mem_bytes 0) = mem_bytes v"
  by (simp add: mem_bytes_def octet_def)

section \<open>The meaning of the expressions\<close>

text \<open>
  The kernel runs the expressions of a rule on a packet in order, over a register. Its code is not
  part of the repository, so the meaning of one expression is a parameter; \<open>nf_documented\<close> says what
  nftables documents for the six kinds the rule uses.
\<close>

datatype nf_outcome = Goes_on val | Breaks | Masquerades

record 'p nf =
  oifname :: "'p \<Rightarrow> string"
  saddr :: "'p \<Rightarrow> 32 word"
  nf_step :: "nft_expr \<Rightarrow> 'p \<Rightarrow> val \<Rightarrow> nf_outcome"

definition nf_documented :: "'p nf \<Rightarrow> bool" where
  "nf_documented S \<longleftrightarrow>
     (\<forall>k r. nf_step S expr_meta_oifname k r = Goes_on (VStr (oifname S k))) \<and>
     (\<forall>k s t. nf_step S (expr_cmp_str s) k (VStr t) = (if t = s then Goes_on (VStr t) else Breaks)) \<and>
     (\<forall>k r. nf_step S (expr_payload 12 4) k r = Goes_on (VBytes (mem_bytes (saddr S k)))) \<and>
     (\<forall>k m x b. length b = 4 \<longrightarrow> nf_step S (expr_bitwise m x) k (VBytes b) = Goes_on (VBytes (map2 (XOR) (map2 (AND) b m) x))) \<and>
     (\<forall>k d b. nf_step S (expr_cmp_data d) k (VBytes b) = (if b = d then Goes_on (VBytes b) else Breaks)) \<and>
     (\<forall>k r. nf_step S expr_masq k r = Masquerades)"

fun nf_masquerades :: "'p nf \<Rightarrow> 'p \<Rightarrow> val \<Rightarrow> nft_expr list \<Rightarrow> bool" where
  "nf_masquerades S k r [] = False"
| "nf_masquerades S k r (x # xs) =
     (case nf_step S x k r of
        Goes_on r' \<Rightarrow> nf_masquerades S k r' xs
      | Breaks \<Rightarrow> False
      | Masquerades \<Rightarrow> True)"

lemma nf_rule_matches:
  assumes "nf_documented S"
  shows "nf_masquerades S k r (nft_rule_exprs ifname net m) \<longleftrightarrow>
    oifname S k = ifname \<and> saddr S k AND m = net AND m"
  using assms by (simp add: nft_rule_exprs_def nf_documented_def Let_def mem_bytes_and mem_bytes_xor_0 mem_bytes_inject)


section \<open>Acknowledgements\<close>

definition refused :: "reply \<Rightarrow> nat" where
  "refused r = (if rv r = -1 then 1 else 0)"

lemma refusals_ext:
  "ext E c w = (r, w') \<Longrightarrow> refusals w' = v_refused (kstep (view_of (trace w)) (c, r)) \<and> trace w' = trace w @ [(c, r)] \<and> err w' = err w"
  using after_ext [of E c w r w'] requests_append(2) [of w' w "[(c, r)]"] by (simp add: after_def)

lemma refusals_recv:
  "ext E (CMnlRecvfrom sk) w = (r, w') \<Longrightarrow> refusals w' = refusals w + refused r \<and> trace w' = trace w @ [(CMnlRecvfrom sk, r)] \<and> err w' = err w"
  "ext E (CMnlCbRun n q p) w = (r, w') \<Longrightarrow> refusals w' = refusals w + refused r \<and> trace w' = trace w @ [(CMnlCbRun n q p, r)] \<and> err w' = err w"
  by (auto dest!: refusals_ext simp: refusal_def refused_def refusals_def)

lemma refusals_send:
  "ext E (CMnlSendto sk b) w = (r, w') \<Longrightarrow> refusals w' = refusals w \<and> trace w' = trace w @ [(CMnlSendto sk b, r)] \<and> err w' = err w"
  by (auto dest!: refusals_ext simp: refusals_def ask_def)

lemma refusals_release:
  "refusals (run E (CRelease t x) w) = refusals w \<and> (\<exists>r. trace (run E (CRelease t x) w) = trace w @ [(CRelease t x, r)]) \<and>
     err (run E (CRelease t x) w) = err w"
  using refusals_ext [of E "CRelease t x" w] by (auto simp: run_def refusals_def prod_eq_iff)

text \<open>At most the last reply of the loop is a refusal, and the loop ends with it.\<close>

lemma refusals_acks:
  assumes "nft_acks E sk q p r w = Some res"
  shows "\<exists>r' w' es. res = Inr (r', w') \<and> refusals w' + refused r = refusals w + refused r' \<and>
    trace w' = trace w @ es \<and> err w' = err w"
proof (rule nft_acks.raw_induct [where P = "\<lambda>E sk q p r w res. \<exists>r' w' es. res = Inr (r', w') \<and>
    refusals w' + refused r = refusals w + refused r' \<and> trace w' = trace w @ es \<and> err w' = err w", OF _ assms])
  fix acks E sk q p r w res
  assume IH: "\<And>E sk q p r w res. acks E sk q p r w = Some res \<Longrightarrow> \<exists>r' w' es. res = Inr (r', w') \<and>
      refusals w' + refused r = refusals w + refused r' \<and> trace w' = trace w @ es \<and> err w' = err w"
    and eq: "(if rv r > 0 then
        (case ext E (CMnlCbRun (rv r) q p) w of
           (r, w) \<Rightarrow>
             if rv r \<le> 0 then ret (r, w)
             else (case ext E (CMnlRecvfrom sk) w of (r, w) \<Rightarrow> acks E sk q p r w))
      else ret (r, w)) = Some res"
  obtain r1 w1 where e1: "ext E (CMnlCbRun (rv r) q p) w = (r1, w1)" by force
  obtain r2 w2 where e2: "ext E (CMnlRecvfrom sk) w1 = (r2, w2)" by force
  note f = refusals_recv(2) [OF e1] refusals_recv(1) [OF e2]
  consider "rv r \<le> 0" | "rv r > 0" "rv r1 \<le> 0" | "rv r > 0" "rv r1 > 0" by linarith
  then show "\<exists>r' w' es. res = Inr (r', w') \<and> refusals w' + refused r = refusals w + refused r' \<and>
      trace w' = trace w @ es \<and> err w' = err w"
  proof cases
    case 3
    then have "acks E sk q p r2 w2 = Some res" using eq e1 e2 by simp
    from IH [OF this] show ?thesis using f 3 by (auto simp: refused_def)
  qed (use eq e1 f in \<open>auto simp: refused_def\<close>)
qed

lemma refusals_out:
  assumes "nft_nat_rule_out E batch stopped sk rc w = ret (rc', w')"
  shows "rc' = rc \<and> refusals w' = refusals w \<and> (\<exists>es. trace w' = trace w @ es) \<and> err w' = err w"
proof -
  define v where "v = (if batch \<noteq> 0 \<and> \<not> stopped then run E (CRelease RBatch batch) w else w)"
  have v: "refusals v = refusals w" "\<exists>es. trace v = trace w @ es" "err v = err w"
    using refusals_release [of E RBatch batch w] by (auto simp: v_def)
  have "rc' = rc" "w' = release_if E RMnl sk v"
    using assms by (simp_all add: nft_nat_rule_out_def v_def Let_def)
  then show ?thesis
    using v refusals_release [of E RMnl sk v] by (auto simp: release_if_def)
qed


section \<open>Properties\<close>

text \<open>
  C11. By the documented meaning of its expressions, the rule built for a CIDR with prefix length \<open>p\<close>
  masquerades exactly the packets that leave by the given interface with a source address that
  agrees with the CIDR's address in the upper \<open>p\<close> bits.
\<close>

theorem rule_masquerades_iff:
  assumes "nf_documented S" "0 \<le> p" "p \<le> 32" "nft_mask p = ret m"
  shows "nf_masquerades S k r (nft_rule_exprs ifname (s_addr a) m) \<longleftrightarrow>
    oifname S k = ifname \<and> drop_bit (nat (32 - p)) (ntohl (saddr S k)) = drop_bit (nat (32 - p)) (host_addr a)"
  unfolding nf_rule_matches [OF assms(1)] nft_mask_matches [OF assms(2-4)] host_addr_def by (rule refl)

definition demo_nf :: "(string \<times> 32 word) nf" where
  "demo_nf = \<lparr>oifname = fst, saddr = snd,
     nf_step = (\<lambda>x k r.
       if fst x = ''meta'' then Goes_on (VStr (fst k))
       else if fst x = ''payload'' then Goes_on (VBytes (mem_bytes (snd k)))
       else if fst x = ''bitwise'' then
         (case (r, snd (snd x ! 3), snd (snd x ! 4)) of
            (VBytes b, VBytes m, VBytes y) \<Rightarrow> Goes_on (VBytes (map2 (XOR) (map2 (AND) b m) y)) | _ \<Rightarrow> Breaks)
       else if fst x = ''cmp'' then (if snd (snd x ! 2) = r then Goes_on r else Breaks)
       else Masquerades)\<rparr>"

lemma demo_nf_documented: "nf_documented demo_nf"
  by (simp add: nf_documented_def demo_nf_def expr_meta_oifname_def expr_cmp_str_def expr_payload_def
      expr_bitwise_def expr_cmp_data_def expr_masq_def eval_nat_numeral)

text \<open>A packet from 10.244.7.9 by the physical interface is masqueraded, one from 10.245.0.1 is not.\<close>

lemma rule_masquerades_iff_witness:
  "\<exists>m. nft_mask 16 = ret m \<and>
     nf_masquerades demo_nf (''enp1s0'', htonl 0x0AF40709) (VInt 0) (nft_rule_exprs ''enp1s0'' (s_addr demo_addr) m) \<and>
     \<not> nf_masquerades demo_nf (''enp1s0'', htonl 0x0AF50001) (VInt 0) (nft_rule_exprs ''enp1s0'' (s_addr demo_addr) m)"
proof -
  obtain m where m: "nft_mask 16 = ret m" by (simp add: nft_mask_def)
  have "(0x0AF40709 :: 32 word) div 65536 = 0x0AF4" "(0x0AF50001 :: 32 word) div 65536 = 0x0AF5"
    "(0x0AF40100 :: 32 word) div 65536 = 0x0AF4" by simp_all
  then have "drop_bit 16 (0x0AF40709 :: 32 word) = drop_bit 16 0x0AF40100"
    "drop_bit 16 (0x0AF50001 :: 32 word) \<noteq> drop_bit 16 0x0AF40100"
    by (simp_all add: drop_bit_eq_div)
  then show ?thesis
    using rule_masquerades_iff [OF demo_nf_documented _ _ m] m
    by (intro exI [of _ m]) (simp add: demo_nf_def)
qed

text \<open>
  C30. The prefix length of a CIDR is not validated: outside 0 to 32 the mask is computed by a shift
  that C leaves undefined, before the first netlink call.
\<close>

theorem bad_prefix_undefined:
  assumes "int_range p" "p < 0 \<or> 32 < p"
  shows "nft_nat_rule E ifname (cidr_text a p) w = stuck ShiftRange"
  using assms by (auto simp: nft_nat_rule_def nft_mask_def)

lemma bad_prefix_undefined_witness:
  "nft_nat_rule demo ''enp1s0'' (cidr_text demo_addr 33) demo_world = stuck ShiftRange"
  by (rule bad_prefix_undefined) (simp_all add: int_range_def)

text \<open>
  C28. Every refusal that is read is reported: whenever the last step of \<open>nft_nat_rule\<close> returns, it sent
  the batch first, and it returned 0 exactly when the batch was sent and neither receiving nor processing
  an acknowledgement failed; otherwise it returned 1 with an error reported. It reads at most one refusal.
\<close>

theorem refusal_reported:
  assumes "nft_send E sk b q p w = ret (rc, w')"
  shows "\<exists>r es. trace w' = trace w @ (CMnlSendto sk b, r) # es \<and> refusals w' \<le> Suc (refusals w) \<and>
    (if 0 \<le> rv r \<and> refusals w' = refusals w then rc = 0 \<and> err w' = err w else rc = 1 \<and> reported (err w'))"
proof -
  obtain r w1 where 1: "ext E (CMnlSendto sk b) w = (r, w1)" by force
  note f1 = refusals_send [OF 1]
  show ?thesis
  proof (cases "rv r < 0")
    case True
    then show ?thesis
      using assms 1 f1 refusals_out [of E b False sk 1 _ rc w'] by (fastforce simp: nft_send_def refusals_def)
  next
    case False
    define w2 where "w2 = run E (CRelease RBatch b) w1"
    obtain r3 w3 where 3: "ext E (CMnlRecvfrom sk) w2 = (r3, w3)" by force
    note f = f1 refusals_release [of E RBatch b w1, folded w2_def] refusals_recv(1) [OF 3]
    obtain res where res: "nft_acks E sk q p r3 w3 = Some res"
      using assms 1 3 False by (cases "nft_acks E sk q p r3 w3") (simp_all add: nft_send_def flip: w2_def)
    obtain r4 w4 es where 4: "res = Inr (r4, w4)" "refusals w4 + refused r3 = refusals w3 + refused r4"
      "trace w4 = trace w3 @ es" "err w4 = err w3"
      using refusals_acks [OF res] by blast
    then show ?thesis
      using assms 1 3 res False f refusals_out [of E b True sk _ _ rc w']
      by (auto simp: nft_send_def refused_def refusals_def simp flip: w2_def split: if_splits) fastforce+
  qed
qed

text \<open>An outside that refuses the batch.\<close>

definition refusing :: "nat env" where
  "refusing = demo_but (\<lambda>c. case c of CMnlCbRun n q p \<Rightarrow> True | _ \<Rightarrow> False) (-1)"

lemma refusal_reported_witness:
  "\<exists>w'. nft_send refusing 1 2 2 77 demo_world = ret (1, w') \<and> reported (err w')"
proof -
  have "\<exists>w'. nft_send refusing 1 2 2 77 demo_world = ret (1, w')"
    by (simp add: nft_send_def nft_nat_rule_out_def refusing_def demo_but_def demo_def ext_def run_def
        release_if_def Let_def nft_acks.simps [of "demo_but _ _"] nft_acks.simps)
  then obtain w' where w': "nft_send refusing 1 2 2 77 demo_world = ret (1, w')" by blast
  with refusal_reported [OF w'] show ?thesis by (auto split: if_splits)
qed

text \<open>
  C29. The batch asks for three acknowledgements (table, chain, rule), but the loop waits for the
  table's only: once \<open>mnl_cb_run\<close> is satisfied with the first datagram the function returns 0, with
  one datagram read, whatever the kernel says about the chain and the rule in later ones.
\<close>

theorem only_first_ack_read:
  assumes "0 \<le> rv (fst (answer E (CMnlSendto sk b) k0))" "kern w = k0"
    "\<And>k. 0 < rv (fst (answer E (CMnlRecvfrom sk) k))" "\<And>n k. rv (fst (answer E (CMnlCbRun n q p) k)) = 0" "sk \<noteq> 0"
  shows "\<exists>w' n. nft_send E sk b q p w = ret (0, w') \<and> map fst (trace w') = map fst (trace w) @
    [CMnlSendto sk b, CRelease RBatch b, CMnlRecvfrom sk, CMnlCbRun n q p, CRelease RMnl sk]"
proof -
  obtain r1 k1 where 1: "answer E (CMnlSendto sk b) (kern w) = (r1, k1)" by force
  obtain r2 k2 where 2: "answer E (CRelease RBatch b) k1 = (r2, k2)" by force
  obtain r3 k3 where 3: "answer E (CMnlRecvfrom sk) k2 = (r3, k3)" by force
  obtain r4 k4 where 4: "answer E (CMnlCbRun (rv r3) q p) k3 = (r4, k4)" by force
  obtain r5 k5 where 5: "answer E (CRelease RMnl sk) k4 = (r5, k5)" by force
  have "0 \<le> rv r1" "0 < rv r3" "rv r4 = 0"
    using assms(1,2) assms(3) [of k2] assms(4) [of "rv r3" k3] 1 3 4 by simp_all
  then show ?thesis
    using 1 2 3 4 5 assms(5)
    by (simp add: nft_send_def nft_nat_rule_out_def ext_def run_def release_if_def nft_acks.simps [of E])
qed

lemma only_first_ack_read_witness:
  "\<exists>w' n. nft_send demo 1 2 2 77 demo_world = ret (0, w') \<and> map fst (trace w') =
    [CMnlSendto 1 2, CRelease RBatch 2, CMnlRecvfrom 1, CMnlCbRun n 2 77, CRelease RMnl 1]"
  using only_first_ack_read [of demo 1 2 0 demo_world 2 77] by (simp add: demo_def)

text \<open>
  C25. The rules of two addresses by the same interface are the same rule exactly when the addresses agree
  in the prefix: the rule is one for the whole cluster, and every container adds it once more.
\<close>

theorem rule_shared_iff:
  assumes "0 \<le> p" "p \<le> 32" "nft_mask p = ret m"
  shows "nft_rule_exprs ifname (s_addr a) m = nft_rule_exprs ifname (s_addr b) m \<longleftrightarrow>
    drop_bit (nat (32 - p)) (host_addr a) = drop_bit (nat (32 - p)) (host_addr b)"
  unfolding host_addr_def nft_mask_matches [OF assms, symmetric]
  by (auto simp: nft_rule_exprs_def Let_def expr_cmp_data_def mem_bytes_inject)

text \<open>Two containers of 10.244.0.0/16 have the same rule.\<close>

lemma rule_shared_iff_witness:
  "\<exists>m. nft_mask 16 = ret m \<and>
     nft_rule_exprs ''enp1s0'' (s_addr demo_addr) m =
     nft_rule_exprs ''enp1s0'' (s_addr (In_addr (word_of_octets 10 244 0 0))) m"
proof -
  obtain m where m: "nft_mask 16 = ret m" by (simp add: nft_mask_def)
  have h: "host_addr (In_addr (word_of_octets 10 244 0 0)) = 0x0AF40000"
    by (simp add: host_addr_def ntohl_def octets_of_word_of_octets del: One_nat_def) (simp add: word_of_octets_def)
  have "drop_bit 16 (0x0AF40100 :: 32 word) = drop_bit 16 0x0AF40000"
    by (simp add: drop_bit_eq_div)
  then show ?thesis
    using rule_shared_iff [OF _ _ m, of "''enp1s0''" demo_addr "In_addr (word_of_octets 10 244 0 0)"] m h by simp
qed

end
