(* ===== verification/Io_Spec.thy ===== *)
theory Io_Spec
  imports Demo
begin

text \<open>
  What the functions of \<open>io.c\<close> promise as a store of texts, and the boundary case of the reader.
\<close>

text \<open>
  C38. Without faults a text that was written is read back, when it leaves at least one byte of the
  reader's array unused beside the terminator.
\<close>

theorem write_then_read:
  assumes "stdio_works E" "held w = Some H" "\<not> is_proc p" "CHR 0x00 \<notin> set s" "length s + 1 < n"
  shows "\<exists>w1 w2. io_write_text E (Some p) (Some s) w = (0, w1) \<and>
    io_read_file_into E (Some p) (Some b) n w1 = (0, s, w2) \<and> held w2 = Some H"
proof -
  obtain rc w1 where w: "io_write_text E (Some p) (Some s) w = (rc, w1)" by force
  have rc: "rc = 0" by (rule io_write_text_works [OF assms(1,3) w])
  note k = io_write_text_keeps [OF w assms(2)]
  have f: "files w1 p = Some s" using k(5) [OF rc assms(3)] assms(4) by (simp add: cstr_def)
  obtain rc' got w2 where r: "io_read_file_into E (Some p) (Some b) n w1 = (rc', got, w2)"
    by (metis prod_cases3)
  have "rc' = 0" "got = s"
    using io_read_file_into_works [OF assms(1) f _ r] assms(5) by simp_all
  then show ?thesis using w rc r io_read_file_into_keeps(3) [OF r k(2)] by simp
qed

lemma write_then_read_witness:
  "\<exists>w1 w2. io_write_text demo (Some ''/tmp/x'') (Some ''10.244.1.2/16'') demo_world = (0, w1) \<and>
    io_read_file_into demo (Some ''/tmp/x'') (Some []) 64 w1 = (0, ''10.244.1.2/16'', w2) \<and> held w2 = Some {#}"
  by (rule write_then_read) (simp_all add: is_proc_def)

text \<open>
  C39. A file that fills the reader's array exactly is read completely, and reported as cut off: the
  loop stops before the end of the file is noticed.
\<close>

theorem exact_fit_reported_truncated:
  assumes "stdio_works E" "files w p = Some s" "length s + 1 = n"
  shows "\<exists>w'. io_read_file_into E (Some p) (Some b) n w = (1, s, w')"
proof -
  obtain rc got w' where r: "io_read_file_into E (Some p) (Some b) n w = (rc, got, w')" by (metis prod_cases3)
  have "rc = 1" "got = s"
    using io_read_file_into_works [OF assms(1,2) _ r] assms(3) by auto
  with r show ?thesis by simp
qed

lemma exact_fit_reported_truncated_witness:
  "\<exists>w'. io_read_file_into demo (Some ''/tmp/x'') (Some []) 14 (demo_world\<lparr>files := [''/tmp/x'' \<mapsto> ''10.244.1.2/16'']\<rparr>) =
    (1, ''10.244.1.2/16'', w')"
  using exact_fit_reported_truncated [OF demo_works(2), of "demo_world\<lparr>files := [''/tmp/x'' \<mapsto> ''10.244.1.2/16'']\<rparr>"
    "''/tmp/x''" "''10.244.1.2/16''" 14 "[]"] by (simp add: numeral_nat)

end
