(* ===== verification/Spec2Isabelle.thy ===== *)
theory Spec2Isabelle
  imports Runs Demo_Node Ip_Race Nft_Spec Io_Spec
begin

text \<open>
  Verification of the CNI plugin of sknf, the C program in \<open>src/sknf-cni/src\<close>.

  \<^bold>\<open>The program.\<close> The container runtime starts the plugin once per operation, with the operation and the
  container's identity in the environment and a JSON configuration on standard input (\<open>args.c\<close>).
  \<open>main.c\<close> dispatches to one function per command (\<open>cmd.c\<close>). An ADD enables bridge filtering (\<open>sys.c\<close>),
  computes the bridge's address and allocates the container's (\<open>ip.c\<close>, over the text files of \<open>io.c\<close> and
  the CIDR texts of \<open>util.c\<close>), and attaches the container (\<open>net.c\<close>): a bridge, a VXLAN interface, a veth
  pair whose one end moves into the container's network namespace, an address, a route, and a NAT rule
  (\<open>net_utils.c\<close> over libnl, \<open>nft.c\<close> over libmnl and libnftnl). A DEL deletes the host's end of the pair. Both
  print a JSON response; errors travel in the object of \<open>err.c\<close>.

  \<^bold>\<open>The model.\<close> C functions are HOL functions of the same name. A function that can run into undefined
  behaviour has a result of type \<open>exec\<close> (\<open>Prelude\<close>): a value, the undefined behaviour, or \<open>None\<close> for a call that
  does not return; \<open>wp U m Q\<close> says that \<open>m\<close> returns a value with \<open>Q\<close> or ends as \<open>U\<close> allows. The state is the
  record \<open>world\<close> (\<open>Env\<close>): files, the error object, the lines printed, the state of the outside, and the trace of
  all calls to the outside with their replies. What the system calls and the libraries answer is a
  parameter \<open>E\<close>, the JSON library a parameter \<open>J\<close>. From the trace are computed the objects held (\<open>held\<close>, \<open>None\<close>
  after a use after release or a double release), the namespace the thread is in (\<open>netns\<close>), the requests
  made to the kernel (\<open>requests\<close>; those of libnl were accepted, an nftables batch was sent), and the number
  of refusals read (\<open>refusals\<close>). The references to JSON objects that the plugin owns are kept in \<open>json_refs\<close>
  (\<open>None\<close> after one it does not own was given away). The code at a label \<open>out\<close> is a definition \<open>\<dots>_out\<close> of its
  own.

  \<^bold>\<open>The theories.\<close>
  \<^item> \<open>Prelude\<close>: results, weakest preconditions, generic lemmas. \<open>CLib\<close>: C strings, \<open>snprintf\<close>, \<open>atoi\<close>,
    \<open>inet_pton\<close>, \<open>inet_ntop\<close>, byte order. \<open>Err\<close> (\<open>err.c\<close>), \<open>Util\<close> (\<open>util.c\<close>): the FNV hash, CIDR texts and their
    round trip, the array they can overflow.
  \<^item> \<open>Env\<close>: the outside, held objects, namespaces, the rules to walk through code, and the locales for the
    contracts of operations (\<open>operation\<close>, \<open>homing_operation\<close>, \<open>local_operation\<close>), interpreted for every netlink
    operation. \<open>Io\<close> (stdio with its buffering and flags, \<open>io.c\<close>) and \<open>Io_Spec\<close>; \<open>Sys\<close> (\<open>sys.c\<close>).
  \<^item> \<open>Ip\<close> (\<open>ip.c\<close>): the contract for any outside, and the allocator as a counter (locale \<open>counter_allocator\<close>).
    \<open>Ip_Race\<close>: concurrent runs as a step relation.
  \<^item> \<open>Net_Utils\<close>, \<open>Nft\<close>, \<open>Net\<close> (the files of these names): the operations and their contracts for any outside:
    objects are released exactly once, failures are reported, the namespace is restored on success.
    \<open>Nft_Spec\<close>: the packets the rule masquerades, and what becomes of the kernel's verdict.
  \<^item> \<open>Calls\<close>: the exchanges of every operation that succeeded, as predicates on lists (locale \<open>asking\<close>). \<open>Kept\<close>:
    what single calls preserve, operations preserve (locale \<open>touching\<close>). \<open>Requests\<close>: the exchanges read as
    requests to the kernel with names, addresses and namespaces in place of pointers, indices and
    descriptors. \<open>Node\<close>: the node's interfaces, routes and rules after the requests. \<open>Add_Node\<close>: a whole ADD
    and a whole DEL on the node, and what any run leaves behind.
  \<^item> \<open>Args\<close> (\<open>args.c\<close>), \<open>Cmd\<close> (\<open>cmd.c\<close>, \<open>main.c\<close>). \<open>Success\<close>: on an outside that grants every call the
    operations return 0 (locale \<open>succeeding\<close>). \<open>Runs\<close> and this theory: sequences of runs.
  \<^item> \<open>Demo\<close>, \<open>Demo_Json\<close>, \<open>Demo_Node\<close>: a concrete outside, JSON library and kernel for the witnesses.

  \<^bold>\<open>What is shown.\<close> For any outside: a run ends with exit code 0 or 1, prints at most one line and gives
  back every library object, descriptor and stream, and an ADD's response agrees with its exit code; what
  may still be undefined is listed and, where it is a defect, shown to happen. An ADD that ends with code 0
  leaves the container connected with the address it printed and has read no refusal of the NAT batch
  (which does not mean that the rule is there); a DEL takes everything back but the rule, if it is there. On
  a granting outside sequences of ADDs and DELs succeed and hand out consecutive addresses; whatever the
  netlink calls answer, no address is handed out twice by runs one after the other. The rule matches the
  cluster's addresses. The defects found are theorems as well: an early failure in the container's
  namespace, a missing version or identity, long CIDR texts and prefix lengths out of range are undefined
  behaviour; the allocator leaves the subnet, wedges, starts over, and collides without a lock; a refused
  sysctl or rule goes unnoticed; a failed ADD takes nothing back, and a repeated DEL fails; the JSON input
  is not released, and a reference to \<open>prevResult\<close> is given away that is not owned.

  \<^bold>\<open>What is assumed of the outside\<close>, each where it is needed, as a hypothesis: \<open>out_params_filled\<close> (a function
  that succeeds has set its out parameter), \<open>allocates\<close> (no object is handed out while it is in use),
  \<open>stdio_works\<close> and \<open>granting\<close> (the calls succeed), \<open>nf_documented\<close> and \<open>rtnl_documented\<close> (what nftables
  expressions and the kernel's requests do; the kernel may refuse a batch). Witnesses show that they can
  hold.

  \<^bold>\<open>Loops.\<close> The read loop and the trimming loop terminate (measures on the free space and on the text). The
  loop over acknowledgements runs for as long as the outside delivers them, possibly forever: it is a
  \<open>partial_function\<close>, and not returning is among the outcomes that \<open>nft_may\<close> and \<open>add_may\<close> list. No fuel is used. Integers are bounded where C bounds them: addresses, masks and hashes are 32-bit words,
  \<open>atoi\<close> reduces to 32 bits.

  \<^bold>\<open>Not modelled.\<close> Messages to standard error; \<open>args_print\<close> and \<open>mock_stdin_input\<close> of \<open>args.c\<close>, which nothing
  calls; the seeding of \<open>rand\<close>, which nothing uses; the references to the parts of a JSON response, each
  handed over as soon as it is made. The code of libnl, libmnl, libnftnl, json-c and the kernel is not in
  the repository. The installer \<open>sknf-app\<close> is a Go program that
  copies files and calls the Kubernetes client library; the rest are build files, scripts and manifests.
\<close>


section \<open>The life of a node\<close>

text \<open>
  C7. On a granting outside every sequence of runs succeeds, one after the other, where each is a DEL with
  a complete identity or an accepted ADD, for any containers, all ADDs with the node CIDR and the cluster
  CIDR of the node: each exits with code 0; a DEL prints nothing, an ADD its success response, and the
  addresses in the responses are consecutive, from the one after the last one handed out before. The
  sysctls of the bridge module must exist, both CIDRs parse, the cluster's prefix length be 0 to 32, the
  allocator's file be absent or hold a CIDR that parses, and no ADD name one of the plugin's own interfaces.
\<close>

theorem runs_of_node:
  assumes "granting E" "util_cidr_parse node = ret (Inr (a, p))" "util_cidr_parse cluster = ret (Inr (b, cp))"
    "0 \<le> cp" "cp \<le> 32"
    "held w = Some H" "files w sysctl_ip4 \<noteq> None" "files w sysctl_ip6 \<noteq> None" "ip_counter node w = Some n"
    "\<forall>q \<in> set qs. asks_add node cluster (run_args J q) \<and> names_free (run_args J q) \<or> asks_del (run_args J q)"
  shows "\<exists>w'. runs J E qs w = ret (replicate (length qs) 0, w') \<and>
    out w' = out w @ responses J cp n (map (run_args J) qs)"
  by (rule granted_runs [OF assms])

text \<open>Two containers are added and the first one is deleted.\<close>

definition demo_runs :: "request_for_run list" where
  "demo_runs = [(demo_environ ''ADD'', ''conf''), ((demo_environ ''ADD'') (''CNI_CONTAINERID'' := Some ''c2''), ''conf''),
     (demo_environ ''DEL'', ''conf'')]"

lemma demo_run_args:
  "run_args demo_json (demo_environ cmd, ''conf'') = demo_args cmd"
  "run_args demo_json ((demo_environ cmd) (''CNI_CONTAINERID'' := Some ''c2''), ''conf'') =
    (demo_args cmd)\<lparr>cni_containerid := Some ''c2''\<rparr>"
  by (simp_all add: run_args_def demo_args_def args_fill_def Let_def demo_environ_def)

lemma demo_runs_ask:
  "asks_add demo_node demo_cluster (demo_args ''ADD'')"
  "asks_add demo_node demo_cluster ((demo_args ''ADD'')\<lparr>cni_containerid := Some ''c2''\<rparr>)"
  "names_free (demo_args ''ADD'')" "names_free ((demo_args ''ADD'')\<lparr>cni_containerid := Some ''c2''\<rparr>)"
  "asks_del (demo_args ''DEL'')"
proof -
  have c: "cstr ''ADD'' = CNI_CMD_ADD" "cstr ''DEL'' = CNI_CMD_DEL" "cstr ''0.4.0'' = CNI_VERSION"
    by (simp_all add: cstr_def CNI_CMD_ADD_def CNI_CMD_DEL_def CNI_VERSION_def)
  have r: "add_ready ((demo_args ''ADD'')\<lparr>cni_containerid := Some ''c2''\<rparr>)"
    using demo_args_fields(9) [of "''ADD''"] by (simp add: add_ready_def)
  show "asks_add demo_node demo_cluster (demo_args ''ADD'')"
    "asks_add demo_node demo_cluster ((demo_args ''ADD'')\<lparr>cni_containerid := Some ''c2''\<rparr>)" "asks_del (demo_args ''DEL'')"
    using r by (simp_all add: asks_add_def asks_del_def dispatched_def adds_def demo_args_fields c)
  show "names_free (demo_args ''ADD'')" "names_free ((demo_args ''ADD'')\<lparr>cni_containerid := Some ''c2''\<rparr>)"
    using demo_own_names by (auto simp: names_free_def demo_args_fields)
qed

lemma demo_runs_good:
  "\<forall>q \<in> set demo_runs. asks_add demo_node demo_cluster (run_args demo_json q) \<and> names_free (run_args demo_json q) \<or>
     asks_del (run_args demo_json q)"
  using demo_runs_ask by (simp add: demo_runs_def demo_run_args)

lemma runs_of_node_witness:
  "\<exists>w'. runs demo_json demo demo_runs node_world = ret ([0, 0, 0], w') \<and>
    out w' = [to_plain_string demo_json (add_response demo_json (demo_args ''ADD'') ''10.244.1.2/16''),
      to_plain_string demo_json (add_response demo_json ((demo_args ''ADD'')\<lparr>cni_containerid := Some ''c2''\<rparr>) ''10.244.1.3/16'')]"
proof -
  have "responses demo_json 16 0x0AF40101 (map (run_args demo_json) demo_runs) =
      [to_plain_string demo_json (add_response demo_json (demo_args ''ADD'') ''10.244.1.2/16''),
       to_plain_string demo_json (add_response demo_json ((demo_args ''ADD'')\<lparr>cni_containerid := Some ''c2''\<rparr>) ''10.244.1.3/16'')]"
    using demo_runs_ask asks_add_not_del [OF demo_runs_ask(1)] asks_add_not_del [OF demo_runs_ask(2)]
    by (simp add: demo_runs_def demo_run_args add_line_def demo_texts)
  moreover have "length demo_runs = 3" by (simp add: demo_runs_def)
  ultimately show ?thesis
    using runs_of_node [OF granting_demo demo_cidrs _ _ node_world_start(2) node_world_sysctls node_world_counter demo_runs_good]
    by (simp add: node_world_start(3) numeral_3_eq_3)
qed

text \<open>
  C23. No address is handed out twice: take any sequence of fewer than 2^32 runs that return, one after the
  other, each an accepted ADD on the node or a DEL with a complete identity, for any containers, while
  stdio works but the netlink calls answer anything. Its exit codes and lines are as \<open>history\<close> says: every
  ADD uses the next address up, whether it succeeds (its success response is printed) or fails (the
  response for a reported error is), and a DEL gives no address back. So the addresses of the
  successful ADDs are different from each other and from the last one handed out before. (The sysctls
  exist, the CIDRs parse, and the allocator's file is absent or holds a CIDR that parses.)
\<close>

theorem addresses_never_reused:
  assumes "stdio_works E" "out_params_filled E" "util_cidr_parse node = ret (Inr (a, p))"
    "util_cidr_parse cluster = ret (Inr (b, cp))"
    "held w = Some H" "files w sysctl_ip4 \<noteq> None" "files w sysctl_ip6 \<noteq> None" "ip_counter node w = Some n"
    "\<forall>q \<in> set qs. asks_add node cluster (run_args J q) \<or> asks_del (run_args J q)"
    "runs J E qs w = ret (rcs, w')" "length qs < 2 ^ 32"
  shows "\<exists>ls gs. history J node cluster cp n (map (run_args J) qs) rcs ls gs \<and> out w' = out w @ ls \<and> distinct (n # gs)"
proof -
  obtain ls gs where h: "history J node cluster cp n (map (run_args J) qs) rcs ls gs" "out w' = out w @ ls"
    using any_runs [OF assms(1-10)] by blast
  with history_distinct [OF h(1)] assms(11) show ?thesis by auto
qed

lemma addresses_never_reused_witness:
  "\<exists>w' ls gs. runs demo_json demo demo_runs node_world = ret ([0, 0, 0], w') \<and>
    history demo_json demo_node demo_cluster 16 0x0AF40101 (map (run_args demo_json) demo_runs) [0, 0, 0] ls gs \<and>
    distinct (0x0AF40101 # gs)"
proof -
  obtain w' where w': "runs demo_json demo demo_runs node_world = ret ([0, 0, 0], w')"
    using granted_runs [OF granting_demo demo_cidrs _ _ node_world_start(2) node_world_sysctls node_world_counter demo_runs_good]
    by (auto simp: demo_runs_def)
  have "\<forall>q \<in> set demo_runs. asks_add demo_node demo_cluster (run_args demo_json q) \<or> asks_del (run_args demo_json q)"
    using demo_runs_good by blast
  from addresses_never_reused [OF demo_works(2,1) demo_cidrs node_world_start(2) node_world_sysctls node_world_counter this w'] w'
  show ?thesis by (auto simp: demo_runs_def)
qed

end
